theory Spec2Isabelle
  imports Main "HOL-Library.AList"
begin

section \<open>Exceptions and results\<close>

text \<open>
  The exceptions that \<^verbatim>\<open>backend/llm.py\<close> can raise or let through. \<open>ClientError\<close> is
  botocore's, carrying \<^verbatim>\<open>err.response["Error"]["Message"]\<close>; \<open>TransportError\<close> stands for
  any other exception of a client library (network failure, JSON decoding, ...);
  \<open>PlainException\<close> is \<^verbatim>\<open>Exception(msg)\<close>. \<open>IllTyped\<close> is not a Python exception: it marks an
  input outside the declared parameter types (a message that is not a dictionary, an
  address with no object), where the model does not say what Python does.
\<close>

datatype error =
    KeyError string
  | IndexError
  | TypeError
  | AttributeError
  | ValueError
  | AssertionError
  | ClientError string
  | TransportError string
  | PlainException string
  | IllTyped

section \<open>Model identifiers\<close>

text \<open>\<^verbatim>\<open>class Llm(Enum)\<close>: the members, in declaration order, and their values.\<close>

datatype Llm =
    GPT_4_VISION
  | GPT_4_TURBO_2024_04_09
  | CLAUDE_3_SONNET
  | CLAUDE_3_OPUS
  | CLAUDE_3_HAIKU

fun llm_value :: "Llm \<Rightarrow> string" where
  "llm_value GPT_4_VISION = ''gpt-4-vision-preview''"
| "llm_value GPT_4_TURBO_2024_04_09 = ''gpt-4-turbo-2024-04-09''"
| "llm_value CLAUDE_3_SONNET = ''claude-3-sonnet-20240229''"
| "llm_value CLAUDE_3_OPUS = ''claude-3-opus-20240229''"
| "llm_value CLAUDE_3_HAIKU = ''claude-3-haiku-20240307''"

definition Llm_members :: "Llm list" where
  "Llm_members =
     [GPT_4_VISION, GPT_4_TURBO_2024_04_09, CLAUDE_3_SONNET, CLAUDE_3_OPUS, CLAUDE_3_HAIKU]"

text \<open>\<^verbatim>\<open>Llm(s)\<close>: the enum's lookup by value, which raises \<^verbatim>\<open>ValueError\<close> when no member
  has the value \<open>s\<close>.\<close>

definition Llm_of_value :: "string \<Rightarrow> error + Llm" where
  "Llm_of_value s =
     (case find (\<lambda>m. llm_value m = s) Llm_members of
        None \<Rightarrow> Inl ValueError
      | Some m \<Rightarrow> Inr m)"

definition convert_frontend_str_to_llm :: "string \<Rightarrow> error + Llm" where
  "convert_frontend_str_to_llm frontend_str =
     (if frontend_str = ''gpt_4_vision'' then Inr GPT_4_VISION
      else if frontend_str = ''claude_3_sonnet'' then Inr CLAUDE_3_SONNET
      else Llm_of_value frontend_str)"

text \<open>The strings the conversion recognises: the two legacy short names and the five
  enum values.\<close>

definition recognised_names :: "string set" where
  "recognised_names = {''gpt_4_vision'', ''claude_3_sonnet''} \<union> llm_value ` set Llm_members"

datatype outcome = Returns string | ReturnsNone | Raises error

text \<open>\<^verbatim>\<open>xs[i]\<close> on a list.\<close>

definition item :: "'a list \<Rightarrow> nat \<Rightarrow> error + 'a" where
  "item xs i = (if i < length xs then Inr (xs ! i) else Inl IndexError)"

text \<open>Sequencing of steps that can raise: the first exception ends the computation.\<close>

definition and_then :: "error + 'a \<Rightarrow> ('a \<Rightarrow> error + 'b) \<Rightarrow> error + 'b" where
  "and_then r f = (case r of Inl e \<Rightarrow> Inl e | Inr x \<Rightarrow> f x)"

fun collect :: "(error + 'a) list \<Rightarrow> error + 'a list" where
  "collect [] = Inr []"
| "collect (r # rs) =
     (case r of
        Inl e \<Rightarrow> Inl e
      | Inr x \<Rightarrow> (case collect rs of Inl e \<Rightarrow> Inl e | Inr xs \<Rightarrow> Inr (x # xs)))"

section \<open>Strings\<close>

text \<open>\<^verbatim>\<open>s.split(sep)\<close> for a separator of one character: the pieces between the
  occurrences of \<open>sep\<close>, always at least one piece.\<close>

fun str_split :: "char \<Rightarrow> string \<Rightarrow> string list" where
  "str_split sep [] = [[]]"
| "str_split sep (c # cs) =
     (if c = sep then [] # str_split sep cs
      else (case str_split sep cs of
              [] \<Rightarrow> [[c]]
            | p # ps \<Rightarrow> (c # p) # ps))"

text \<open>\<^verbatim>\<open>s.split(sep)[0]\<close> for a non-empty separator string: the text before the first
  occurrence of \<open>sep\<close>, or all of \<open>s\<close> when there is none.\<close>

fun before_first :: "string \<Rightarrow> string \<Rightarrow> string" where
  "before_first sep [] = []"
| "before_first sep (c # cs) =
     (if take (length sep) (c # cs) = sep then [] else c # before_first sep cs)"

definition digit_char :: "nat \<Rightarrow> char" where
  "digit_char d = ''0123456789'' ! d"

text \<open>\<^verbatim>\<open>str(n)\<close> for a natural number, as an f-string formats it.\<close>

fun string_of_nat :: "nat \<Rightarrow> string" where
  "string_of_nat n =
     (if n < 10 then [digit_char n]
      else string_of_nat (n div 10) @ [digit_char (n mod 10)])"

declare string_of_nat.simps [simp del]

section \<open>Python objects and JSON values\<close>

text \<open>
  The message list of the single-pass adapters is a graph of Python objects:
  dictionaries and lists that are shared by reference, and that the translation
  updates in place. A value is \<^verbatim>\<open>None\<close>, a string, or a reference to an object of the
  store; the store is the list of the objects allocated so far, an address being an
  index into it. A dictionary keeps its keys in insertion order.
\<close>

datatype pyval = PNone | PStr string | PRef nat

datatype pyobj = PDict "(string \<times> pyval) list" | PList "pyval list"

type_synonym heap = "pyobj list"

definition heap_lookup :: "heap \<Rightarrow> nat \<Rightarrow> pyobj option" where
  "heap_lookup h a = (if a < length h then Some (h ! a) else None)"

definition heap_alloc :: "heap \<Rightarrow> pyobj \<Rightarrow> heap \<times> nat" where
  "heap_alloc h obj = (h @ [obj], length h)"

text \<open>\<^verbatim>\<open>v[k]\<close> for a string key \<open>k\<close>: only a dictionary can be indexed by a string.\<close>

definition getitem :: "heap \<Rightarrow> pyval \<Rightarrow> string \<Rightarrow> error + pyval" where
  "getitem h v k =
     (case v of
        PRef a \<Rightarrow>
          (case heap_lookup h a of
             None \<Rightarrow> Inl IllTyped
           | Some (PDict d) \<Rightarrow>
               (case map_of d k of None \<Rightarrow> Inl (KeyError k) | Some x \<Rightarrow> Inr x)
           | Some (PList xs) \<Rightarrow> Inl TypeError)
      | _ \<Rightarrow> Inl TypeError)"

text \<open>\<^verbatim>\<open>v[k] = x\<close> and \<^verbatim>\<open>del v[k]\<close> on a value already known to be a dictionary: the
  object at that address is replaced, so every holder of the reference sees the change.\<close>

definition setitem :: "heap \<Rightarrow> pyval \<Rightarrow> string \<Rightarrow> pyval \<Rightarrow> heap" where
  "setitem h v k x =
     (case v of
        PRef a \<Rightarrow>
          (case heap_lookup h a of
             Some (PDict d) \<Rightarrow> h[a := PDict (AList.update k x d)]
           | _ \<Rightarrow> h)
      | _ \<Rightarrow> h)"

definition delitem :: "heap \<Rightarrow> pyval \<Rightarrow> string \<Rightarrow> heap" where
  "delitem h v k =
     (case v of
        PRef a \<Rightarrow>
          (case heap_lookup h a of
             Some (PDict d) \<Rightarrow> h[a := PDict (AList.delete k d)]
           | _ \<Rightarrow> h)
      | _ \<Rightarrow> h)"

text \<open>\<^verbatim>\<open>isinstance(v, list)\<close>, with the elements when it holds.\<close>

definition as_list :: "heap \<Rightarrow> pyval \<Rightarrow> pyval list option" where
  "as_list h v =
     (case v of
        PRef a \<Rightarrow> (case heap_lookup h a of Some (PList xs) \<Rightarrow> Some xs | _ \<Rightarrow> None)
      | _ \<Rightarrow> None)"

text \<open>A JSON value; a number is kept as its text (\<^verbatim>\<open>4096\<close>, \<^verbatim>\<open>0.0\<close>).\<close>

datatype json =
    JNull
  | JBool bool
  | JNum string
  | JStr string
  | JArr "json list"
  | JObj "(string \<times> json) list"

text \<open>\<^verbatim>\<open>j[k]\<close> on a value decoded by \<^verbatim>\<open>json.loads\<close>.\<close>

definition json_getitem :: "json \<Rightarrow> string \<Rightarrow> error + json" where
  "json_getitem j k =
     (case j of
        JObj d \<Rightarrow> (case map_of d k of None \<Rightarrow> Inl (KeyError k) | Some x \<Rightarrow> Inr x)
      | _ \<Rightarrow> Inl TypeError)"

text \<open>
  \<^verbatim>\<open>json.dumps\<close> of a value of the store. The encoder descends through lists and
  dictionaries and raises \<^verbatim>\<open>ValueError\<close> on a circular reference. The descent is bounded
  by \<open>fuel\<close>; \<open>dumps\<close> starts with one more than the number of objects in the store, which
  no acyclic chain of containers can use up.
\<close>

fun dumps_fuel :: "nat \<Rightarrow> heap \<Rightarrow> pyval \<Rightarrow> error + json" where
  "dumps_fuel 0 h v = Inl ValueError"
| "dumps_fuel (Suc n) h PNone = Inr JNull"
| "dumps_fuel (Suc n) h (PStr s) = Inr (JStr s)"
| "dumps_fuel (Suc n) h (PRef a) =
     (case heap_lookup h a of
        None \<Rightarrow> Inl IllTyped
      | Some (PList xs) \<Rightarrow>
          and_then (collect (map (dumps_fuel n h) xs)) (\<lambda>js. Inr (JArr js))
      | Some (PDict d) \<Rightarrow>
          and_then
            (collect (map (\<lambda>(k, v). and_then (dumps_fuel n h v) (\<lambda>j. Inr (k, j))) d))
            (\<lambda>kjs. Inr (JObj kjs)))"

definition dumps :: "heap \<Rightarrow> pyval \<Rightarrow> error + json" where
  "dumps h v = dumps_fuel (Suc (length h)) h v"

section \<open>The sink, the console and the requests\<close>

text \<open>
  What a call does to the outside is recorded in order: \<open>sink\<close> holds the arguments of
  the calls of \<^verbatim>\<open>callback\<close>, \<open>stdout\<close> the \<^verbatim>\<open>print\<close>ed texts, \<open>files\<close> the debug files
  written (name and text), and \<open>sent\<close> the requests handed to the provider's client.
  The callback is the caller's; the model takes one that returns normally.
\<close>

record 'q world =
  sink :: "json list"
  stdout :: "string list"
  files :: "(string \<times> string) list"
  sent :: "'q list"

definition empty_world :: "'q world" where
  "empty_world = \<lparr>sink = [], stdout = [], files = [], sent = []\<rparr>"

text \<open>A response stream of a client library: the items it yields, then either its end
  or an exception raised by the iteration.\<close>

record 'a py_stream =
  items :: "'a list"
  failure :: "error option"

text \<open>
  The collaborators that are imported but not part of \<^verbatim>\<open>llm.py\<close>: the flag
  \<^verbatim>\<open>config.IS_DEBUG_ENABLED\<close>, \<^verbatim>\<open>DebugFileWriter.extract_html_content\<close>, and what
  \<^verbatim>\<open>utils.pprint_prompt\<close> prints for a message list.
\<close>

record environment =
  IS_DEBUG_ENABLED :: bool
  extract_html_content :: "string \<Rightarrow> string"
  pprint_prompt :: "json list \<Rightarrow> string list"

section \<open>Translating OpenAI messages to Claude messages\<close>

text \<open>
  Lines 84 to 107 of \<^verbatim>\<open>stream_claude_response\<close> and lines 151 to 174 of
  \<^verbatim>\<open>stream_claude_response_aws_bedrock\<close> are the same statements; they are embedded
  once. Each function returns the store as the statements leave it, also when one of
  them raises: what was written before the exception stays written.
\<close>

text \<open>The body of the inner loop, lines 91 to 107, for one element \<open>content\<close> of a content
  list.\<close>

definition rewrite_content :: "heap \<Rightarrow> pyval \<Rightarrow> error option \<times> heap" where
  "rewrite_content h content =
     (case getitem h content ''type'' of
        Inl e \<Rightarrow> (Some e, h)
      | Inr ty \<Rightarrow>
          if ty \<noteq> PStr ''image_url'' then (None, h)
          else
            (let h1 = setitem h content ''type'' (PStr ''image'') in
             case and_then (getitem h1 content ''image_url'') (\<lambda>iu. getitem h1 iu ''url'') of
               Inl e \<Rightarrow> (Some e, h1)
             | Inr PNone \<Rightarrow> (Some AttributeError, h1)
             | Inr (PRef u) \<Rightarrow> (Some AttributeError, h1)
             | Inr (PStr image_data_url) \<Rightarrow>
                 (case and_then (item (str_split CHR '';'' image_data_url) 0)
                         (\<lambda>s. item (str_split CHR '':'' s) 1) of
                    Inl e \<Rightarrow> (Some e, h1)
                  | Inr media_type \<Rightarrow>
                      (case item (str_split CHR '','' image_data_url) 1 of
                         Inl e \<Rightarrow> (Some e, h1)
                       | Inr base64_data \<Rightarrow>
                           (let h2 = delitem h1 content ''image_url'';
                                (h3, source) =
                                  heap_alloc h2
                                    (PDict [(''type'', PStr ''base64''),
                                            (''media_type'', PStr media_type),
                                            (''data'', PStr base64_data)])
                            in (None, setitem h3 content ''source'' (PRef source)))))))"

text \<open>\<^verbatim>\<open>for content in message["content"]\<close>: the first exception ends the loop.\<close>

fun rewrite_contents :: "heap \<Rightarrow> pyval list \<Rightarrow> error option \<times> heap" where
  "rewrite_contents h [] = (None, h)"
| "rewrite_contents h (content # rest) =
     (case rewrite_content h content of
        (Some e, h') \<Rightarrow> (Some e, h')
      | (None, h') \<Rightarrow> rewrite_contents h' rest)"

text \<open>\<^verbatim>\<open>for message in claude_messages\<close>: a message whose content is not a list is
  skipped.\<close>

fun rewrite_messages :: "heap \<Rightarrow> pyval list \<Rightarrow> error option \<times> heap" where
  "rewrite_messages h [] = (None, h)"
| "rewrite_messages h (message # rest) =
     (case getitem h message ''content'' of
        Inl e \<Rightarrow> (Some e, h)
      | Inr c \<Rightarrow>
          (case as_list h c of
             None \<Rightarrow> rewrite_messages h rest
           | Some parts \<Rightarrow>
               (case rewrite_contents h parts of
                  (Some e, h') \<Rightarrow> (Some e, h')
                | (None, h') \<Rightarrow> rewrite_messages h' rest)))"

text \<open>\<^verbatim>\<open>[dict(message) for message in ms]\<close>: each message dictionary is copied into a new
  dictionary with the same keys and the same values; a value that is a reference is
  copied as the reference, so the copy shares the content list with the original.
  The messages are dictionaries by the parameter's type.\<close>

fun copy_messages :: "heap \<Rightarrow> pyval list \<Rightarrow> error + heap \<times> pyval list" where
  "copy_messages h [] = Inr (h, [])"
| "copy_messages h (message # rest) =
     (case message of
        PRef a \<Rightarrow>
          (case heap_lookup h a of
             Some (PDict d) \<Rightarrow>
               (let (h1, c) = heap_alloc h (PDict d) in
                case copy_messages h1 rest of
                  Inl e \<Rightarrow> Inl e
                | Inr (h2, cs) \<Rightarrow> Inr (h2, PRef c # cs))
           | _ \<Rightarrow> Inl IllTyped)
      | _ \<Rightarrow> Inl IllTyped)"

text \<open>\<^verbatim>\<open>messages[0].get("content")\<close>: only a dictionary has \<^verbatim>\<open>get\<close>, which gives
  \<^verbatim>\<open>None\<close> for a missing key.\<close>

definition first_content :: "heap \<Rightarrow> pyval list \<Rightarrow> error + pyval" where
  "first_content h messages =
     (case messages of
        [] \<Rightarrow> Inl IndexError
      | PRef a # _ \<Rightarrow>
          (case heap_lookup h a of
             None \<Rightarrow> Inl IllTyped
           | Some (PDict d) \<Rightarrow>
               Inr (case map_of d ''content'' of None \<Rightarrow> PNone | Some v \<Rightarrow> v)
           | Some (PList xs) \<Rightarrow> Inl AttributeError)
      | _ # _ \<Rightarrow> Inl AttributeError)"

text \<open>Lines 84 to 107: the system prompt and the translated turns, or the exception
  raised, and the store afterwards.\<close>

definition translate_messages ::
    "heap \<Rightarrow> pyval list \<Rightarrow> (error + pyval \<times> pyval list) \<times> heap" where
  "translate_messages h messages =
     (case first_content h messages of
        Inl e \<Rightarrow> (Inl e, h)
      | Inr system_prompt \<Rightarrow>
          (case copy_messages h (tl messages) of
             Inl e \<Rightarrow> (Inl e, h)
           | Inr (h1, claude_messages) \<Rightarrow>
               (case rewrite_messages h1 claude_messages of
                  (Some e, h2) \<Rightarrow> (Inl e, h2)
                | (None, h2) \<Rightarrow> (Inr (system_prompt, claude_messages), h2))))"

section \<open>The direct-API adapter\<close>

text \<open>An object of the response stream: a \<^verbatim>\<open>ChatCompletionChunk\<close> with its choices, each
  with \<^verbatim>\<open>delta.content\<close> (a string or \<^verbatim>\<open>None\<close>), or an object of another class.\<close>

datatype choice = Choice (delta_content: "string option")

datatype stream_object = ChatCompletionChunk (choices: "choice list") | OtherObject

record 'm chat_params =
  cp_model :: string
  cp_messages :: 'm
  cp_stream :: bool
  cp_timeout :: nat
  cp_temperature :: string
  cp_max_tokens :: "nat option"

text \<open>\<^verbatim>\<open>client.chat.completions.create(**params)\<close>: an exception, or the stream.\<close>

type_synonym 'm openai_client = "'m chat_params \<Rightarrow> error + stream_object py_stream"

definition openai_params :: "'m \<Rightarrow> Llm \<Rightarrow> 'm chat_params" where
  "openai_params messages model =
     \<lparr>cp_model = llm_value model, cp_messages = messages, cp_stream = True,
      cp_timeout = 600, cp_temperature = ''0.0'',
      cp_max_tokens =
        (if model = GPT_4_VISION \<or> model = GPT_4_TURBO_2024_04_09 then Some 4096 else None)\<rparr>"

text \<open>\<^verbatim>\<open>chunk.choices[0].delta.content or ""\<close>.\<close>

definition chunk_content :: "stream_object \<Rightarrow> error + string" where
  "chunk_content chunk =
     (case chunk of
        OtherObject \<Rightarrow> Inl AssertionError
      | ChatCompletionChunk cs \<Rightarrow>
          (case cs of
             [] \<Rightarrow> Inl IndexError
           | c # _ \<Rightarrow> Inr (case delta_content c of None \<Rightarrow> [] | Some s \<Rightarrow> s)))"

text \<open>\<^verbatim>\<open>async for chunk in stream\<close>, lines 58 to 62, over the accumulator and the sink.\<close>

fun consume_chunks ::
    "stream_object list \<Rightarrow> string \<times> json list \<Rightarrow> error option \<times> string \<times> json list" where
  "consume_chunks [] (full_response, sk) = (None, full_response, sk)"
| "consume_chunks (chunk # rest) (full_response, sk) =
     (case chunk_content chunk of
        Inl e \<Rightarrow> (Some e, full_response, sk)
      | Inr content \<Rightarrow> consume_chunks rest (full_response @ content, sk @ [JStr content]))"

definition stream_openai_response ::
    "'m openai_client \<Rightarrow> 'm \<Rightarrow> Llm \<Rightarrow> outcome \<times> 'm chat_params world" where
  "stream_openai_response client messages model =
     (let params = openai_params messages model;
          w = empty_world\<lparr>sent := [params]\<rparr>
      in case client params of
           Inl e \<Rightarrow> (Raises e, w)
         | Inr stream \<Rightarrow>
             (case consume_chunks (items stream) ([], []) of
                (Some e, full_response, sk) \<Rightarrow> (Raises e, w\<lparr>sink := sk\<rparr>)
              | (None, full_response, sk) \<Rightarrow>
                  (case failure stream of
                     Some e \<Rightarrow> (Raises e, w\<lparr>sink := sk\<rparr>)
                   | None \<Rightarrow> (Returns full_response, w\<lparr>sink := sk\<rparr>))))"

section \<open>The native-SDK adapter\<close>

text \<open>A block of \<^verbatim>\<open>response.content\<close>: a text block has \<^verbatim>\<open>.text\<close>, a block of another kind
  has not.\<close>

datatype content_block = TextBlock string | OtherBlock

record final_message =
  content :: "content_block list"
  input_tokens :: nat
  output_tokens :: nat

text \<open>What \<^verbatim>\<open>client.messages.stream(...)\<close> gives once entered: the text increments of
  \<^verbatim>\<open>stream.text_stream\<close> and the result of \<^verbatim>\<open>stream.get_final_message()\<close>.\<close>

record message_stream =
  text_stream :: "string py_stream"
  get_final_message :: "error + final_message"

record ('s, 'm) stream_params =
  sp_model :: string
  sp_max_tokens :: nat
  sp_temperature :: string
  sp_system :: 's
  sp_messages :: 'm

text \<open>\<^verbatim>\<open>response.content[0].text\<close>.\<close>

definition first_text :: "final_message \<Rightarrow> error + string" where
  "first_text response =
     (case content response of
        [] \<Rightarrow> Inl IndexError
      | TextBlock t # _ \<Rightarrow> Inr t
      | OtherBlock # _ \<Rightarrow> Inl AttributeError)"

text \<open>The single-pass client is handed the system prompt and the translated turns,
  which are objects of the store as it is at that moment.\<close>

type_synonym claude_params = "(pyval, pyval list \<times> heap) stream_params"

type_synonym claude_client = "claude_params \<Rightarrow> error + message_stream"

definition claude_params :: "pyval \<Rightarrow> pyval list \<Rightarrow> heap \<Rightarrow> claude_params" where
  "claude_params system_prompt claude_messages h =
     \<lparr>sp_model = llm_value CLAUDE_3_SONNET, sp_max_tokens = 4096, sp_temperature = ''0.0'',
      sp_system = system_prompt, sp_messages = (claude_messages, h)\<rparr>"

text \<open>\<^verbatim>\<open>async for text in stream.text_stream: await callback(text)\<close>.\<close>

fun deliver_texts :: "string list \<Rightarrow> json list \<Rightarrow> json list" where
  "deliver_texts [] sk = sk"
| "deliver_texts (t # rest) sk = deliver_texts rest (sk @ [JStr t])"

definition stream_claude_response ::
    "claude_client \<Rightarrow> heap \<Rightarrow> pyval list \<Rightarrow> (outcome \<times> claude_params world) \<times> heap" where
  "stream_claude_response client h messages =
     (case translate_messages h messages of
        (Inl e, h') \<Rightarrow> ((Raises e, empty_world), h')
      | (Inr (system_prompt, claude_messages), h') \<Rightarrow>
          (let params = claude_params system_prompt claude_messages h';
               w = empty_world\<lparr>sent := [params]\<rparr>
           in case client params of
                Inl e \<Rightarrow> ((Raises e, w), h')
              | Inr stream \<Rightarrow>
                  (let w1 = w\<lparr>sink := deliver_texts (items (text_stream stream)) []\<rparr> in
                   case failure (text_stream stream) of
                     Some e \<Rightarrow> ((Raises e, w1), h')
                   | None \<Rightarrow>
                       (case and_then (get_final_message stream) first_text of
                          Inl e \<Rightarrow> ((Raises e, w1), h')
                        | Inr t \<Rightarrow> ((Returns t, w1), h')))))"

section \<open>The managed-gateway adapter\<close>

text \<open>
  An event of the response body. \<^verbatim>\<open>event.get("chunk")\<close> is absent or empty (\<open>None\<close>), or
  it holds bytes; \<^verbatim>\<open>json.loads(chunk.get("bytes").decode())\<close> is the library's, and the
  event carries what it gives for those bytes: the exception raised or the decoded
  value. The response of \<^verbatim>\<open>invoke_model_with_response_stream\<close> is a dictionary, with or
  without a body; an empty dictionary is false in a condition.
\<close>

datatype event = Event (chunk: "(error + json) option")

datatype bedrock_response = Response "event py_stream option" | EmptyResponse

fun get_body :: "bedrock_response \<Rightarrow> event py_stream option" where
  "get_body (Response b) = b"
| "get_body EmptyResponse = None"

record invoke_params =
  ip_body :: json
  ip_modelId :: string
  ip_accept :: string
  ip_contentType :: string

type_synonym bedrock_client = "invoke_params \<Rightarrow> error + bedrock_response"

definition invoke_params :: "json \<Rightarrow> invoke_params" where
  "invoke_params body =
     \<lparr>ip_body = body, ip_modelId = ''anthropic.claude-3-sonnet-20240229-v1:0'',
      ip_accept = ''*/*'', ip_contentType = ''application/json''\<rparr>"

text \<open>The dictionary given to \<^verbatim>\<open>json.dumps\<close>, once its values are encoded.\<close>

definition request_body :: "json list \<Rightarrow> json \<Rightarrow> json" where
  "request_body messages system_prompt =
     JObj [(''anthropic_version'', JStr ''bedrock-2023-05-31''),
           (''max_tokens'', JNum ''4096''),
           (''messages'', JArr messages),
           (''system'', system_prompt),
           (''temperature'', JNum ''0.0'')]"

definition dumps_request :: "heap \<Rightarrow> pyval list \<Rightarrow> pyval \<Rightarrow> error + json" where
  "dumps_request h claude_messages system_prompt =
     and_then (collect (map (dumps h) claude_messages)) (\<lambda>ms.
     and_then (dumps h system_prompt) (\<lambda>s.
     Inr (request_body ms s)))"

text \<open>The text of a content delta, lines 198 to 203: \<open>Inr None\<close> for an event that
  contributes nothing.\<close>

definition event_text :: "event \<Rightarrow> error + json option" where
  "event_text ev =
     (case chunk ev of
        None \<Rightarrow> Inr None
      | Some (Inl e) \<Rightarrow> Inl e
      | Some (Inr chunk_obj) \<Rightarrow>
          (case json_getitem chunk_obj ''type'' of
             Inl e \<Rightarrow> Inl e
           | Inr ty \<Rightarrow>
               if ty = JStr ''content_block_delta''
               then and_then (json_getitem chunk_obj ''delta'') (\<lambda>delta.
                    and_then (json_getitem delta ''text'') (\<lambda>t. Inr (Some t)))
               else Inr None))"

text \<open>\<^verbatim>\<open>for event in stream\<close>, lines 197 to 205: the sink is called with the text
  before the text is appended, and appending anything but a string to a string raises
  \<^verbatim>\<open>TypeError\<close>.\<close>

fun consume_events ::
    "event list \<Rightarrow> string \<times> json list \<Rightarrow> error option \<times> string \<times> json list" where
  "consume_events [] (final_message, sk) = (None, final_message, sk)"
| "consume_events (ev # rest) (final_message, sk) =
     (case event_text ev of
        Inl e \<Rightarrow> (Some e, final_message, sk)
      | Inr None \<Rightarrow> consume_events rest (final_message, sk)
      | Inr (Some (JStr t)) \<Rightarrow> consume_events rest (final_message @ t, sk @ [JStr t])
      | Inr (Some v) \<Rightarrow> (Some TypeError, final_message, sk @ [v]))"

text \<open>The two \<^verbatim>\<open>except\<close> clauses that close both managed-gateway functions.\<close>

fun handle_exceptions :: "outcome \<times> 'q world \<Rightarrow> outcome \<times> 'q world" where
  "handle_exceptions (Raises (ClientError message), w) =
     (ReturnsNone, w\<lparr>stdout := stdout w @ [''A client error occurred: '' @ message]\<rparr>)"
| "handle_exceptions (Raises err, w) =
     (Raises err, w\<lparr>stdout := stdout w @ [''An error occurred!'']\<rparr>)"
| "handle_exceptions (r, w) = (r, w)"

text \<open>The \<^verbatim>\<open>try\<close> block, lines 137 to 207.\<close>

definition bedrock_try ::
    "bedrock_client \<Rightarrow> heap \<Rightarrow> pyval list \<Rightarrow> (outcome \<times> invoke_params world) \<times> heap" where
  "bedrock_try client h messages =
     (case translate_messages h messages of
        (Inl e, h') \<Rightarrow> ((Raises e, empty_world), h')
      | (Inr (system_prompt, claude_messages), h') \<Rightarrow>
          (case dumps_request h' claude_messages system_prompt of
             Inl e \<Rightarrow> ((Raises e, empty_world), h')
           | Inr body \<Rightarrow>
               (let w = empty_world\<lparr>sent := [invoke_params body]\<rparr> in
                case client (invoke_params body) of
                  Inl e \<Rightarrow> ((Raises e, w), h')
                | Inr response \<Rightarrow>
                    (case get_body response of
                       None \<Rightarrow> ((Returns [], w), h')
                     | Some stream \<Rightarrow>
                         (case consume_events (items stream) ([], []) of
                            (Some e, final_message, sk) \<Rightarrow> ((Raises e, w\<lparr>sink := sk\<rparr>), h')
                          | (None, final_message, sk) \<Rightarrow>
                              (case failure stream of
                                 Some e \<Rightarrow> ((Raises e, w\<lparr>sink := sk\<rparr>), h')
                               | None \<Rightarrow> ((Returns final_message, w\<lparr>sink := sk\<rparr>), h')))))))"

definition stream_claude_response_aws_bedrock ::
    "bedrock_client \<Rightarrow> heap \<Rightarrow> pyval list \<Rightarrow> (outcome \<times> invoke_params world) \<times> heap" where
  "stream_claude_response_aws_bedrock client h messages =
     (case bedrock_try client h messages of (r, h') \<Rightarrow> (handle_exceptions r, h'))"

section \<open>The multi-pass flow\<close>

text \<open>
  The message list of the two multi-pass functions is only ever extended, by
  \<^verbatim>\<open>messages += [...]\<close>, which extends the caller's list object itself; its turns are
  never updated. The model keeps the list as the value \<open>messages\<close> of the loop's state
  and returns it: it is the caller's list after the call. \<^verbatim>\<open>messages + [...]\<close> builds a
  new list and leaves \<open>messages\<close> as it is. A turn is a JSON value.
\<close>

definition max_passes :: nat where
  "max_passes = 2"

definition prefix :: string where
  "prefix = ''<thinking>''"

definition turn :: "string \<Rightarrow> string \<Rightarrow> json" where
  "turn role c = JObj [(''role'', JStr role), (''content'', JStr c)]"

definition improvement_request :: string where
  "improvement_request =
     ''You'' @ [CHR 0x27] @ ''ve done a good job with a first draft. Improve this further based on the original instructions so that the app is fully functional and looks like the original video of the app we'' @ [CHR 0x27] @ ''re trying to replicate.''"

text \<open>Lines 281 to 287 and 388 to 394: what \<^verbatim>\<open>messages +=\<close> appends after a pass.\<close>

definition next_pass_turns :: "string \<Rightarrow> json list" where
  "next_pass_turns response_text =
     [turn ''assistant'' (prefix @ response_text), turn ''user'' improvement_request]"

text \<open>Lines 246 to 250 and 345 to 349.\<close>

definition messages_to_send :: "bool \<Rightarrow> json list \<Rightarrow> json list" where
  "messages_to_send include_thinking messages =
     (if include_thinking then messages @ [turn ''assistant'' prefix] else messages)"

record 'r loop_vars =
  messages :: "json list"
  full_stream :: string
  response :: "'r option"

subsection \<open>Native SDK\<close>

type_synonym native_params = "(string, json list) stream_params"

text \<open>The client's answer to the request of pass \<open>k\<close> of a run.\<close>

type_synonym native_client = "nat \<Rightarrow> native_params \<Rightarrow> error + message_stream"

definition native_params :: "Llm \<Rightarrow> string \<Rightarrow> json list \<Rightarrow> native_params" where
  "native_params model system_prompt msgs =
     \<lparr>sp_model = llm_value model, sp_max_tokens = 4096, sp_temperature = ''0.0'',
      sp_system = system_prompt, sp_messages = msgs\<rparr>"

text \<open>Lines 261 to 264: print, extend \<^verbatim>\<open>full_stream\<close>, call the sink.\<close>

fun stream_texts :: "string list \<Rightarrow> string \<times> 'q world \<Rightarrow> string \<times> 'q world" where
  "stream_texts [] (fs, w) = (fs, w)"
| "stream_texts (t # rest) (fs, w) =
     stream_texts rest (fs @ t, w\<lparr>stdout := stdout w @ [t], sink := sink w @ [JStr t]\<rparr>)"

text \<open>Lines 270 to 278.\<close>

definition write_pass_files ::
    "environment \<Rightarrow> nat \<Rightarrow> string \<Rightarrow> 'q world \<Rightarrow> 'q world" where
  "write_pass_files env current_pass_num response_text w =
     (if IS_DEBUG_ENABLED env
      then w\<lparr>files := files w @
              [(''pass_'' @ string_of_nat (current_pass_num - 1) @ ''.html'',
                extract_html_content env response_text),
               (''thinking_pass_'' @ string_of_nat (current_pass_num - 1) @ ''.txt'',
                before_first ''</thinking>'' response_text)]\<rparr>
      else w)"

definition token_usage :: "final_message \<Rightarrow> string" where
  "token_usage r =
     ''Token usage: Input Tokens: '' @ string_of_nat (input_tokens r)
       @ '', Output Tokens: '' @ string_of_nat (output_tokens r)"

text \<open>The loop body, lines 243 to 291; \<open>current_pass_num\<close> is the counter after line 243
  has incremented it.\<close>

definition native_pass ::
    "environment \<Rightarrow> native_client \<Rightarrow> string \<Rightarrow> bool \<Rightarrow> Llm \<Rightarrow> nat
      \<Rightarrow> final_message loop_vars \<times> native_params world
      \<Rightarrow> error option \<times> final_message loop_vars \<times> native_params world" where
  "native_pass env client system_prompt include_thinking model current_pass_num st =
     (let v = fst st; w = snd st;
          to_send = messages_to_send include_thinking (messages v);
          params = native_params model system_prompt to_send;
          w1 = w\<lparr>stdout := stdout w @ pprint_prompt env to_send, sent := sent w @ [params]\<rparr>
      in (case client (current_pass_num - 1) params of
            Inl e \<Rightarrow> (Some e, v, w1)
          | Inr stream \<Rightarrow>
              (let sw = stream_texts (items (text_stream stream)) (full_stream v, w1);
                   v2 = v\<lparr>full_stream := fst sw\<rparr>;
                   w2 = snd sw
               in (case failure (text_stream stream) of
                     Some e \<Rightarrow> (Some e, v2, w2)
                   | None \<Rightarrow>
                       (case get_final_message stream of
                          Inl e \<Rightarrow> (Some e, v2, w2)
                        | Inr r \<Rightarrow>
                            (case first_text r of
                               Inl e \<Rightarrow> (Some e, v2\<lparr>response := Some r\<rparr>, w2)
                             | Inr response_text \<Rightarrow>
                                 (let w3 = write_pass_files env current_pass_num response_text w2
                                  in (None,
                                      v2\<lparr>response := Some r,
                                         messages := messages v2 @ next_pass_turns response_text\<rparr>,
                                      w3\<lparr>stdout := stdout w3 @ [token_usage r]\<rparr>))))))))"

text \<open>\<^verbatim>\<open>while current_pass_num <= max_passes\<close>, line 242.\<close>

function native_passes ::
    "environment \<Rightarrow> native_client \<Rightarrow> string \<Rightarrow> bool \<Rightarrow> Llm \<Rightarrow> nat
      \<Rightarrow> final_message loop_vars \<times> native_params world
      \<Rightarrow> error option \<times> final_message loop_vars \<times> native_params world" where
  "native_passes env client system_prompt include_thinking model current_pass_num st =
     (if current_pass_num \<le> max_passes
      then (case native_pass env client system_prompt include_thinking model
                   (current_pass_num + 1) st of
              (Some e, st') \<Rightarrow> (Some e, st')
            | (None, st') \<Rightarrow>
                native_passes env client system_prompt include_thinking model
                  (current_pass_num + 1) st')
      else (None, st))"
  by pat_completeness auto
termination
  by (relation "measure (\<lambda>(env, client, system_prompt, include_thinking, model, n, st).
        Suc max_passes - n)") auto

declare native_passes.simps [simp del]

definition stream_claude_response_native ::
    "environment \<Rightarrow> native_client \<Rightarrow> string \<Rightarrow> json list \<Rightarrow> bool \<Rightarrow> Llm
      \<Rightarrow> outcome \<times> final_message loop_vars \<times> native_params world" where
  "stream_claude_response_native env client system_prompt msgs include_thinking model =
     (case native_passes env client system_prompt include_thinking model 1
             (\<lparr>messages = msgs, full_stream = [], response = None\<rparr>, empty_world) of
        (Some e, st) \<Rightarrow> (Raises e, st)
      | (None, v, w) \<Rightarrow>
          (let w' = (if IS_DEBUG_ENABLED env
                     then w\<lparr>files := files w @ [(''full_stream.txt'', full_stream v)]\<rparr>
                     else w)
           in case response v of
                None \<Rightarrow> (Raises (PlainException ''No HTML response found in AI response''), v, w')
              | Some r \<Rightarrow>
                  (case first_text r of
                     Inl e \<Rightarrow> (Raises e, v, w')
                   | Inr t \<Rightarrow> (Returns t, v, w'))))"

subsection \<open>Managed gateway\<close>

text \<open>The client's answer to the request of pass \<open>k\<close> of a run.\<close>

type_synonym gateway_client = "nat \<Rightarrow> invoke_params \<Rightarrow> error + bedrock_response"

text \<open>Lines 374 to 384: the text is appended to \<^verbatim>\<open>response_text\<close> first, which raises
  \<^verbatim>\<open>TypeError\<close> for anything but a string, then printed, appended to \<^verbatim>\<open>full_stream\<close> and
  given to the sink.\<close>

fun consume_pass_events ::
    "event list \<Rightarrow> string \<times> string \<times> 'q world \<Rightarrow> error option \<times> string \<times> string \<times> 'q world" where
  "consume_pass_events [] (response_text, fs, w) = (None, response_text, fs, w)"
| "consume_pass_events (ev # rest) (response_text, fs, w) =
     (case event_text ev of
        Inl e \<Rightarrow> (Some e, response_text, fs, w)
      | Inr None \<Rightarrow> consume_pass_events rest (response_text, fs, w)
      | Inr (Some (JStr t)) \<Rightarrow>
          consume_pass_events rest
            (response_text @ t, fs @ t,
             w\<lparr>stdout := stdout w @ [t], sink := sink w @ [JStr t]\<rparr>)
      | Inr (Some v) \<Rightarrow> (Some TypeError, response_text, fs, w))"

text \<open>The loop body, lines 342 to 394.\<close>

definition gateway_pass ::
    "environment \<Rightarrow> gateway_client \<Rightarrow> string \<Rightarrow> bool \<Rightarrow> nat
      \<Rightarrow> bedrock_response loop_vars \<times> invoke_params world
      \<Rightarrow> error option \<times> bedrock_response loop_vars \<times> invoke_params world" where
  "gateway_pass env client system_prompt include_thinking current_pass_num st =
     (let v = fst st; w = snd st;
          to_send = messages_to_send include_thinking (messages v);
          params = invoke_params (request_body to_send (JStr system_prompt));
          w1 = w\<lparr>stdout := stdout w @ pprint_prompt env to_send, sent := sent w @ [params]\<rparr>
      in (case client (current_pass_num - 1) params of
            Inl e \<Rightarrow> (Some e, v, w1)
          | Inr r \<Rightarrow>
              (let v1 = v\<lparr>response := Some r\<rparr>;
                   evs = (case get_body r of None \<Rightarrow> [] | Some stream \<Rightarrow> items stream);
                   ending = (case get_body r of None \<Rightarrow> None | Some stream \<Rightarrow> failure stream)
               in (case consume_pass_events evs ([], full_stream v1, w1) of
                     (Some e, response_text, fs, w2) \<Rightarrow> (Some e, v1\<lparr>full_stream := fs\<rparr>, w2)
                   | (None, response_text, fs, w2) \<Rightarrow>
                       (case ending of
                          Some e \<Rightarrow> (Some e, v1\<lparr>full_stream := fs\<rparr>, w2)
                        | None \<Rightarrow>
                            (None,
                             v1\<lparr>full_stream := fs,
                                messages := messages v1 @ next_pass_turns response_text\<rparr>,
                             w2))))))"

text \<open>\<^verbatim>\<open>while current_pass_num <= max_passes\<close>, line 341.\<close>

function gateway_passes ::
    "environment \<Rightarrow> gateway_client \<Rightarrow> string \<Rightarrow> bool \<Rightarrow> nat
      \<Rightarrow> bedrock_response loop_vars \<times> invoke_params world
      \<Rightarrow> error option \<times> bedrock_response loop_vars \<times> invoke_params world" where
  "gateway_passes env client system_prompt include_thinking current_pass_num st =
     (if current_pass_num \<le> max_passes
      then (case gateway_pass env client system_prompt include_thinking
                   (current_pass_num + 1) st of
              (Some e, st') \<Rightarrow> (Some e, st')
            | (None, st') \<Rightarrow>
                gateway_passes env client system_prompt include_thinking
                  (current_pass_num + 1) st')
      else (None, st))"
  by pat_completeness auto
termination
  by (relation "measure (\<lambda>(env, client, system_prompt, include_thinking, n, st).
        Suc max_passes - n)") auto

declare gateway_passes.simps [simp del]

text \<open>The \<^verbatim>\<open>try\<close> block, lines 315 to 403. The response dictionary is false in
  \<^verbatim>\<open>if not response\<close> when it is empty.\<close>

definition gateway_try ::
    "environment \<Rightarrow> gateway_client \<Rightarrow> string \<Rightarrow> json list \<Rightarrow> bool
      \<Rightarrow> (outcome \<times> invoke_params world) \<times> bedrock_response loop_vars" where
  "gateway_try env client system_prompt msgs include_thinking =
     (case gateway_passes env client system_prompt include_thinking 1
             (\<lparr>messages = msgs, full_stream = [], response = None\<rparr>, empty_world) of
        (Some e, v, w) \<Rightarrow> ((Raises e, w), v)
      | (None, v, w) \<Rightarrow>
          (case response v of
             None \<Rightarrow> ((Raises (PlainException ''No HTML response found in AI response''), w), v)
           | Some EmptyResponse \<Rightarrow>
               ((Raises (PlainException ''No HTML response found in AI response''), w), v)
           | Some (Response b) \<Rightarrow> ((Returns (full_stream v), w), v)))"

definition stream_claude_response_native_aws_bedrock ::
    "environment \<Rightarrow> gateway_client \<Rightarrow> string \<Rightarrow> json list \<Rightarrow> bool
      \<Rightarrow> (outcome \<times> invoke_params world) \<times> bedrock_response loop_vars" where
  "stream_claude_response_native_aws_bedrock env client system_prompt msgs include_thinking =
     (case gateway_try env client system_prompt msgs include_thinking of
        (r, v) \<Rightarrow> (handle_exceptions r, v))"

section \<open>Notions used to state the properties\<close>

text \<open>The full response text of a native-SDK pass: \<^verbatim>\<open>response.content[0].text\<close> of the
  final message the client gives for the request.\<close>

definition native_pass_text :: "native_client \<Rightarrow> nat \<Rightarrow> native_params \<Rightarrow> error + string" where
  "native_pass_text client k params =
     and_then (client k params) (\<lambda>stream. and_then (get_final_message stream) first_text)"

text \<open>The texts of the content deltas among the events of a response body, in order,
  and the full response text of a managed-gateway pass, which is their concatenation
  (\<^verbatim>\<open>response_text\<close>).\<close>

fun delta_texts :: "event list \<Rightarrow> string list" where
  "delta_texts [] = []"
| "delta_texts (ev # rest) =
     (case event_text ev of
        Inr (Some (JStr t)) \<Rightarrow> t # delta_texts rest
      | _ \<Rightarrow> delta_texts rest)"

definition response_events :: "bedrock_response \<Rightarrow> event list" where
  "response_events r = (case get_body r of None \<Rightarrow> [] | Some stream \<Rightarrow> items stream)"

definition gateway_pass_text :: "gateway_client \<Rightarrow> nat \<Rightarrow> invoke_params \<Rightarrow> error + string" where
  "gateway_pass_text client k params =
     and_then (client k params) (\<lambda>r. Inr (concat (delta_texts (response_events r))))"


text \<open>An event whose chunk decodes to an object of type \<^verbatim>\<open>content_block_delta\<close>.\<close>

definition content_delta :: "event \<Rightarrow> bool" where
  "content_delta ev =
     (case chunk ev of
        Some (Inr chunk_obj) \<Rightarrow> json_getitem chunk_obj ''type'' = Inr (JStr ''content_block_delta'')
      | _ \<Rightarrow> False)"

text \<open>
  A chunk of the direct-API stream bears a text when
  \<^verbatim>\<open>chunk.choices[0].delta.content or ""\<close> has a value, which is then \<open>chunk_text\<close>; the empty
  string is such a value. Neither an object of another class nor a chunk with no choices
  bears a text.
\<close>

definition text_bearing :: "stream_object \<Rightarrow> bool" where
  "text_bearing ch = (case chunk_content ch of Inl e \<Rightarrow> False | Inr c \<Rightarrow> True)"

definition chunk_text :: "stream_object \<Rightarrow> string" where
  "chunk_text ch = (case chunk_content ch of Inl e \<Rightarrow> [] | Inr c \<Rightarrow> c)"

text \<open>
  An event of a managed-gateway body bears a text when it is a content delta with a
  \<^verbatim>\<open>delta.text\<close>, which is then \<open>delta_value\<close>. The loop body of lines 197 to 205 raises on
  an event whose chunk cannot be decoded or lacks \<^verbatim>\<open>type\<close>, \<^verbatim>\<open>delta\<close> or \<^verbatim>\<open>text\<close>, and on a
  text that is not a string; \<open>handled\<close> are the events of a body up to and including the
  first on which it raises, the ones the loop gets to.
\<close>

definition text_event :: "event \<Rightarrow> bool" where
  "text_event ev = (case event_text ev of Inr (Some v) \<Rightarrow> True | _ \<Rightarrow> False)"

definition delta_value :: "event \<Rightarrow> json" where
  "delta_value ev = (case event_text ev of Inr (Some v) \<Rightarrow> v | _ \<Rightarrow> JNull)"

definition raises_on :: "event \<Rightarrow> bool" where
  "raises_on ev =
     (case event_text ev of
        Inl e \<Rightarrow> True
      | Inr None \<Rightarrow> False
      | Inr (Some (JStr t)) \<Rightarrow> False
      | Inr (Some v) \<Rightarrow> True)"

fun handled :: "event list \<Rightarrow> event list" where
  "handled [] = []"
| "handled (ev # rest) = (if raises_on ev then [ev] else ev # handled rest)"

text \<open>
  A well-formed data URL, \<^verbatim>\<open>data:<media-type>;base64,<payload>\<close>, as the spec's data
  model has it: the media type holds none of the delimiters and the base64 payload no
  comma.
\<close>

definition well_formed_data_url :: "string \<Rightarrow> string \<Rightarrow> string \<Rightarrow> bool" where
  "well_formed_data_url url media_type payload \<longleftrightarrow>
     url = ''data:'' @ media_type @ '';base64,'' @ payload
     \<and> CHR '';'' \<notin> set media_type \<and> CHR '':'' \<notin> set media_type
     \<and> CHR '','' \<notin> set media_type \<and> CHR '','' \<notin> set payload"

text \<open>An image part in the OpenAI shape: the dictionary at address \<open>a\<close> has the type
  \<^verbatim>\<open>image_url\<close>, and \<open>image_part_url\<close> when its \<^verbatim>\<open>image_url\<close> is a dictionary whose \<^verbatim>\<open>url\<close>
  is the string \<open>url\<close>. \<open>rewritten_part\<close>: the dictionary at \<open>a\<close> has the Claude shape, with
  the type \<^verbatim>\<open>image\<close>, no \<^verbatim>\<open>image_url\<close> and a \<^verbatim>\<open>source\<close>.\<close>

definition image_part :: "heap \<Rightarrow> nat \<Rightarrow> bool" where
  "image_part h a \<longleftrightarrow>
     (\<exists>d. heap_lookup h a = Some (PDict d) \<and> map_of d ''type'' = Some (PStr ''image_url''))"

definition image_part_url :: "heap \<Rightarrow> nat \<Rightarrow> string \<Rightarrow> bool" where
  "image_part_url h a url \<longleftrightarrow>
     (\<exists>d u du. heap_lookup h a = Some (PDict d)
        \<and> map_of d ''type'' = Some (PStr ''image_url'')
        \<and> map_of d ''image_url'' = Some (PRef u)
        \<and> heap_lookup h u = Some (PDict du)
        \<and> map_of du ''url'' = Some (PStr url))"

definition rewritten_part :: "heap \<Rightarrow> nat \<Rightarrow> bool" where
  "rewritten_part h a \<longleftrightarrow>
     (\<exists>d s. heap_lookup h a = Some (PDict d)
        \<and> map_of d ''type'' = Some (PStr ''image'')
        \<and> map_of d ''image_url'' = None
        \<and> map_of d ''source'' = Some (PRef s))"

text \<open>The dictionary of an image part after the rewriting, and the source dictionary.\<close>

definition claude_part :: "nat \<Rightarrow> (string \<times> pyval) list \<Rightarrow> (string \<times> pyval) list" where
  "claude_part s d =
     AList.update ''source'' (PRef s)
       (AList.delete ''image_url'' (AList.update ''type'' (PStr ''image'') d))"

definition source_dict :: "string \<Rightarrow> string \<Rightarrow> pyobj" where
  "source_dict media_type base64_data =
     PDict [(''type'', PStr ''base64''), (''media_type'', PStr media_type),
            (''data'', PStr base64_data)]"

text \<open>
  How the store can change while the content parts are rewritten: objects are added,
  lists stay as they are, a dictionary stays a dictionary and keeps its \<^verbatim>\<open>content\<close> and
  \<^verbatim>\<open>url\<close>, a rewritten part stays rewritten, and an image part stays one or
  becomes rewritten.
\<close>

definition evolves :: "heap \<Rightarrow> heap \<Rightarrow> bool" where
  "evolves h h' \<longleftrightarrow>
     length h \<le> length h'
     \<and> (\<forall>x xs. heap_lookup h x = Some (PList xs) \<longrightarrow> heap_lookup h' x = Some (PList xs))
     \<and> (\<forall>x d. heap_lookup h x = Some (PDict d) \<longrightarrow>
            (\<exists>d'. heap_lookup h' x = Some (PDict d')
                \<and> map_of d' ''content'' = map_of d ''content''
                \<and> map_of d' ''url'' = map_of d ''url''))
     \<and> (\<forall>x. rewritten_part h x \<longrightarrow> rewritten_part h' x)
     \<and> (\<forall>x. image_part h x \<longrightarrow> image_part h' x \<or> rewritten_part h' x)"

text \<open>The part at address \<open>a\<close> is in the Claude shape and its source is a base64 source
  with the given media type and data.\<close>

definition translated_part :: "heap \<Rightarrow> nat \<Rightarrow> string \<Rightarrow> string \<Rightarrow> bool" where
  "translated_part h a media_type payload \<longleftrightarrow>
     (\<exists>d s. heap_lookup h a = Some (PDict d)
        \<and> map_of d ''type'' = Some (PStr ''image'')
        \<and> map_of d ''image_url'' = None
        \<and> map_of d ''source'' = Some (PRef s)
        \<and> heap_lookup h s = Some (source_dict media_type payload))"

text \<open>The message at address \<open>m\<close> has a content list, at address \<open>l\<close>, with the
  elements \<open>parts\<close>.\<close>

definition content_list :: "heap \<Rightarrow> nat \<Rightarrow> nat \<Rightarrow> pyval list \<Rightarrow> bool" where
  "content_list h m l parts \<longleftrightarrow>
     (\<exists>d. heap_lookup h m = Some (PDict d) \<and> map_of d ''content'' = Some (PRef l))
     \<and> heap_lookup h l = Some (PList parts)"

text \<open>
  The turn \<open>c\<close> is a copy of the message \<open>m\<close>: a dictionary made during the call, which in
  the store \<open>h'\<close> after the call has the fields that the message had in the store \<open>h\<close>
  before it. The fields \<^verbatim>\<open>type\<close>, \<^verbatim>\<open>image_url\<close> and \<^verbatim>\<open>source\<close> are those that the rewriting of an
  image part assigns; \<^verbatim>\<open>role\<close> and \<^verbatim>\<open>content\<close> are not among them.
\<close>

definition copy_of :: "heap \<Rightarrow> heap \<Rightarrow> pyval \<Rightarrow> pyval \<Rightarrow> bool" where
  "copy_of h h' m c \<longleftrightarrow>
     (\<exists>am ac d d'. m = PRef am \<and> c = PRef ac \<and> length h \<le> ac
        \<and> heap_lookup h am = Some (PDict d) \<and> heap_lookup h' ac = Some (PDict d')
        \<and> (\<forall>k. k \<noteq> ''type'' \<and> k \<noteq> ''image_url'' \<and> k \<noteq> ''source'' \<longrightarrow>
               map_of d' k = map_of d k))"

text \<open>Every dictionary of the store \<open>h\<close> is still a dictionary in \<open>h'\<close>, with the same
  fields but for those that the rewriting of an image part assigns.\<close>

definition keeps_fields :: "heap \<Rightarrow> heap \<Rightarrow> bool" where
  "keeps_fields h h' \<longleftrightarrow>
     (\<forall>x d. heap_lookup h x = Some (PDict d) \<longrightarrow>
        (\<exists>d'. heap_lookup h' x = Some (PDict d')
           \<and> (\<forall>k. k \<noteq> ''type'' \<and> k \<noteq> ''image_url'' \<and> k \<noteq> ''source'' \<longrightarrow>
                  map_of d' k = map_of d k)))"

text \<open>Every message of the list is an object of the store.\<close>

definition in_store :: "heap \<Rightarrow> pyval list \<Rightarrow> bool" where
  "in_store h ms = list_all (\<lambda>m. case m of PRef a \<Rightarrow> a < length h | _ \<Rightarrow> False) ms"

text \<open>The exceptions that the translation of the messages can raise.\<close>

definition raised_by_translation :: "error \<Rightarrow> bool" where
  "raised_by_translation e \<longleftrightarrow>
     e = IndexError \<or> e = TypeError \<or> e = AttributeError \<or> e = IllTyped
     \<or> (\<exists>k. e = KeyError k)"

section \<open>Example inputs\<close>

text \<open>Collaborators with the debug flag off, and clients whose answer is the fixed text
  \<^verbatim>\<open>A\<close> for the first request of a run and \<^verbatim>\<open>B\<close> for any later one.\<close>

definition env_off :: environment where
  "env_off =
     \<lparr>IS_DEBUG_ENABLED = False, extract_html_content = (\<lambda>s. s), pprint_prompt = (\<lambda>ms. [])\<rparr>"

definition text_message :: "string \<Rightarrow> message_stream" where
  "text_message t =
     \<lparr>text_stream = \<lparr>items = [t], failure = None\<rparr>,
      get_final_message = Inr \<lparr>content = [TextBlock t], input_tokens = 0, output_tokens = 0\<rparr>\<rparr>"

definition native_client_AB :: native_client where
  "native_client_AB k params = Inr (text_message (if k = 1 then ''A'' else ''B''))"

definition delta_event :: "string \<Rightarrow> event" where
  "delta_event t =
     Event (Some (Inr (JObj [(''type'', JStr ''content_block_delta''),
                             (''delta'', JObj [(''type'', JStr ''text_delta''),
                                               (''text'', JStr t)])])))"

definition other_event :: "string \<Rightarrow> event" where
  "other_event ty = Event (Some (Inr (JObj [(''type'', JStr ty)])))"

definition gateway_client_AB :: gateway_client where
  "gateway_client_AB k params =
     Inr (Response (Some \<lparr>items = [other_event ''message_start'',
                                     delta_event (if k = 1 then ''A'' else ''B''),
                                     other_event ''message_stop''],
                            failure = None\<rparr>))"

text \<open>A store with a system message and a user message of plain text.\<close>

definition text_heap :: heap where
  "text_heap =
     [PDict [(''role'', PStr ''system''), (''content'', PStr ''You write HTML.'')],
      PDict [(''role'', PStr ''user''), (''content'', PStr ''A login page'')]]"

definition text_messages :: "pyval list" where
  "text_messages = [PRef 0, PRef 1]"

text \<open>A store with a system message and a user message whose content list holds an
  image part and a text part.\<close>

definition image_heap :: heap where
  "image_heap =
     [PDict [(''role'', PStr ''system''), (''content'', PStr ''You write HTML.'')],
      PDict [(''role'', PStr ''user''), (''content'', PRef 2)],
      PList [PRef 3, PRef 5],
      PDict [(''type'', PStr ''image_url''), (''image_url'', PRef 4)],
      PDict [(''url'', PStr ''data:image/png;base64,AAAA''), (''detail'', PStr ''high'')],
      PDict [(''type'', PStr ''text''), (''text'', PStr ''Build this'')]]"

definition image_messages :: "pyval list" where
  "image_messages = [PRef 0, PRef 1]"

text \<open>A client for the single-pass native-SDK call whose final message has two text
  blocks, the text stream giving the text of both.\<close>

definition two_block_client :: claude_client where
  "two_block_client params =
     Inr \<lparr>text_stream = \<lparr>items = [''Hello'', '' world''], failure = None\<rparr>,
          get_final_message =
            Inr \<lparr>content = [TextBlock ''Hello'', TextBlock '' world''],
                 input_tokens = 0, output_tokens = 0\<rparr>\<rparr>"

text \<open>A direct-API stream of three chunks, the second with no content and the third with
  the empty string.\<close>

definition chunks_client :: "'m openai_client" where
  "chunks_client params =
     Inr \<lparr>items = [ChatCompletionChunk [Choice (Some ''<html>'')],
                   ChatCompletionChunk [Choice None],
                   ChatCompletionChunk [Choice (Some [])]],
          failure = None\<rparr>"

text \<open>A managed-gateway response for the single-pass call: five events, two of them
  content deltas.\<close>

definition deltas_client :: bedrock_client where
  "deltas_client params =
     Inr (Response (Some \<lparr>items = [other_event ''message_start'', delta_event ''<ht'',
                                     Event None, delta_event ''ml>'',
                                     other_event ''message_stop''],
                            failure = None\<rparr>))"

text \<open>The same store with a data URL that has no comma.\<close>

definition no_comma_heap :: heap where
  "no_comma_heap =
     [PDict [(''role'', PStr ''system''), (''content'', PStr ''You write HTML.'')],
      PDict [(''role'', PStr ''user''), (''content'', PRef 2)],
      PList [PRef 3, PRef 5],
      PDict [(''type'', PStr ''image_url''), (''image_url'', PRef 4)],
      PDict [(''url'', PStr ''data:image/png;base64''), (''detail'', PStr ''high'')],
      PDict [(''type'', PStr ''text''), (''text'', PStr ''Build this'')]]"

text \<open>A direct-API stream of three chunks, the second with no choices.\<close>

definition no_choice_client :: "'m openai_client" where
  "no_choice_client params =
     Inr \<lparr>items = [ChatCompletionChunk [Choice (Some ''a'')],
                   ChatCompletionChunk [],
                   ChatCompletionChunk [Choice (Some ''b'')]],
          failure = None\<rparr>"

text \<open>A managed-gateway body whose second event is a content delta with no
  \<^verbatim>\<open>delta\<close>.\<close>

definition no_delta_client :: bedrock_client where
  "no_delta_client params =
     Inr (Response (Some \<lparr>items = [delta_event ''<ht'',
                                     other_event ''content_block_delta'',
                                     delta_event ''ml>''],
                            failure = None\<rparr>))"

text \<open>A multi-pass client whose answers hold no text: a body with no content delta, a
  final message whose first block is the empty text.\<close>

definition silent_gateway_client :: gateway_client where
  "silent_gateway_client k params =
     Inr (Response (Some \<lparr>items = [other_event ''message_start'',
                                     other_event ''message_stop''],
                            failure = None\<rparr>))"

definition silent_native_client :: native_client where
  "silent_native_client k params =
     Inr \<lparr>text_stream = \<lparr>items = [], failure = None\<rparr>,
          get_final_message =
            Inr \<lparr>content = [TextBlock []], input_tokens = 0, output_tokens = 0\<rparr>\<rparr>"

text \<open>Multi-pass clients that refuse the second request of a run.\<close>

definition native_client_A_then_error :: native_client where
  "native_client_A_then_error k params =
     (if k = 1 then Inr (text_message ''A'') else Inl (TransportError ''overloaded''))"

definition gateway_client_A_then_error :: gateway_client where
  "gateway_client_A_then_error k params =
     (if k = 1
      then Inr (Response (Some \<lparr>items = [delta_event ''A''], failure = None\<rparr>))
      else Inl (TransportError ''overloaded''))"

text \<open>A store with a system message and three turns of plain text.\<close>

definition dialogue_heap :: heap where
  "dialogue_heap =
     [PDict [(''role'', PStr ''system''), (''content'', PStr ''You write HTML.'')],
      PDict [(''role'', PStr ''user''), (''content'', PStr ''A login page'')],
      PDict [(''role'', PStr ''assistant''), (''content'', PStr ''<html></html>'')],
      PDict [(''role'', PStr ''user''), (''content'', PStr ''Add a title'')]]"

definition dialogue_messages :: "pyval list" where
  "dialogue_messages = [PRef 0, PRef 1, PRef 2, PRef 3]"

section \<open>The two passes\<close>

lemma stream_texts_eq:
  "stream_texts ts (fs, w) =
     (fs @ concat ts, w\<lparr>stdout := stdout w @ ts, sink := sink w @ map JStr ts\<rparr>)"
  by (induction ts arbitrary: fs w) simp_all

lemma native_passes_done:
  "max_passes < n \<Longrightarrow> native_passes env client sp it model n st = (None, st)"
  by (subst native_passes.simps) simp

lemma native_passes_step:
  "n \<le> max_passes \<Longrightarrow>
   native_passes env client sp it model n st =
     (case native_pass env client sp it model (Suc n) st of
        (Some e, st') \<Rightarrow> (Some e, st')
      | (None, st') \<Rightarrow> native_passes env client sp it model (Suc n) st')"
  by (subst native_passes.simps) (simp split: prod.splits option.splits)

lemma native_passes_twice:
  "native_passes env client sp it model (Suc 0) st =
     (case native_pass env client sp it model (Suc (Suc 0)) st of
        (Some e, st') \<Rightarrow> (Some e, st')
      | (None, st') \<Rightarrow> native_pass env client sp it model (Suc (Suc (Suc 0))) st')"
  by (simp add: native_passes_step native_passes_done max_passes_def
      split: prod.splits option.splits)

lemma native_pass_None:
  assumes "native_pass env client sp it model (Suc k) (v, w) = (None, v', w')"
  shows "\<exists>stream r t.
     client k (native_params model sp (messages_to_send it (messages v))) = Inr stream
     \<and> failure (text_stream stream) = None
     \<and> get_final_message stream = Inr r \<and> first_text r = Inr t
     \<and> messages v' = messages v @ next_pass_turns t
     \<and> response v' = Some r
     \<and> full_stream v' = full_stream v @ concat (items (text_stream stream))
     \<and> sink w' = sink w @ map JStr (items (text_stream stream))
     \<and> sent w' = sent w @ [native_params model sp (messages_to_send it (messages v))]"
  using assms
  by (auto simp: native_pass_def Let_def stream_texts_eq write_pass_files_def
      split: sum.splits option.splits if_splits)

lemma native_run_Returns:
  assumes "stream_claude_response_native env client sp msgs it model = (Returns t, v, w)"
  shows "\<exists>t1 t2.
           native_pass_text client 1 (native_params model sp (messages_to_send it msgs)) = Inr t1
         \<and> native_pass_text client 2
               (native_params model sp (messages_to_send it (msgs @ next_pass_turns t1))) = Inr t2
         \<and> t = t2
         \<and> messages v = msgs @ next_pass_turns t1 @ next_pass_turns t2
         \<and> sent w = [native_params model sp (messages_to_send it msgs),
                       native_params model sp (messages_to_send it (msgs @ next_pass_turns t1))]"
proof -
  let ?st0 = "(\<lparr>messages = msgs, full_stream = [], response = None\<rparr>, empty_world)
               :: final_message loop_vars \<times> native_params world"
  obtain v2 w2 where run: "native_passes env client sp it model (Suc 0) ?st0 = (None, v2, w2)"
    using assms by (auto simp: stream_claude_response_native_def split: prod.splits option.splits)
  obtain v1 w1 where
    p1: "native_pass env client sp it model (Suc (Suc 0)) ?st0 = (None, v1, w1)" and
    p2: "native_pass env client sp it model (Suc (Suc (Suc 0))) (v1, w1) = (None, v2, w2)"
    using run by (auto simp: native_passes_twice split: prod.splits option.splits)
  from native_pass_None [OF p1] obtain s1 r1 t1 where
    a: "client (Suc 0) (native_params model sp (messages_to_send it msgs)) = Inr s1"
       "get_final_message s1 = Inr r1" "first_text r1 = Inr t1"
       "messages v1 = msgs @ next_pass_turns t1"
       "sent w1 = [native_params model sp (messages_to_send it msgs)]"
    by (auto simp: empty_world_def)
  from native_pass_None [OF p2] obtain s2 r2 t2 where
    b: "client (Suc (Suc 0)) (native_params model sp (messages_to_send it (messages v1))) = Inr s2"
       "get_final_message s2 = Inr r2" "first_text r2 = Inr t2"
       "messages v2 = messages v1 @ next_pass_turns t2"
       "response v2 = Some r2"
       "sent w2 = sent w1 @ [native_params model sp (messages_to_send it (messages v1))]"
    by auto
  have fin: "t = t2 \<and> v = v2 \<and> sent w = sent w2"
    using assms run b(3,5)
    by (auto simp: stream_claude_response_native_def split: if_splits)
  have two: "(2::nat) = Suc (Suc 0)" by simp
  show ?thesis
    using a b fin by (auto simp: native_pass_text_def and_then_def two)
qed

lemma native_pass_toggle:
  assumes "\<forall>p p'. client k p = client k p'"
  shows "fst (native_pass env client sp True model (Suc k) (v, w))
           = fst (native_pass env client sp False model (Suc k) (v, w'))
       \<and> fst (snd (native_pass env client sp True model (Suc k) (v, w)))
           = fst (snd (native_pass env client sp False model (Suc k) (v, w')))"
proof -
  have same: "client k (native_params model sp (messages_to_send True (messages v)))
      = client k (native_params model sp (messages_to_send False (messages v)))"
    using assms by blast
  show ?thesis
    by (simp add: native_pass_def Let_def stream_texts_eq same
        split: sum.splits option.splits)
qed

lemma native_toggle:
  assumes "\<forall>k p p'. client k p = client k p'"
  shows "fst (stream_claude_response_native env client sp msgs True model)
           = fst (stream_claude_response_native env client sp msgs False model)
       \<and> fst (snd (stream_claude_response_native env client sp msgs True model))
           = fst (snd (stream_claude_response_native env client sp msgs False model))"
proof -
  let ?st0 = "(\<lparr>messages = msgs, full_stream = [], response = None\<rparr>, empty_world)
               :: final_message loop_vars \<times> native_params world"
  obtain e1 v1 w1 where on1:
    "native_pass env client sp True model (Suc (Suc 0)) ?st0 = (e1, v1, w1)"
    by (metis prod_cases3)
  obtain e1' v1' w1' where off1:
    "native_pass env client sp False model (Suc (Suc 0)) ?st0 = (e1', v1', w1')"
    by (metis prod_cases3)
  have s1: "e1' = e1 \<and> v1' = v1"
    using native_pass_toggle [of client "Suc 0" env sp model _ empty_world empty_world] assms on1 off1
    by (metis fst_conv snd_conv)
  obtain e2 v2 w2 where on2:
    "native_pass env client sp True model (Suc (Suc (Suc 0))) (v1, w1) = (e2, v2, w2)"
    by (metis prod_cases3)
  obtain e2' v2' w2' where off2:
    "native_pass env client sp False model (Suc (Suc (Suc 0))) (v1, w1') = (e2', v2', w2')"
    by (metis prod_cases3)
  have s2: "e2' = e2 \<and> v2' = v2"
    using native_pass_toggle [of client "Suc (Suc 0)" env sp model v1 w1 w1'] assms on2 off2
    by (metis fst_conv snd_conv)
  show ?thesis
    using on1 off1 s1 on2 off2 s2
    by (cases e1; cases e2)
       (simp_all add: stream_claude_response_native_def native_passes_twice
          split: option.splits sum.splits)
qed

lemma consume_pass_events_None:
  "consume_pass_events evs (rt, fs, w) = (None, rt', fs', w') \<Longrightarrow>
     rt' = rt @ concat (delta_texts evs) \<and> fs' = fs @ concat (delta_texts evs)
     \<and> sink w' = sink w @ map JStr (delta_texts evs) \<and> sent w' = sent w"
proof (induction evs arbitrary: rt fs w)
  case Nil
  then show ?case by simp
next
  case (Cons ev evs)
  from Cons.prems show ?case
    by (auto split: sum.splits option.splits json.splits dest!: Cons.IH)
qed

lemma handle_exceptions_Returns:
  "handle_exceptions r = (Returns t, w) \<Longrightarrow> r = (Returns t, w)"
  by (cases r rule: handle_exceptions.cases) auto

lemma consume_pass_events_vars:
  "fst (consume_pass_events evs (rt, fs, w)) = fst (consume_pass_events evs (rt, fs, w'))
   \<and> fst (snd (consume_pass_events evs (rt, fs, w))) = fst (snd (consume_pass_events evs (rt, fs, w')))
   \<and> fst (snd (snd (consume_pass_events evs (rt, fs, w)))) = fst (snd (snd (consume_pass_events evs (rt, fs, w'))))"
proof (induction evs arbitrary: rt fs w w')
  case Nil
  then show ?case by simp
next
  case (Cons ev evs)
  show ?case
    by (simp split: sum.splits option.splits json.splits) (use Cons.IH in blast)
qed

lemma gateway_passes_done:
  "max_passes < n \<Longrightarrow> gateway_passes env client sp it n st = (None, st)"
  by (subst gateway_passes.simps) simp

lemma gateway_passes_step:
  "n \<le> max_passes \<Longrightarrow>
   gateway_passes env client sp it n st =
     (case gateway_pass env client sp it (Suc n) st of
        (Some e, st') \<Rightarrow> (Some e, st')
      | (None, st') \<Rightarrow> gateway_passes env client sp it (Suc n) st')"
  by (subst gateway_passes.simps) (simp split: prod.splits option.splits)

lemma gateway_passes_twice:
  "gateway_passes env client sp it (Suc 0) st =
     (case gateway_pass env client sp it (Suc (Suc 0)) st of
        (Some e, st') \<Rightarrow> (Some e, st')
      | (None, st') \<Rightarrow> gateway_pass env client sp it (Suc (Suc (Suc 0))) st')"
  by (simp add: gateway_passes_step gateway_passes_done max_passes_def
      split: prod.splits option.splits)

lemma gateway_pass_None:
  assumes "gateway_pass env client sp it (Suc k) (v, w) = (None, v', w')"
  shows "\<exists>r.
     client k (invoke_params (request_body (messages_to_send it (messages v)) (JStr sp))) = Inr r
     \<and> messages v' = messages v @ next_pass_turns (concat (delta_texts (response_events r)))
     \<and> response v' = Some r
     \<and> full_stream v' = full_stream v @ concat (delta_texts (response_events r))
     \<and> sink w' = sink w @ map JStr (delta_texts (response_events r))
     \<and> sent w' = sent w @ [invoke_params (request_body (messages_to_send it (messages v)) (JStr sp))]"
  using assms
  by (auto simp: gateway_pass_def Let_def response_events_def
      split: sum.splits option.splits prod.splits dest!: consume_pass_events_None)

lemma gateway_run_Returns:
  assumes "stream_claude_response_native_aws_bedrock env client sp msgs it = ((Returns t, w), v)"
  shows "\<exists>t1 t2.
           gateway_pass_text client 1
             (invoke_params (request_body (messages_to_send it msgs) (JStr sp))) = Inr t1
         \<and> gateway_pass_text client 2
             (invoke_params (request_body (messages_to_send it (msgs @ next_pass_turns t1)) (JStr sp)))
               = Inr t2
         \<and> t = t1 @ t2
         \<and> messages v = msgs @ next_pass_turns t1 @ next_pass_turns t2
         \<and> sent w = [invoke_params (request_body (messages_to_send it msgs) (JStr sp)),
                       invoke_params (request_body (messages_to_send it (msgs @ next_pass_turns t1)) (JStr sp))]"
proof -
  let ?st0 = "(\<lparr>messages = msgs, full_stream = [], response = None\<rparr>, empty_world)
               :: bedrock_response loop_vars \<times> invoke_params world"
  have tr: "gateway_try env client sp msgs it = ((Returns t, w), v)"
    using assms
    by (auto simp: stream_claude_response_native_aws_bedrock_def split: prod.splits
        dest: handle_exceptions_Returns)
  obtain v2 w2 where run: "gateway_passes env client sp it (Suc 0) ?st0 = (None, v2, w2)"
    using tr by (auto simp: gateway_try_def split: prod.splits option.splits)
  obtain v1 w1 where
    p1: "gateway_pass env client sp it (Suc (Suc 0)) ?st0 = (None, v1, w1)" and
    p2: "gateway_pass env client sp it (Suc (Suc (Suc 0))) (v1, w1) = (None, v2, w2)"
    using run by (auto simp: gateway_passes_twice split: prod.splits option.splits)
  from gateway_pass_None [OF p1] obtain r1 where
    a: "client (Suc 0) (invoke_params (request_body (messages_to_send it msgs) (JStr sp))) = Inr r1"
       "messages v1 = msgs @ next_pass_turns (concat (delta_texts (response_events r1)))"
       "full_stream v1 = concat (delta_texts (response_events r1))"
       "sent w1 = [invoke_params (request_body (messages_to_send it msgs) (JStr sp))]"
    by (auto simp: empty_world_def)
  from gateway_pass_None [OF p2] obtain r2 where
    b: "client (Suc (Suc 0))
          (invoke_params (request_body (messages_to_send it (messages v1)) (JStr sp))) = Inr r2"
       "messages v2 = messages v1 @ next_pass_turns (concat (delta_texts (response_events r2)))"
       "full_stream v2 = full_stream v1 @ concat (delta_texts (response_events r2))"
       "sent w2 = sent w1 @ [invoke_params (request_body (messages_to_send it (messages v1)) (JStr sp))]"
    by auto
  have fin: "t = full_stream v2 \<and> v = v2 \<and> w = w2"
    using tr run
    by (auto simp: gateway_try_def split: option.splits bedrock_response.splits)
  have two: "(2::nat) = Suc (Suc 0)" by simp
  show ?thesis
    using a b fin by (auto simp: gateway_pass_text_def and_then_def two)
qed

lemma gateway_pass_toggle:
  assumes "\<forall>p p'. client k p = client k p'"
  shows "fst (gateway_pass env client sp True (Suc k) (v, w))
           = fst (gateway_pass env client sp False (Suc k) (v, w'))
       \<and> fst (snd (gateway_pass env client sp True (Suc k) (v, w)))
           = fst (snd (gateway_pass env client sp False (Suc k) (v, w')))"
proof -
  have same: "client k (invoke_params (request_body (messages_to_send True (messages v)) (JStr sp)))
      = client k (invoke_params (request_body (messages_to_send False (messages v)) (JStr sp)))"
    using assms by blast
  let ?pT = "invoke_params (request_body (messages_to_send True (messages v)) (JStr sp))"
  let ?pF = "invoke_params (request_body (messages_to_send False (messages v)) (JStr sp))"
  show ?thesis
  proof (cases "client k ?pF")
    case (Inl e)
    then show ?thesis using same by (simp add: gateway_pass_def Let_def)
  next
    case (Inr r)
    let ?w1 = "w\<lparr>stdout := stdout w @ pprint_prompt env (messages_to_send True (messages v)),
                  sent := sent w @ [?pT]\<rparr>"
    let ?w1' = "w'\<lparr>stdout := stdout w' @ pprint_prompt env (messages_to_send False (messages v)),
                  sent := sent w' @ [?pF]\<rparr>"
    obtain eo rt fs w2 where c1:
      "consume_pass_events (response_events r) ([], full_stream v, ?w1) = (eo, rt, fs, w2)"
      by (metis prod_cases4)
    obtain eo' rt' fs' w2' where c2:
      "consume_pass_events (response_events r) ([], full_stream v, ?w1') = (eo', rt', fs', w2')"
      by (metis prod_cases4)
    have eq: "eo' = eo \<and> rt' = rt \<and> fs' = fs"
      using consume_pass_events_vars [of "response_events r" "[]" "full_stream v" ?w1 ?w1'] c1 c2
      by simp
    from Inr same have T: "client k ?pT = Inr r" by simp
    show ?thesis
      using c1 c2 eq Inr T
      by (cases eo) (simp_all add: gateway_pass_def Let_def response_events_def split: option.splits)
  qed
qed

lemma gateway_toggle:
  assumes "\<forall>k p p'. client k p = client k p'"
  shows "fst (fst (stream_claude_response_native_aws_bedrock env client sp msgs True))
           = fst (fst (stream_claude_response_native_aws_bedrock env client sp msgs False))
       \<and> snd (stream_claude_response_native_aws_bedrock env client sp msgs True)
           = snd (stream_claude_response_native_aws_bedrock env client sp msgs False)"
proof -
  let ?st0 = "(\<lparr>messages = msgs, full_stream = [], response = None\<rparr>, empty_world)
               :: bedrock_response loop_vars \<times> invoke_params world"
  obtain e1 v1 w1 where on1:
    "gateway_pass env client sp True (Suc (Suc 0)) ?st0 = (e1, v1, w1)"
    by (metis prod_cases3)
  obtain e1' v1' w1' where off1:
    "gateway_pass env client sp False (Suc (Suc 0)) ?st0 = (e1', v1', w1')"
    by (metis prod_cases3)
  have s1: "e1' = e1 \<and> v1' = v1"
    using gateway_pass_toggle [of client "Suc 0" env sp _ empty_world empty_world] assms on1 off1
    by (metis fst_conv snd_conv)
  obtain e2 v2 w2 where on2:
    "gateway_pass env client sp True (Suc (Suc (Suc 0))) (v1, w1) = (e2, v2, w2)"
    by (metis prod_cases3)
  obtain e2' v2' w2' where off2:
    "gateway_pass env client sp False (Suc (Suc (Suc 0))) (v1, w1') = (e2', v2', w2')"
    by (metis prod_cases3)
  have s2: "e2' = e2 \<and> v2' = v2"
    using gateway_pass_toggle [of client "Suc (Suc 0)" env sp v1 w1 w1'] assms on2 off2
    by (metis fst_conv snd_conv)
  have fst_handle: "fst (handle_exceptions (r, w)) = fst (handle_exceptions (r, w'))"
    for r and w w' :: "invoke_params world"
    by (cases "(r, w)" rule: handle_exceptions.cases) auto
  have try_eq: "fst (fst (gateway_try env client sp msgs True))
                 = fst (fst (gateway_try env client sp msgs False))
             \<and> snd (gateway_try env client sp msgs True) = snd (gateway_try env client sp msgs False)"
    using on1 off1 s1 on2 off2 s2
    by (cases e1; cases e2)
       (simp_all add: gateway_try_def gateway_passes_twice
          split: option.splits bedrock_response.splits)
  obtain r w v where on: "gateway_try env client sp msgs True = ((r, w), v)"
    by (cases "gateway_try env client sp msgs True") auto
  obtain r' w' v' where off: "gateway_try env client sp msgs False = ((r', w'), v')"
    by (cases "gateway_try env client sp msgs False") auto
  from try_eq on off have "r' = r" "v' = v" by simp_all
  then show ?thesis
    using on off fst_handle [of r w w']
    by (simp add: stream_claude_response_native_aws_bedrock_def)
qed

section \<open>The example runs\<close>

lemma native_AB_run:
  "fst (stream_claude_response_native env_off native_client_AB sp msgs it model) = Returns ''B''
   \<and> fst (snd (stream_claude_response_native env_off native_client_AB sp msgs it model)) =
      \<lparr>messages = msgs @ next_pass_turns ''A'' @ next_pass_turns ''B'',
       full_stream = ''AB'',
       response = Some \<lparr>content = [TextBlock ''B''], input_tokens = 0, output_tokens = 0\<rparr>\<rparr>"
  by (simp add: stream_claude_response_native_def native_passes_twice native_pass_def Let_def
      native_client_AB_def text_message_def env_off_def write_pass_files_def first_text_def
      stream_texts_eq)

lemma event_text_delta: "event_text (delta_event t) = Inr (Some (JStr t))"
  by (simp add: event_text_def delta_event_def json_getitem_def and_then_def)

lemma event_text_other:
  "ty \<noteq> ''content_block_delta'' \<Longrightarrow> event_text (other_event ty) = Inr None"
  by (simp add: event_text_def other_event_def json_getitem_def)

lemma gateway_AB_run:
  "fst (fst (stream_claude_response_native_aws_bedrock env_off gateway_client_AB sp msgs it))
     = Returns ''AB''
   \<and> snd (stream_claude_response_native_aws_bedrock env_off gateway_client_AB sp msgs it) =
      \<lparr>messages = msgs @ next_pass_turns ''A'' @ next_pass_turns ''B'',
       full_stream = ''AB'',
       response = Some (Response (Some \<lparr>items = [other_event ''message_start'',
                                     delta_event ''B'',
                                     other_event ''message_stop''],
                            failure = None\<rparr>))\<rparr>"
  by (simp add: stream_claude_response_native_aws_bedrock_def gateway_try_def
      gateway_passes_twice gateway_pass_def Let_def
      gateway_client_AB_def env_off_def event_text_delta event_text_other)

lemma translate_text_messages:
  "translate_messages text_heap text_messages =
     (Inr (PStr ''You write HTML.'', [PRef 2]),
      text_heap @ [PDict [(''role'', PStr ''user''), (''content'', PStr ''A login page'')]])"
  by (simp add: translate_messages_def first_content_def text_heap_def text_messages_def
      heap_lookup_def heap_alloc_def getitem_def as_list_def)

lemma dumps_text_request:
  "dumps_request
     (text_heap @ [PDict [(''role'', PStr ''user''), (''content'', PStr ''A login page'')]])
     [PRef 2] (PStr ''You write HTML.'') =
   Inr (request_body [JObj [(''role'', JStr ''user''), (''content'', JStr ''A login page'')]]
          (JStr ''You write HTML.''))"
  by (simp add: dumps_request_def dumps_def text_heap_def heap_lookup_def and_then_def)

lemma gateway_pass_refused:
  "gateway_pass env (\<lambda>k params. Inl e) sp it n (v, w) =
     (Some e, v,
      w\<lparr>stdout := stdout w @ pprint_prompt env (messages_to_send it (messages v)),
        sent := sent w @
          [invoke_params (request_body (messages_to_send it (messages v)) (JStr sp))]\<rparr>)"
  by (simp add: gateway_pass_def Let_def)

lemma gateway_try_refused:
  "gateway_try env (\<lambda>k params. Inl e) sp msgs it =
     ((Raises e,
       empty_world\<lparr>stdout := pprint_prompt env (messages_to_send it msgs),
         sent := [invoke_params (request_body (messages_to_send it msgs) (JStr sp))]\<rparr>),
      \<lparr>messages = msgs, full_stream = [], response = None\<rparr>)"
  by (simp add: gateway_try_def gateway_passes_twice gateway_pass_refused empty_world_def)

lemma native_pass_text_AB:
  "native_pass_text native_client_AB k params = Inr (if k = 1 then ''A'' else ''B'')"
  by (simp add: native_pass_text_def native_client_AB_def text_message_def and_then_def
      first_text_def)

lemma gateway_pass_text_AB:
  "gateway_pass_text gateway_client_AB k params = Inr (if k = 1 then ''A'' else ''B'')"
  by (simp add: gateway_pass_text_def gateway_client_AB_def and_then_def response_events_def
      event_text_delta event_text_other)

lemma event_text_no_chunk: "event_text (Event None) = Inr None"
  by (simp add: event_text_def)

lemma two_block_run:
  "fst (stream_claude_response two_block_client text_heap text_messages) =
     (Returns ''Hello'',
      \<lparr>sink = [JStr ''Hello'', JStr '' world''], stdout = [], files = [],
       sent = [claude_params (PStr ''You write HTML.'') [PRef 2]
                 (text_heap @ [PDict [(''role'', PStr ''user''),
                                      (''content'', PStr ''A login page'')]])]\<rparr>)"
  by (simp add: stream_claude_response_def translate_text_messages Let_def two_block_client_def
      empty_world_def and_then_def first_text_def)

lemma chunks_run:
  "stream_openai_response chunks_client msgs model =
     (Returns ''<html>'',
      \<lparr>sink = [JStr ''<html>'', JStr [], JStr []], stdout = [], files = [],
       sent = [openai_params msgs model]\<rparr>)"
  by (simp add: stream_openai_response_def Let_def chunks_client_def chunk_content_def
      empty_world_def)

lemma deltas_run:
  "fst (stream_claude_response_aws_bedrock deltas_client text_heap text_messages) =
     (Returns ''<html>'',
      \<lparr>sink = [JStr ''<ht'', JStr ''ml>''], stdout = [], files = [],
       sent = [invoke_params
                 (request_body
                    [JObj [(''role'', JStr ''user''), (''content'', JStr ''A login page'')]]
                    (JStr ''You write HTML.''))]\<rparr>)"
  by (simp add: stream_claude_response_aws_bedrock_def bedrock_try_def translate_text_messages
      dumps_text_request deltas_client_def empty_world_def event_text_delta event_text_other
      event_text_no_chunk Let_def)

section \<open>The streaming loops\<close>

lemma deliver_texts_eq: "deliver_texts ts sk = sk @ map JStr ts"
  by (induction ts arbitrary: sk) simp_all

lemma consume_chunks_None:
  "consume_chunks cs (full, sk) = (None, full', sk') \<Longrightarrow>
     \<exists>incs. map chunk_content cs = map Inr incs
          \<and> full' = full @ concat incs \<and> sk' = sk @ map JStr incs"
proof (induction cs arbitrary: full sk)
  case Nil
  then show ?case by simp
next
  case (Cons c cs)
  then obtain s where s: "chunk_content c = Inr s"
    and rest: "consume_chunks cs (full @ s, sk @ [JStr s]) = (None, full', sk')"
    by (auto split: sum.splits)
  from Cons.IH [OF rest] obtain incs where
    "map chunk_content cs = map Inr incs" "full' = (full @ s) @ concat incs"
    "sk' = (sk @ [JStr s]) @ map JStr incs"
    by blast
  with s have "map chunk_content (c # cs) = map Inr (s # incs)
      \<and> full' = full @ concat (s # incs) \<and> sk' = sk @ map JStr (s # incs)"
    by simp
  then show ?case by blast
qed

lemma event_text_cases:
  "event_text ev = Inr None \<Longrightarrow> \<not> content_delta ev"
  "event_text ev = Inr (Some v) \<Longrightarrow> content_delta ev"
  by (auto simp: event_text_def content_delta_def and_then_def
      split: option.splits sum.splits if_splits)

lemma consume_events_None:
  "consume_events evs (fm, sk) = (None, fm', sk') \<Longrightarrow>
     fm' = fm @ concat (delta_texts evs) \<and> sk' = sk @ map JStr (delta_texts evs)
     \<and> length (delta_texts evs) = length (filter content_delta evs)"
proof (induction evs arbitrary: fm sk)
  case Nil
  then show ?case by simp
next
  case (Cons ev evs)
  from Cons.prems show ?case
    by (auto split: sum.splits option.splits json.splits
        dest!: Cons.IH simp: event_text_cases)
qed

lemma handle_exceptions_Returns_iff:
  "handle_exceptions r = (Returns t, w) \<longleftrightarrow> r = (Returns t, w)"
  by (cases r rule: handle_exceptions.cases) auto

lemma openai_Returns:
  assumes "stream_openai_response client msgs model = (Returns t, w)"
  shows "\<exists>stream incs. client (openai_params msgs model) = Inr stream
           \<and> failure stream = None
           \<and> map chunk_content (items stream) = map Inr incs
           \<and> sink w = map JStr incs \<and> t = concat incs
           \<and> sent w = [openai_params msgs model]"
  using assms
  by (auto simp: stream_openai_response_def Let_def empty_world_def
      split: sum.splits prod.splits option.splits dest!: consume_chunks_None)

lemma bedrock_Returns:
  assumes "stream_claude_response_aws_bedrock client h ms = ((Returns t, w), h')"
  shows "\<exists>system_prompt claude_messages body r.
            translate_messages h ms = (Inr (system_prompt, claude_messages), h')
          \<and> dumps_request h' claude_messages system_prompt = Inr body
          \<and> sent w = [invoke_params body]
          \<and> client (invoke_params body) = Inr r
          \<and> sink w = map JStr (delta_texts (response_events r))
          \<and> t = concat (delta_texts (response_events r))
          \<and> length (sink w) = length (filter content_delta (response_events r))"
proof -
  from assms have tr: "bedrock_try client h ms = ((Returns t, w), h')"
    by (auto simp: stream_claude_response_aws_bedrock_def handle_exceptions_Returns_iff
        split: prod.splits)
  then show ?thesis
    by (auto simp: bedrock_try_def Let_def empty_world_def response_events_def
        split: sum.splits prod.splits option.splits dest!: consume_events_None)
qed

lemma claude_Returns:
  assumes "stream_claude_response client h ms = ((Returns t, w), h')"
  shows "\<exists>system_prompt claude_messages stream r.
            translate_messages h ms = (Inr (system_prompt, claude_messages), h')
          \<and> sent w = [claude_params system_prompt claude_messages h']
          \<and> client (claude_params system_prompt claude_messages h') = Inr stream
          \<and> failure (text_stream stream) = None
          \<and> sink w = map JStr (items (text_stream stream))
          \<and> get_final_message stream = Inr r \<and> first_text r = Inr t"
  using assms
  by (auto simp: stream_claude_response_def Let_def empty_world_def deliver_texts_eq
      and_then_def split: sum.splits prod.splits option.splits)

section \<open>The sink calls of a call that raises\<close>

lemma consume_chunks_sink:
  "snd (snd (consume_chunks cs (full, sk)))
     = sk @ map (\<lambda>ch. JStr (chunk_text ch)) (takeWhile text_bearing cs)"
proof (induction cs arbitrary: full sk)
  case Nil
  then show ?case by simp
next
  case (Cons c cs)
  show ?case
  proof (cases "chunk_content c")
    case (Inl e)
    then show ?thesis by (simp add: text_bearing_def)
  next
    case (Inr s)
    then show ?thesis
      using Cons.IH [of "full @ s" "sk @ [JStr s]"]
      by (simp add: text_bearing_def chunk_text_def)
  qed
qed

lemma consume_chunks_outcome:
  "fst (consume_chunks cs (full, sk)) = None \<longleftrightarrow> list_all text_bearing cs"
proof (induction cs arbitrary: full sk)
  case Nil
  then show ?case by simp
next
  case (Cons c cs)
  show ?case
  proof (cases "chunk_content c")
    case (Inl e)
    then show ?thesis by (simp add: text_bearing_def)
  next
    case (Inr s)
    then show ?thesis
      using Cons.IH [of "full @ s" "sk @ [JStr s]"]
      by (simp add: text_bearing_def)
  qed
qed

lemma openai_sink:
  "sink (snd (stream_openai_response client msgs model)) =
     (case client (openai_params msgs model) of
        Inl e \<Rightarrow> []
      | Inr stream \<Rightarrow>
          map (\<lambda>ch. JStr (chunk_text ch)) (takeWhile text_bearing (items stream)))"
proof (cases "client (openai_params msgs model)")
  case (Inl e)
  then show ?thesis
    by (simp add: stream_openai_response_def Let_def empty_world_def)
next
  case (Inr stream)
  obtain eo full sk where c: "consume_chunks (items stream) ([], []) = (eo, full, sk)"
    by (metis prod_cases3)
  from consume_chunks_sink [of "items stream" "[]" "[]"] c
  have "sk = map (\<lambda>ch. JStr (chunk_text ch)) (takeWhile text_bearing (items stream))"
    by simp
  with Inr c show ?thesis
    by (simp add: stream_openai_response_def Let_def empty_world_def split: option.splits)
qed

lemma sink_handle_exceptions: "sink (snd (handle_exceptions r)) = sink (snd r)"
  by (cases r rule: handle_exceptions.cases) simp_all

lemma consume_events_sink:
  "snd (snd (consume_events evs (fm, sk)))
     = sk @ map delta_value (filter text_event (handled evs))"
proof (induction evs arbitrary: fm sk)
  case Nil
  then show ?case by simp
next
  case (Cons ev evs)
  show ?case
  proof (cases "event_text ev")
    case (Inl e)
    then show ?thesis by (simp add: raises_on_def text_event_def)
  next
    case (Inr o1)
    show ?thesis
    proof (cases o1)
      case None
      with Inr show ?thesis
        using Cons.IH [of fm sk] by (simp add: raises_on_def text_event_def)
    next
      case (Some v)
      show ?thesis
      proof (cases "\<exists>t. v = JStr t")
        case True
        then obtain t where "v = JStr t" by blast
        with Inr Some show ?thesis
          using Cons.IH [of "fm @ t" "sk @ [JStr t]"]
          by (simp add: raises_on_def text_event_def delta_value_def)
      next
        case False
        with Inr Some show ?thesis
          by (cases v) (simp_all add: raises_on_def text_event_def delta_value_def)
      qed
    qed
  qed
qed

lemma consume_events_handled:
  "consume_events evs (fm, sk) = (None, fm', sk') \<Longrightarrow> handled evs = evs"
proof (induction evs arbitrary: fm sk)
  case Nil
  then show ?case by simp
next
  case (Cons ev evs)
  from Cons.prems show ?case
    by (auto simp: raises_on_def split: sum.splits option.splits json.splits dest: Cons.IH)
qed

lemma bedrock_sink:
  "sink (snd (fst (stream_claude_response_aws_bedrock gclient h ms))) =
     (case translate_messages h ms of
        (Inl e, h') \<Rightarrow> []
      | (Inr (system_prompt, claude_messages), h') \<Rightarrow>
          (case dumps_request h' claude_messages system_prompt of
             Inl e \<Rightarrow> []
           | Inr body \<Rightarrow>
               (case gclient (invoke_params body) of
                  Inl e \<Rightarrow> []
                | Inr r \<Rightarrow> map delta_value (filter text_event (handled (response_events r))))))"
proof -
  have run: "sink (snd (fst (stream_claude_response_aws_bedrock gclient h ms)))
      = sink (snd (fst (bedrock_try gclient h ms)))"
    by (simp add: stream_claude_response_aws_bedrock_def sink_handle_exceptions
        split: prod.splits)
  obtain res h' where tr: "translate_messages h ms = (res, h')"
    by (cases "translate_messages h ms") auto
  show ?thesis
  proof (cases res)
    case (Inl e)
    with tr show ?thesis
      unfolding run by (simp add: bedrock_try_def empty_world_def)
  next
    case (Inr p)
    obtain system_prompt claude_messages where p: "p = (system_prompt, claude_messages)"
      by (cases p) auto
    show ?thesis
    proof (cases "dumps_request h' claude_messages system_prompt")
      case (Inl e)
      with tr Inr p show ?thesis
        unfolding run by (simp add: bedrock_try_def empty_world_def)
    next
      case body: (Inr body)
      show ?thesis
      proof (cases "gclient (invoke_params body)")
        case (Inl e)
        with tr Inr p body show ?thesis
          unfolding run by (simp add: bedrock_try_def empty_world_def)
      next
        case r: (Inr r)
        show ?thesis
        proof (cases "get_body r")
          case None
          with tr Inr p body r show ?thesis
            unfolding run by (simp add: bedrock_try_def empty_world_def response_events_def)
        next
          case (Some stream)
          obtain eo fm sk where c: "consume_events (items stream) ([], []) = (eo, fm, sk)"
            by (metis prod_cases3)
          from consume_events_sink [of "items stream" "[]" "[]"] c
          have sk: "sk = map delta_value (filter text_event (handled (items stream)))"
            by simp
          from tr Inr p body r Some c sk show ?thesis
            unfolding run
            by (cases eo; cases "failure stream")
               (simp_all add: bedrock_try_def empty_world_def response_events_def)
        qed
      qed
    qed
  qed
qed

lemma claude_sink:
  "sink (snd (fst (stream_claude_response cclient h ms))) =
     (case translate_messages h ms of
        (Inl e, h') \<Rightarrow> []
      | (Inr (system_prompt, claude_messages), h') \<Rightarrow>
          (case cclient (claude_params system_prompt claude_messages h') of
             Inl e \<Rightarrow> []
           | Inr stream \<Rightarrow> map JStr (items (text_stream stream))))"
  by (simp add: stream_claude_response_def Let_def empty_world_def deliver_texts_eq
      split: prod.splits sum.splits option.splits)

lemma text_event_content_delta:
  "filter text_event evs = filter text_event (filter content_delta evs)"
proof -
  have "text_event ev \<Longrightarrow> content_delta ev" for ev
    by (auto simp: text_event_def split: sum.splits option.splits dest: event_text_cases(2))
  then show ?thesis
    by (induction evs) auto
qed

lemma no_choice_run:
  "stream_openai_response no_choice_client msgs model =
     (Raises IndexError,
      \<lparr>sink = [JStr ''a''], stdout = [], files = [], sent = [openai_params msgs model]\<rparr>)"
  by (simp add: stream_openai_response_def Let_def no_choice_client_def chunk_content_def
      empty_world_def)

lemma event_text_no_delta:
  "event_text (other_event ''content_block_delta'') = Inl (KeyError ''delta'')"
  by (simp add: event_text_def other_event_def json_getitem_def and_then_def)

lemma no_delta_run:
  "fst (stream_claude_response_aws_bedrock no_delta_client text_heap text_messages) =
     (Raises (KeyError ''delta''),
      \<lparr>sink = [JStr ''<ht''], stdout = [''An error occurred!''], files = [],
       sent = [invoke_params
                 (request_body
                    [JObj [(''role'', JStr ''user''), (''content'', JStr ''A login page'')]]
                    (JStr ''You write HTML.''))]\<rparr>)"
  by (simp add: stream_claude_response_aws_bedrock_def bedrock_try_def translate_text_messages
      dumps_text_request no_delta_client_def empty_world_def event_text_delta
      event_text_no_delta Let_def)

section \<open>The store\<close>

lemma heap_lookup_SomeD: "heap_lookup h a = Some obj \<Longrightarrow> a < length h \<and> h ! a = obj"
  by (auto simp: heap_lookup_def split: if_splits)

lemma heap_lookup_update:
  "heap_lookup (h[a := obj]) x = (if x = a \<and> a < length h then Some obj else heap_lookup h x)"
  by (auto simp: heap_lookup_def)

lemma heap_lookup_snoc:
  "heap_lookup (h @ [obj]) x = (if x = length h then Some obj else heap_lookup h x)"
  by (auto simp: heap_lookup_def nth_append)

lemma heap_lookup_append:
  "x < length h \<Longrightarrow> heap_lookup (h @ ext) x = heap_lookup h x"
  by (simp add: heap_lookup_def nth_append)

lemma getitem_Inr:
  "getitem h c k = Inr v \<Longrightarrow>
     \<exists>a d. c = PRef a \<and> heap_lookup h a = Some (PDict d) \<and> map_of d k = Some v"
  by (auto simp: getitem_def split: pyval.splits option.splits pyobj.splits)

lemma getitem_dict:
  "heap_lookup h a = Some (PDict d) \<Longrightarrow>
     getitem h (PRef a) k = (case map_of d k of None \<Rightarrow> Inl (KeyError k) | Some x \<Rightarrow> Inr x)"
  by (simp add: getitem_def)

lemma setitem_dict:
  "heap_lookup h a = Some (PDict d) \<Longrightarrow>
     setitem h (PRef a) k x = h[a := PDict (AList.update k x d)]"
  by (simp add: setitem_def)

lemma delitem_dict:
  "heap_lookup h a = Some (PDict d) \<Longrightarrow>
     delitem h (PRef a) k = h[a := PDict (AList.delete k d)]"
  by (simp add: delitem_def)

section \<open>Rewriting one content part\<close>

lemma rewrite_content_image:
  assumes a: "heap_lookup h a = Some (PDict d)"
    and ty: "map_of d ''type'' = Some (PStr ''image_url'')"
    and iu: "map_of d ''image_url'' = Some (PRef u)"
    and u: "heap_lookup h u = Some (PDict du)"
    and url: "map_of du ''url'' = Some (PStr url)"
  shows "rewrite_content h (PRef a) =
     (case and_then (item (str_split CHR '';'' url) 0) (\<lambda>s. item (str_split CHR '':'' s) 1) of
        Inl e \<Rightarrow> (Some e, h[a := PDict (AList.update ''type'' (PStr ''image'') d)])
      | Inr media_type \<Rightarrow>
          (case item (str_split CHR '','' url) 1 of
             Inl e \<Rightarrow> (Some e, h[a := PDict (AList.update ''type'' (PStr ''image'') d)])
           | Inr base64_data \<Rightarrow>
               (None, h[a := PDict (claude_part (length h) d)]
                        @ [source_dict media_type base64_data])))"
proof -
  let ?d1 = "AList.update ''type'' (PStr ''image'') d"
  let ?h1 = "h[a := PDict ?d1]"
  from a have len: "a < length h" by (simp add: heap_lookup_SomeD)
  have g0: "getitem h (PRef a) ''type'' = Inr (PStr ''image_url'')"
    using a ty by (simp add: getitem_dict)
  have h1: "setitem h (PRef a) ''type'' (PStr ''image'') = ?h1"
    using a by (simp add: setitem_dict)
  have la: "heap_lookup ?h1 a = Some (PDict ?d1)"
    using len by (simp add: heap_lookup_update)
  have g1: "getitem ?h1 (PRef a) ''image_url'' = Inr (PRef u)"
    using la iu by (simp add: getitem_dict update_conv')
  have g2: "getitem ?h1 (PRef u) ''url'' = Inr (PStr url)"
  proof (cases "u = a")
    case True
    with a u have "du = d" by simp
    with True la url show ?thesis by (simp add: getitem_dict update_conv')
  next
    case False
    with u have "heap_lookup ?h1 u = Some (PDict du)" by (simp add: heap_lookup_update)
    with url show ?thesis by (simp add: getitem_dict)
  qed
  have h2: "delitem ?h1 (PRef a) ''image_url'' = h[a := PDict (AList.delete ''image_url'' ?d1)]"
    using la by (simp add: delitem_dict)
  have h3: "setitem (h[a := PDict (AList.delete ''image_url'' ?d1)] @ [src]) (PRef a) ''source'' v
      = h[a := PDict (AList.update ''source'' v (AList.delete ''image_url'' ?d1))] @ [src]"
    for src v
    using len by (simp add: setitem_def heap_lookup_def nth_append list_update_append)
  show ?thesis
    unfolding rewrite_content_def g0
    by (simp add: h1 g1 g2 and_then_def h2 heap_alloc_def h3 claude_part_def source_dict_def
        Let_def split: sum.splits)
qed

lemma rewrite_content_None:
  assumes "rewrite_content h c = (None, h')"
  shows "(h' = h \<and> getitem h c ''type'' \<noteq> Inr (PStr ''image_url''))
       \<or> (\<exists>a d src. c = PRef a \<and> heap_lookup h a = Some (PDict d)
             \<and> map_of d ''type'' = Some (PStr ''image_url'')
             \<and> h' = h[a := PDict (claude_part (length h) d)] @ [PDict src])"
proof -
  from assms obtain ty where ty: "getitem h c ''type'' = Inr ty"
    by (auto simp: rewrite_content_def split: sum.splits)
  show ?thesis
  proof (cases "ty = PStr ''image_url''")
    case False
    with assms ty show ?thesis by (simp add: rewrite_content_def)
  next
    case True
    from getitem_Inr [OF ty] True obtain a d where
      c: "c = PRef a" and a: "heap_lookup h a = Some (PDict d)"
      and t: "map_of d ''type'' = Some (PStr ''image_url'')"
      by auto
    let ?d1 = "AList.update ''type'' (PStr ''image'') d"
    let ?h1 = "h[a := PDict ?d1]"
    have h1: "setitem h (PRef a) ''type'' (PStr ''image'') = ?h1"
      using a by (simp add: setitem_dict)
    from assms ty True c h1 obtain url where
      g: "and_then (getitem ?h1 (PRef a) ''image_url'') (\<lambda>iu. getitem ?h1 iu ''url'')
            = Inr (PStr url)"
      by (auto simp: rewrite_content_def Let_def split: sum.splits pyval.splits)
    then obtain iu where g1: "getitem ?h1 (PRef a) ''image_url'' = Inr iu"
      and g2: "getitem ?h1 iu ''url'' = Inr (PStr url)"
      by (auto simp: and_then_def split: sum.splits)
    from a have len: "a < length h" by (simp add: heap_lookup_SomeD)
    have la: "heap_lookup ?h1 a = Some (PDict ?d1)"
      using len by (simp add: heap_lookup_update)
    from g1 la have iu: "map_of d ''image_url'' = Some iu"
      by (auto simp: getitem_dict update_conv' split: option.splits)
    from getitem_Inr [OF g2] obtain u du1 where
      u: "iu = PRef u" "heap_lookup ?h1 u = Some (PDict du1)" "map_of du1 ''url'' = Some (PStr url)"
      by auto
    obtain du where du: "heap_lookup h u = Some (PDict du)" "map_of du ''url'' = Some (PStr url)"
    proof (cases "u = a")
      case True
      with u la have "du1 = ?d1" by simp
      with u(3) have "map_of d ''url'' = Some (PStr url)" by (simp add: update_conv')
      with True a that show ?thesis by simp
    next
      case False
      with u(2) have "heap_lookup h u = Some (PDict du1)" by (simp add: heap_lookup_update)
      with u(3) that show ?thesis by simp
    qed
    from assms c rewrite_content_image [OF a t iu [unfolded u(1)] du]
    show ?thesis
      using a t c by (auto simp: source_dict_def split: sum.splits)
  qed
qed

section \<open>What the rewriting preserves\<close>

lemma evolves_refl: "evolves h h"
  by (simp add: evolves_def)

lemma evolves_list:
  "evolves h h' \<Longrightarrow> heap_lookup h x = Some (PList xs) \<Longrightarrow> heap_lookup h' x = Some (PList xs)"
  by (simp add: evolves_def)

lemma evolves_dict:
  "evolves h h' \<Longrightarrow> heap_lookup h x = Some (PDict d) \<Longrightarrow>
     \<exists>d'. heap_lookup h' x = Some (PDict d')
        \<and> map_of d' ''content'' = map_of d ''content'' \<and> map_of d' ''url'' = map_of d ''url''"
  by (simp add: evolves_def)

lemma evolves_rewritten:
  "evolves h h' \<Longrightarrow> rewritten_part h x \<Longrightarrow> rewritten_part h' x"
  by (simp add: evolves_def)

lemma evolves_image:
  "evolves h h' \<Longrightarrow> image_part h x \<Longrightarrow> image_part h' x \<or> rewritten_part h' x"
  by (simp add: evolves_def)

lemma evolves_part:
  "evolves h h' \<Longrightarrow> image_part h x \<or> rewritten_part h x \<Longrightarrow>
     image_part h' x \<or> rewritten_part h' x"
  using evolves_image evolves_rewritten by blast

lemma evolves_trans:
  assumes "evolves h1 h2" and "evolves h2 h3"
  shows "evolves h1 h3"
  unfolding evolves_def
proof (intro conjI allI impI)
  show "length h1 \<le> length h3"
    using assms by (simp add: evolves_def)
next
  fix x xs assume "heap_lookup h1 x = Some (PList xs)"
  with assms show "heap_lookup h3 x = Some (PList xs)"
    by (simp add: evolves_def)
next
  fix x d assume "heap_lookup h1 x = Some (PDict d)"
  from evolves_dict [OF assms(1) this] obtain d2 where
    d2: "heap_lookup h2 x = Some (PDict d2)" "map_of d2 ''content'' = map_of d ''content''"
    "map_of d2 ''url'' = map_of d ''url''"
    by blast
  moreover from evolves_dict [OF assms(2) d2(1)] obtain d3 where
    "heap_lookup h3 x = Some (PDict d3)" "map_of d3 ''content'' = map_of d2 ''content''"
    "map_of d3 ''url'' = map_of d2 ''url''"
    by blast
  ultimately show "\<exists>d'. heap_lookup h3 x = Some (PDict d')
      \<and> map_of d' ''content'' = map_of d ''content'' \<and> map_of d' ''url'' = map_of d ''url''"
    by simp
next
  fix x assume "rewritten_part h1 x"
  with assms show "rewritten_part h3 x"
    by (simp add: evolves_def)
next
  fix x assume "image_part h1 x"
  with assms(1) have "image_part h2 x \<or> rewritten_part h2 x"
    by (rule evolves_image)
  with assms(2) show "image_part h3 x \<or> rewritten_part h3 x"
    by (rule evolves_part)
qed

lemma map_of_claude_part:
  "k \<noteq> ''source'' \<Longrightarrow> k \<noteq> ''image_url'' \<Longrightarrow> k \<noteq> ''type'' \<Longrightarrow>
     map_of (claude_part s d) k = map_of d k"
  "map_of (claude_part s d) ''type'' = Some (PStr ''image'')"
  "map_of (claude_part s d) ''image_url'' = None"
  "map_of (claude_part s d) ''source'' = Some (PRef s)"
  by (simp_all add: claude_part_def update_conv' delete_conv')

lemma rewrite_step_evolves:
  assumes a: "heap_lookup h a = Some (PDict d)"
    and ty: "map_of d ''type'' = Some (PStr ''image_url'')"
  shows "evolves h (h[a := PDict (claude_part (length h) d)] @ [PDict src])"
    (is "evolves h ?h'")
proof -
  from a have len: "a < length h" by (simp add: heap_lookup_SomeD)
  have look: "heap_lookup ?h' x =
      (if x = a then Some (PDict (claude_part (length h) d)) else heap_lookup h x)"
    if "x < length h" for x
    using that len by (simp add: heap_lookup_def nth_append)
  have lt: "x < length h" if "heap_lookup h x = Some obj" for x obj
    using that by (simp add: heap_lookup_SomeD)
  show ?thesis
    unfolding evolves_def
  proof (intro conjI allI impI)
    show "length h \<le> length ?h'" by simp
  next
    fix x xs assume "heap_lookup h x = Some (PList xs)"
    with a look [OF lt [OF this]] show "heap_lookup ?h' x = Some (PList xs)"
      by auto
  next
    fix x dx assume x: "heap_lookup h x = Some (PDict dx)"
    show "\<exists>d'. heap_lookup ?h' x = Some (PDict d')
      \<and> map_of d' ''content'' = map_of dx ''content'' \<and> map_of d' ''url'' = map_of dx ''url''"
      using x a look [OF lt [OF x]] by (auto simp: map_of_claude_part)
  next
    fix x assume "rewritten_part h x"
    then obtain dx s where x: "heap_lookup h x = Some (PDict dx)"
      "map_of dx ''type'' = Some (PStr ''image'')" "map_of dx ''image_url'' = None"
      "map_of dx ''source'' = Some (PRef s)"
      by (auto simp: rewritten_part_def)
    with a ty have "x \<noteq> a" by auto
    with x look [OF lt [OF x(1)]] show "rewritten_part ?h' x"
      by (auto simp: rewritten_part_def)
  next
    fix x assume "image_part h x"
    then obtain dx where x: "heap_lookup h x = Some (PDict dx)"
      "map_of dx ''type'' = Some (PStr ''image_url'')"
      by (auto simp: image_part_def)
    show "image_part ?h' x \<or> rewritten_part ?h' x"
      using x look [OF lt [OF x(1)]]
      by (cases "x = a") (auto simp: image_part_def rewritten_part_def map_of_claude_part)
  qed
qed

lemma rewrite_content_evolves:
  "rewrite_content h c = (None, h') \<Longrightarrow> evolves h h'"
  by (auto dest!: rewrite_content_None simp: evolves_refl rewrite_step_evolves)

lemma rewrite_content_visits:
  assumes "rewrite_content h (PRef a) = (None, h')" and "image_part h a"
  shows "rewritten_part h' a"
proof -
  from assms(2) obtain d where d: "heap_lookup h a = Some (PDict d)"
    "map_of d ''type'' = Some (PStr ''image_url'')"
    by (auto simp: image_part_def)
  then have g: "getitem h (PRef a) ''type'' = Inr (PStr ''image_url'')"
    by (simp add: getitem_dict)
  from rewrite_content_None [OF assms(1)] g d obtain src where
    h': "h' = h[a := PDict (claude_part (length h) d)] @ [PDict src]"
    by auto
  from d have len: "a < length h" by (simp add: heap_lookup_SomeD)
  have "heap_lookup h' a = Some (PDict (claude_part (length h) d))"
    using h' len by (simp add: heap_lookup_def nth_append)
  then show ?thesis
    by (auto simp: rewritten_part_def map_of_claude_part)
qed

section \<open>The loops of the translation\<close>

lemma rewrite_contents_evolves:
  "rewrite_contents h ps = (None, h') \<Longrightarrow> evolves h h'"
proof (induction ps arbitrary: h)
  case Nil
  then show ?case by (simp add: evolves_refl)
next
  case (Cons c ps)
  then obtain h1 where "rewrite_content h c = (None, h1)" "rewrite_contents h1 ps = (None, h')"
    by (auto split: prod.splits option.splits)
  then show ?case
    using Cons.IH rewrite_content_evolves evolves_trans by blast
qed

lemma rewrite_contents_visits:
  "rewrite_contents h ps = (None, h') \<Longrightarrow> PRef a \<in> set ps \<Longrightarrow>
     image_part h a \<or> rewritten_part h a \<Longrightarrow> rewritten_part h' a"
proof (induction ps arbitrary: h)
  case Nil
  then show ?case by simp
next
  case (Cons c ps)
  from Cons.prems(1) obtain h1 where
    c: "rewrite_content h c = (None, h1)" and rest: "rewrite_contents h1 ps = (None, h')"
    by (auto split: prod.splits option.splits)
  have e1: "evolves h h1" using c by (rule rewrite_content_evolves)
  have e2: "evolves h1 h'" using rest by (rule rewrite_contents_evolves)
  show ?case
  proof (cases "c = PRef a")
    case True
    have "rewritten_part h1 a"
    proof (cases "image_part h a")
      case True
      with c \<open>c = PRef a\<close> show ?thesis by (simp add: rewrite_content_visits)
    next
      case False
      with Cons.prems(3) e1 show ?thesis by (simp add: evolves_rewritten)
    qed
    with e2 show ?thesis by (simp add: evolves_rewritten)
  next
    case False
    with Cons.prems(2) have "PRef a \<in> set ps" by simp
    moreover from e1 Cons.prems(3) have "image_part h1 a \<or> rewritten_part h1 a"
      by (rule evolves_part)
    ultimately show ?thesis using Cons.IH [OF rest] by blast
  qed
qed

lemma content_list_evolves:
  assumes "content_list h m l parts" and "evolves h h'"
  shows "content_list h' m l parts"
proof -
  from assms(1) obtain d where d: "heap_lookup h m = Some (PDict d)"
    "map_of d ''content'' = Some (PRef l)" and l: "heap_lookup h l = Some (PList parts)"
    by (auto simp: content_list_def)
  from evolves_dict [OF assms(2) d(1)] obtain d' where
    "heap_lookup h' m = Some (PDict d')" "map_of d' ''content'' = map_of d ''content''"
    by blast
  moreover from assms(2) l have "heap_lookup h' l = Some (PList parts)"
    by (rule evolves_list)
  ultimately show ?thesis using d(2) by (auto simp: content_list_def)
qed

lemma rewrite_messages_evolves:
  "rewrite_messages h cs = (None, h') \<Longrightarrow> evolves h h'"
proof (induction cs arbitrary: h)
  case Nil
  then show ?case by (simp add: evolves_refl)
next
  case (Cons m cs)
  from Cons.prems obtain h1 where
    "evolves h h1" "rewrite_messages h1 cs = (None, h')"
    by (auto split: sum.splits option.splits prod.splits
        intro: evolves_refl rewrite_contents_evolves)
  then show ?case
    using Cons.IH evolves_trans by blast
qed

lemma rewrite_messages_visits:
  "rewrite_messages h cs = (None, h') \<Longrightarrow> PRef c \<in> set cs \<Longrightarrow>
     content_list h c l parts \<Longrightarrow> PRef a \<in> set parts \<Longrightarrow>
     image_part h a \<or> rewritten_part h a \<Longrightarrow> rewritten_part h' a"
proof (induction cs arbitrary: h)
  case Nil
  then show ?case by simp
next
  case (Cons m cs)
  from Cons.prems(1) obtain h1 where
    e1: "evolves h h1" and rest: "rewrite_messages h1 cs = (None, h')"
    by (auto split: sum.splits option.splits prod.splits
        intro: evolves_refl rewrite_contents_evolves)
  have e2: "evolves h1 h'" using rest by (rule rewrite_messages_evolves)
  show ?case
  proof (cases "m = PRef c")
    case True
    from Cons.prems(3) have g: "getitem h (PRef c) ''content'' = Inr (PRef l)"
      and al: "as_list h (PRef l) = Some parts"
      by (auto simp: content_list_def getitem_dict as_list_def)
    with Cons.prems(1) True obtain h1' where
      "rewrite_contents h parts = (None, h1')" "rewrite_messages h1' cs = (None, h')"
      by (auto split: prod.splits option.splits)
    with Cons.prems(4,5) have "rewritten_part h1' a" "evolves h1' h'"
      by (auto intro: rewrite_contents_visits rewrite_messages_evolves)
    then show ?thesis by (simp add: evolves_rewritten)
  next
    case False
    with Cons.prems(2) have "PRef c \<in> set cs" by simp
    moreover have "content_list h1 c l parts"
      using Cons.prems(3) e1 by (rule content_list_evolves)
    moreover from e1 Cons.prems(5) have "image_part h1 a \<or> rewritten_part h1 a"
      by (rule evolves_part)
    ultimately show ?thesis using Cons.IH [OF rest] Cons.prems(4) by blast
  qed
qed

section \<open>Splitting a data URL\<close>

lemma str_split_no_sep: "sep \<notin> set s \<Longrightarrow> str_split sep s = [s]"
  by (induction s) auto

lemma str_split_append:
  "sep \<notin> set a \<Longrightarrow> str_split sep (a @ sep # b) = a # str_split sep b"
  by (induction a) auto

lemma split_well_formed:
  assumes "well_formed_data_url url media_type payload"
  shows "and_then (item (str_split CHR '';'' url) 0) (\<lambda>s. item (str_split CHR '':'' s) 1)
           = Inr media_type"
    and "item (str_split CHR '','' url) 1 = Inr payload"
proof -
  from assms have url: "url = ''data:'' @ media_type @ '';base64,'' @ payload"
    and m1: "CHR '';'' \<notin> set media_type" and m2: "CHR '':'' \<notin> set media_type"
    and m3: "CHR '','' \<notin> set media_type" and p: "CHR '','' \<notin> set payload"
    by (simp_all add: well_formed_data_url_def)
  have u1: "url = (''data:'' @ media_type) @ CHR '';'' # (''base64,'' @ payload)"
    by (simp add: url)
  have s1: "str_split CHR '';'' url
      = (''data:'' @ media_type) # str_split CHR '';'' (''base64,'' @ payload)"
    unfolding u1 using m1 by (intro str_split_append) simp
  have u2: "''data:'' @ media_type = ''data'' @ CHR '':'' # media_type"
    by simp
  have s2a: "str_split CHR '':'' (''data'' @ CHR '':'' # media_type)
      = ''data'' # str_split CHR '':'' media_type"
    by (rule str_split_append) simp
  have s2: "str_split CHR '':'' (''data:'' @ media_type) = [''data'', media_type]"
    unfolding u2 s2a str_split_no_sep [OF m2] by (rule refl)
  show "and_then (item (str_split CHR '';'' url) 0) (\<lambda>s. item (str_split CHR '':'' s) 1)
           = Inr media_type"
  proof -
    have i0: "item (str_split CHR '';'' url) 0 = Inr (''data:'' @ media_type)"
      unfolding s1 by (simp add: item_def)
    have i1: "item (str_split CHR '':'' (''data:'' @ media_type)) 1 = Inr media_type"
      unfolding s2 by (simp add: item_def)
    show ?thesis
      by (simp only: i0 and_then_def sum.case i1)
  qed
  have u3: "url = (''data:'' @ media_type @ '';base64'') @ CHR '','' # payload"
    by (simp add: url)
  have s3a: "str_split CHR '','' ((''data:'' @ media_type @ '';base64'') @ CHR '','' # payload)
      = (''data:'' @ media_type @ '';base64'') # str_split CHR '','' payload"
    using m3 by (intro str_split_append) simp
  have s3: "str_split CHR '','' url = [''data:'' @ media_type @ '';base64'', payload]"
    unfolding u3 s3a str_split_no_sep [OF p] by (rule refl)
  show "item (str_split CHR '','' url) 1 = Inr payload"
    by (simp add: s3 item_def)
qed

lemma split_no_comma:
  "CHR '','' \<notin> set url \<Longrightarrow> item (str_split CHR '','' url) 1 = Inl IndexError"
  by (simp add: str_split_no_sep item_def)

lemma item_Inl: "item xs i = Inl e \<Longrightarrow> e = IndexError"
  by (simp add: item_def split: if_splits)

section \<open>The translation of one image part\<close>

lemma rewrite_content_well_formed:
  assumes "image_part_url h a url" and "well_formed_data_url url media_type payload"
  shows "\<exists>d. heap_lookup h a = Some (PDict d)
           \<and> rewrite_content h (PRef a) =
               (None, h[a := PDict (claude_part (length h) d)] @ [source_dict media_type payload])"
proof -
  from assms(1) obtain d u du where
    a: "heap_lookup h a = Some (PDict d)" "map_of d ''type'' = Some (PStr ''image_url'')"
       "map_of d ''image_url'' = Some (PRef u)" "heap_lookup h u = Some (PDict du)"
       "map_of du ''url'' = Some (PStr url)"
    by (auto simp: image_part_url_def)
  from rewrite_content_image [OF a] split_well_formed [OF assms(2)] a(1)
  show ?thesis by simp
qed

lemma rewrite_content_no_comma:
  assumes "image_part_url h a url" and "CHR '','' \<notin> set url"
  shows "fst (rewrite_content h (PRef a)) = Some IndexError"
proof -
  from assms(1) obtain d u du where
    a: "heap_lookup h a = Some (PDict d)" "map_of d ''type'' = Some (PStr ''image_url'')"
       "map_of d ''image_url'' = Some (PRef u)" "heap_lookup h u = Some (PDict du)"
       "map_of du ''url'' = Some (PStr url)"
    by (auto simp: image_part_url_def)
  show ?thesis
    unfolding rewrite_content_image [OF a]
    using split_no_comma [OF assms(2)]
    by (auto simp: and_then_def split: sum.splits dest: item_Inl)
qed

section \<open>Copying the messages\<close>

lemma evolves_append: "evolves h (h @ ext)"
proof -
  have look: "heap_lookup (h @ ext) x = Some obj" if "heap_lookup h x = Some obj" for x obj
    using that by (auto simp: heap_lookup_def nth_append split: if_splits)
  show ?thesis
    unfolding evolves_def
  proof (intro conjI allI impI)
    show "length h \<le> length (h @ ext)" by simp
  next
    fix x xs assume "heap_lookup h x = Some (PList xs)"
    then show "heap_lookup (h @ ext) x = Some (PList xs)" by (rule look)
  next
    fix x d assume "heap_lookup h x = Some (PDict d)"
    then have "heap_lookup (h @ ext) x = Some (PDict d)" by (rule look)
    then show "\<exists>d'. heap_lookup (h @ ext) x = Some (PDict d')
        \<and> map_of d' ''content'' = map_of d ''content'' \<and> map_of d' ''url'' = map_of d ''url''"
      by simp
  next
    fix x assume "rewritten_part h x"
    then show "rewritten_part (h @ ext) x"
      unfolding rewritten_part_def using look by blast
  next
    fix x assume "image_part h x"
    then have "image_part (h @ ext) x"
      unfolding image_part_def using look by blast
    then show "image_part (h @ ext) x \<or> rewritten_part (h @ ext) x" ..
  qed
qed

lemma copy_messages_Inr:
  "copy_messages h ms = Inr (h1, cs) \<Longrightarrow>
     (\<exists>ext. h1 = h @ ext)
     \<and> list_all2 (\<lambda>m c. \<exists>am ac dm. m = PRef am \<and> c = PRef ac \<and> length h \<le> ac
            \<and> heap_lookup h1 am = Some (PDict dm) \<and> heap_lookup h1 ac = Some (PDict dm)) ms cs"
proof (induction ms arbitrary: h cs)
  case Nil
  then show ?case by simp
next
  case (Cons m ms)
  from Cons.prems obtain am d cs' where
    m: "m = PRef am" and am: "heap_lookup h am = Some (PDict d)"
    and rest: "copy_messages (h @ [PDict d]) ms = Inr (h1, cs')"
    and cs: "cs = PRef (length h) # cs'"
    by (auto simp: heap_alloc_def split: pyval.splits option.splits pyobj.splits sum.splits)
  from Cons.IH [OF rest] obtain ext where
    ext: "h1 = (h @ [PDict d]) @ ext"
    and all: "list_all2 (\<lambda>m c. \<exists>am ac dm. m = PRef am \<and> c = PRef ac
            \<and> length (h @ [PDict d]) \<le> ac
            \<and> heap_lookup h1 am = Some (PDict dm) \<and> heap_lookup h1 ac = Some (PDict dm)) ms cs'"
    by blast
  from am have "am < length h" by (simp add: heap_lookup_SomeD)
  with am ext have 1: "heap_lookup h1 am = Some (PDict d)"
    by (simp add: heap_lookup_def nth_append)
  from ext have 2: "heap_lookup h1 (length h) = Some (PDict d)"
    by (simp add: heap_lookup_def nth_append)
  have 3: "list_all2 (\<lambda>m c. \<exists>am ac dm. m = PRef am \<and> c = PRef ac \<and> length h \<le> ac
            \<and> heap_lookup h1 am = Some (PDict dm) \<and> heap_lookup h1 ac = Some (PDict dm)) ms cs'"
    using all by (rule list_all2_mono) auto
  from ext have "h1 = h @ ([PDict d] @ ext)" by simp
  with m cs 1 2 3 show ?case by auto
qed

lemma collect_length: "collect rs = Inr xs \<Longrightarrow> length xs = length rs"
  by (induction rs arbitrary: xs) (auto split: sum.splits)

section \<open>The translation as a whole\<close>

lemma translate_messages_Inr:
  assumes "translate_messages h ms = (Inr (system_prompt, claude_messages), h')"
  shows "first_content h ms = Inr system_prompt
       \<and> (\<exists>h1. copy_messages h (tl ms) = Inr (h1, claude_messages)
              \<and> rewrite_messages h1 claude_messages = (None, h'))"
  using assms
  by (auto simp: translate_messages_def split: sum.splits prod.splits option.splits)

lemma first_content_Inr:
  "first_content h ms = Inr v \<Longrightarrow>
     \<exists>a d rest. ms = PRef a # rest \<and> heap_lookup h a = Some (PDict d)
        \<and> v = (case map_of d ''content'' of None \<Rightarrow> PNone | Some x \<Rightarrow> x)"
  by (auto simp: first_content_def split: list.splits pyval.splits option.splits pyobj.splits)

lemma translate_messages_turns:
  assumes "translate_messages h ms = (Inr (system_prompt, claude_messages), h')"
  shows "ms \<noteq> [] \<and> length claude_messages = length ms - 1
       \<and> hd ms \<notin> set claude_messages
       \<and> (\<forall>c \<in> set claude_messages. \<exists>ac. c = PRef ac \<and> length h \<le> ac)"
proof -
  from translate_messages_Inr [OF assms] obtain h1 where
    f: "first_content h ms = Inr system_prompt"
    and c: "copy_messages h (tl ms) = Inr (h1, claude_messages)"
    by blast
  from first_content_Inr [OF f] obtain a d rest where
    ms: "ms = PRef a # rest" and a: "heap_lookup h a = Some (PDict d)"
    by blast
  from copy_messages_Inr [OF c] have
    all: "list_all2 (\<lambda>m c. \<exists>am ac dm. m = PRef am \<and> c = PRef ac \<and> length h \<le> ac
            \<and> heap_lookup h1 am = Some (PDict dm) \<and> heap_lookup h1 ac = Some (PDict dm))
          (tl ms) claude_messages"
    by blast
  have len: "length claude_messages = length ms - 1"
    using list_all2_lengthD [OF all] by simp
  have fresh: "\<forall>c \<in> set claude_messages. \<exists>ac. c = PRef ac \<and> length h \<le> ac"
  proof
    fix c assume "c \<in> set claude_messages"
    then obtain i where "i < length claude_messages" "claude_messages ! i = c"
      by (auto simp: in_set_conv_nth)
    with all show "\<exists>ac. c = PRef ac \<and> length h \<le> ac"
      by (auto simp: list_all2_conv_all_nth)
  qed
  from a have "a < length h" by (simp add: heap_lookup_SomeD)
  with fresh have "PRef a \<notin> set claude_messages" by auto
  with ms len fresh show ?thesis by simp
qed

lemma translate_messages_rewrites:
  assumes tr: "translate_messages h ms = (Inr (system_prompt, claude_messages), h')"
    and m: "PRef m \<in> set (tl ms)"
    and cl: "content_list h m l parts"
    and a: "PRef a \<in> set parts"
    and img: "image_part h a"
  shows "rewritten_part h' a \<and> content_list h' m l parts
       \<and> (\<exists>c. PRef c \<in> set claude_messages \<and> length h \<le> c \<and> content_list h' c l parts)"
proof -
  from translate_messages_Inr [OF tr] obtain h1 where
    c: "copy_messages h (tl ms) = Inr (h1, claude_messages)"
    and r: "rewrite_messages h1 claude_messages = (None, h')"
    by blast
  from copy_messages_Inr [OF c] obtain ext where ext: "h1 = h @ ext"
    and all: "list_all2 (\<lambda>m c. \<exists>am ac dm. m = PRef am \<and> c = PRef ac \<and> length h \<le> ac
            \<and> heap_lookup h1 am = Some (PDict dm) \<and> heap_lookup h1 ac = Some (PDict dm))
          (tl ms) claude_messages"
    by blast
  have e0: "evolves h h1" unfolding ext by (rule evolves_append)
  have e1: "evolves h1 h'" using r by (rule rewrite_messages_evolves)
  from m obtain i where i: "i < length (tl ms)" "tl ms ! i = PRef m"
    by (auto simp: in_set_conv_nth)
  with all obtain ac dm where
    ci: "claude_messages ! i = PRef ac" "length h \<le> ac"
    and dm: "heap_lookup h1 m = Some (PDict dm)" "heap_lookup h1 ac = Some (PDict dm)"
    by (auto simp: list_all2_conv_all_nth)
  from i(1) list_all2_lengthD [OF all] have "i < length claude_messages"
    by simp
  with ci have mem: "PRef ac \<in> set claude_messages"
    by (metis nth_mem)
  have cl1: "content_list h1 m l parts" using cl e0 by (rule content_list_evolves)
  with dm have clc: "content_list h1 ac l parts"
    by (auto simp: content_list_def)
  from e0 img have part: "image_part h1 a \<or> rewritten_part h1 a"
    by (rule evolves_image)
  have 1: "rewritten_part h' a"
    using r mem clc a part by (rule rewrite_messages_visits)
  have 2: "content_list h' m l parts" using cl1 e1 by (rule content_list_evolves)
  have 3: "content_list h' ac l parts" using clc e1 by (rule content_list_evolves)
  from 1 2 3 mem ci(2) show ?thesis by blast
qed

section \<open>The adapters around the translation\<close>

lemma sent_handle_exceptions: "sent (snd (handle_exceptions r)) = sent (snd r)"
  by (cases r rule: handle_exceptions.cases) simp_all

lemma claude_store: "snd (stream_claude_response client h ms) = snd (translate_messages h ms)"
  by (simp add: stream_claude_response_def Let_def split: prod.splits sum.splits option.splits)

lemma bedrock_store:
  "snd (stream_claude_response_aws_bedrock client h ms) = snd (translate_messages h ms)"
  by (simp add: stream_claude_response_aws_bedrock_def bedrock_try_def Let_def
      split: prod.splits sum.splits option.splits)

lemma claude_sent:
  "translate_messages h ms = (Inr (system_prompt, claude_messages), h') \<Longrightarrow>
     sent (snd (fst (stream_claude_response client h ms)))
       = [claude_params system_prompt claude_messages h']"
  by (simp add: stream_claude_response_def Let_def empty_world_def
      split: prod.splits sum.splits option.splits)

lemma bedrock_sent:
  "translate_messages h ms = (Inr (system_prompt, claude_messages), h') \<Longrightarrow>
   dumps_request h' claude_messages system_prompt = Inr body \<Longrightarrow>
     sent (snd (fst (stream_claude_response_aws_bedrock client h ms))) = [invoke_params body]"
  by (simp add: stream_claude_response_aws_bedrock_def bedrock_try_def Let_def empty_world_def
      sent_handle_exceptions split: prod.splits sum.splits option.splits)

lemma translation_fails:
  "translate_messages h ms = (Inl e, h') \<Longrightarrow>
     stream_claude_response client h ms = ((Raises e, empty_world), h')
     \<and> bedrock_try gclient h ms = ((Raises e, empty_world), h')"
  by (simp add: stream_claude_response_def bedrock_try_def)

lemma dumps_request_Inr:
  assumes "dumps_request h cms sys = Inr body"
  shows "\<exists>js s. body = request_body js s \<and> length js = length cms \<and> dumps h sys = Inr s"
proof -
  from assms obtain js s where
    c: "collect (map (dumps h) cms) = Inr js" and s: "dumps h sys = Inr s"
    and b: "body = request_body js s"
    by (auto simp: dumps_request_def and_then_def split: sum.splits)
  from collect_length [OF c] have "length js = length cms" by simp
  with s b show ?thesis by blast
qed

section \<open>Following one part through the translation\<close>

lemma rewrite_content_frame:
  assumes "rewrite_content h c = (None, h1)" and "c \<noteq> PRef x"
    and "heap_lookup h x = Some obj"
  shows "heap_lookup h1 x = Some obj"
proof -
  from assms(3) have "x < length h" by (simp add: heap_lookup_SomeD)
  with rewrite_content_None [OF assms(1)] assms(2,3) show ?thesis
    by (auto simp: heap_lookup_def nth_append)
qed

lemma rewrite_content_other_type:
  assumes "rewrite_content h c = (None, h1)" and "heap_lookup h x = Some (PDict d)"
    and "map_of d ''type'' \<noteq> Some (PStr ''image_url'')"
  shows "heap_lookup h1 x = Some (PDict d)"
proof (cases "c = PRef x")
  case True
  with assms(2,3) have "getitem h c ''type'' \<noteq> Inr (PStr ''image_url'')"
    by (auto simp: getitem_dict split: option.splits)
  with rewrite_content_None [OF assms(1)] True assms(2,3) show ?thesis
    by auto
next
  case False
  from assms(1) False assms(2) show ?thesis by (rule rewrite_content_frame)
qed

lemma rewrite_content_keeps_url:
  assumes r: "rewrite_content h c = (None, h1)" and c: "c \<noteq> PRef a"
    and p: "image_part_url h a url"
  shows "image_part_url h1 a url"
proof -
  from p obtain d u du where
    a: "heap_lookup h a = Some (PDict d)" "map_of d ''type'' = Some (PStr ''image_url'')"
       "map_of d ''image_url'' = Some (PRef u)" and u: "heap_lookup h u = Some (PDict du)"
       "map_of du ''url'' = Some (PStr url)"
    by (auto simp: image_part_url_def)
  have "heap_lookup h1 a = Some (PDict d)" using r c a(1) by (rule rewrite_content_frame)
  moreover from evolves_dict [OF rewrite_content_evolves [OF r] u(1)] u(2) obtain du' where
    "heap_lookup h1 u = Some (PDict du')" "map_of du' ''url'' = Some (PStr url)"
    by auto
  ultimately show ?thesis using a(2,3) by (auto simp: image_part_url_def)
qed

lemma rewrite_content_translated:
  assumes r: "rewrite_content h c = (None, h1)" and t: "translated_part h a media_type payload"
  shows "translated_part h1 a media_type payload"
proof -
  from t obtain d s where
    a: "heap_lookup h a = Some (PDict d)" "map_of d ''type'' = Some (PStr ''image'')"
       "map_of d ''image_url'' = None" "map_of d ''source'' = Some (PRef s)"
    and s: "heap_lookup h s = Some (source_dict media_type payload)"
    by (auto simp: translated_part_def)
  have "heap_lookup h1 a = Some (PDict d)"
    using r a(1) by (rule rewrite_content_other_type) (simp add: a(2))
  moreover have "heap_lookup h1 s = Some (source_dict media_type payload)"
    using r s unfolding source_dict_def by (rule rewrite_content_other_type) simp
  ultimately show ?thesis using a by (auto simp: translated_part_def)
qed

lemma rewrite_content_translates:
  assumes r: "rewrite_content h (PRef a) = (None, h1)" and p: "image_part_url h a url"
    and wf: "well_formed_data_url url media_type payload"
  shows "translated_part h1 a media_type payload"
proof -
  from rewrite_content_well_formed [OF p wf] r obtain d where
    d: "heap_lookup h a = Some (PDict d)"
    and h1: "h1 = h[a := PDict (claude_part (length h) d)] @ [source_dict media_type payload]"
    by auto
  from d have len: "a < length h" by (simp add: heap_lookup_SomeD)
  have "heap_lookup h1 a = Some (PDict (claude_part (length h) d))"
    using h1 len by (simp add: heap_lookup_def nth_append)
  moreover have "heap_lookup h1 (length h) = Some (source_dict media_type payload)"
    using h1 by (simp add: heap_lookup_def nth_append)
  ultimately show ?thesis
    by (auto simp: translated_part_def map_of_claude_part)
qed

text \<open>The two loops, for a part that is pending (\<open>P\<close>) until it is visited and settled (\<open>Q\<close>)
  from then on.\<close>

lemma rewrite_contents_done:
  assumes stays: "\<forall>h c h1. rewrite_content h c = (None, h1) \<longrightarrow> Q h \<longrightarrow> Q h1"
  shows "rewrite_contents h ps = (None, h') \<Longrightarrow> Q h \<Longrightarrow> Q h'"
proof (induction ps arbitrary: h)
  case Nil
  then show ?case by simp
next
  case (Cons c ps)
  from Cons.prems(1) obtain h1 where
    c: "rewrite_content h c = (None, h1)" and rest: "rewrite_contents h1 ps = (None, h')"
    by (auto split: prod.splits option.splits)
  from stays [rule_format, OF c Cons.prems(2)] have "Q h1" .
  with Cons.IH [OF rest] show ?case .
qed

lemma rewrite_contents_follow:
  assumes keep: "\<forall>h c h1. rewrite_content h c = (None, h1) \<longrightarrow> c \<noteq> PRef a \<longrightarrow> P h \<longrightarrow> P h1"
    and visit: "\<forall>h h1. rewrite_content h (PRef a) = (None, h1) \<longrightarrow> P h \<longrightarrow> Q h1"
    and stays: "\<forall>h c h1. rewrite_content h c = (None, h1) \<longrightarrow> Q h \<longrightarrow> Q h1"
  shows "rewrite_contents h ps = (None, h') \<Longrightarrow> P h \<or> Q h \<Longrightarrow>
           (P h' \<or> Q h') \<and> (PRef a \<in> set ps \<longrightarrow> Q h')"
proof (induction ps arbitrary: h)
  case Nil
  then show ?case by simp
next
  case (Cons c ps)
  from Cons.prems(1) obtain h1 where
    c: "rewrite_content h c = (None, h1)" and rest: "rewrite_contents h1 ps = (None, h')"
    by (auto split: prod.splits option.splits)
  show ?case
  proof (cases "Q h")
    case True
    with stays c have "Q h1" by blast
    with rewrite_contents_done [OF stays rest] have "Q h'" by blast
    then show ?thesis by simp
  next
    case False
    with Cons.prems(2) have P: "P h" by simp
    show ?thesis
    proof (cases "c = PRef a")
      case True
      with c visit P have "Q h1" by blast
      with rewrite_contents_done [OF stays rest] have "Q h'" by blast
      then show ?thesis by simp
    next
      case False
      with keep c P have "P h1" by blast
      with Cons.IH [OF rest] False show ?thesis by auto
    qed
  qed
qed

lemma rewrite_messages_done:
  assumes stays: "\<forall>h c h1. rewrite_content h c = (None, h1) \<longrightarrow> Q h \<longrightarrow> Q h1"
  shows "rewrite_messages h cs = (None, h') \<Longrightarrow> Q h \<Longrightarrow> Q h'"
proof (induction cs arbitrary: h)
  case Nil
  then show ?case by simp
next
  case (Cons m cs)
  from Cons.prems(1) consider
    (skip) "rewrite_messages h cs = (None, h')"
    | (parts) ps h1 where "rewrite_contents h ps = (None, h1)" "rewrite_messages h1 cs = (None, h')"
    by (auto split: sum.splits option.splits prod.splits)
  then show ?case
  proof cases
    case skip
    with Cons.IH Cons.prems(2) show ?thesis by blast
  next
    case parts
    from rewrite_contents_done [OF stays parts(1)] Cons.prems(2) have "Q h1" by blast
    with Cons.IH [OF parts(2)] show ?thesis .
  qed
qed

lemma rewrite_messages_follow:
  assumes keep: "\<forall>h c h1. rewrite_content h c = (None, h1) \<longrightarrow> c \<noteq> PRef a \<longrightarrow> P h \<longrightarrow> P h1"
    and visit: "\<forall>h h1. rewrite_content h (PRef a) = (None, h1) \<longrightarrow> P h \<longrightarrow> Q h1"
    and stays: "\<forall>h c h1. rewrite_content h c = (None, h1) \<longrightarrow> Q h \<longrightarrow> Q h1"
  shows "rewrite_messages h cs = (None, h') \<Longrightarrow> P h \<or> Q h \<Longrightarrow>
           PRef c \<in> set cs \<Longrightarrow> content_list h c l parts \<Longrightarrow> PRef a \<in> set parts \<Longrightarrow> Q h'"
proof (induction cs arbitrary: h)
  case Nil
  then show ?case by simp
next
  case (Cons m cs)
  note follow = rewrite_contents_follow [OF keep visit stays]
  show ?case
  proof (cases "m = PRef c")
    case True
    from Cons.prems(4) have g: "getitem h (PRef c) ''content'' = Inr (PRef l)"
      and al: "as_list h (PRef l) = Some parts"
      by (auto simp: content_list_def getitem_dict as_list_def)
    with Cons.prems(1) True obtain h1 where
      1: "rewrite_contents h parts = (None, h1)" and 2: "rewrite_messages h1 cs = (None, h')"
      by (auto split: prod.splits option.splits)
    from follow [OF 1 Cons.prems(2)] Cons.prems(5) have "Q h1" by blast
    with rewrite_messages_done [OF stays 2] show ?thesis by blast
  next
    case False
    with Cons.prems(3) have mem: "PRef c \<in> set cs" by simp
    from Cons.prems(1) consider
      (skip) "rewrite_messages h cs = (None, h')"
      | (parts) ps h1 where "rewrite_contents h ps = (None, h1)"
          "rewrite_messages h1 cs = (None, h')"
      by (auto split: sum.splits option.splits prod.splits)
    then show ?thesis
    proof cases
      case skip
      from Cons.IH [OF skip Cons.prems(2) mem Cons.prems(4,5)] show ?thesis .
    next
      case parts
      from follow [OF parts(1) Cons.prems(2)] have pq: "P h1 \<or> Q h1" by blast
      have "content_list h1 c l parts"
        using Cons.prems(4) rewrite_contents_evolves [OF parts(1)] by (rule content_list_evolves)
      from Cons.IH [OF parts(2) pq mem this Cons.prems(5)] show ?thesis .
    qed
  qed
qed

lemma image_part_url_append:
  assumes "image_part_url h a url"
  shows "image_part_url (h @ ext) a url"
proof -
  have look: "heap_lookup (h @ ext) x = Some obj" if "heap_lookup h x = Some obj" for x obj
    using that by (auto simp: heap_lookup_def nth_append split: if_splits)
  from assms show ?thesis
    unfolding image_part_url_def using look by blast
qed

lemma translate_messages_follow:
  assumes keep: "\<forall>h c h1. rewrite_content h c = (None, h1) \<longrightarrow> c \<noteq> PRef a \<longrightarrow> P h \<longrightarrow> P h1"
    and visit: "\<forall>h h1. rewrite_content h (PRef a) = (None, h1) \<longrightarrow> P h \<longrightarrow> Q h1"
    and stays: "\<forall>h c h1. rewrite_content h c = (None, h1) \<longrightarrow> Q h \<longrightarrow> Q h1"
    and grow: "\<forall>h ext. P h \<longrightarrow> P (h @ ext)"
    and tr: "translate_messages h ms = (Inr (system_prompt, claude_messages), h')"
    and m: "PRef m \<in> set (tl ms)"
    and cl: "content_list h m l parts"
    and a: "PRef a \<in> set parts"
    and p: "P h"
  shows "Q h'"
proof -
  from translate_messages_Inr [OF tr] obtain h1 where
    c: "copy_messages h (tl ms) = Inr (h1, claude_messages)"
    and r: "rewrite_messages h1 claude_messages = (None, h')"
    by blast
  from copy_messages_Inr [OF c] obtain ext where ext: "h1 = h @ ext"
    and all: "list_all2 (\<lambda>m c. \<exists>am ac dm. m = PRef am \<and> c = PRef ac \<and> length h \<le> ac
            \<and> heap_lookup h1 am = Some (PDict dm) \<and> heap_lookup h1 ac = Some (PDict dm))
          (tl ms) claude_messages"
    by blast
  have e0: "evolves h h1" unfolding ext by (rule evolves_append)
  from m obtain i where i: "i < length (tl ms)" "tl ms ! i = PRef m"
    by (auto simp: in_set_conv_nth)
  with all obtain ac dm where
    ci: "claude_messages ! i = PRef ac"
    and dm: "heap_lookup h1 m = Some (PDict dm)" "heap_lookup h1 ac = Some (PDict dm)"
    by (auto simp: list_all2_conv_all_nth)
  from i(1) list_all2_lengthD [OF all] have "i < length claude_messages"
    by simp
  with ci have mem: "PRef ac \<in> set claude_messages"
    by (metis nth_mem)
  have cl1: "content_list h1 m l parts" using cl e0 by (rule content_list_evolves)
  with dm have clc: "content_list h1 ac l parts"
    by (auto simp: content_list_def)
  from grow p ext have "P h1 \<or> Q h1" by blast
  from rewrite_messages_follow [OF keep visit stays r this mem clc a] show ?thesis .
qed

lemma translate_messages_translates:
  assumes "translate_messages h ms = (Inr (system_prompt, claude_messages), h')"
    and "PRef m \<in> set (tl ms)" and "content_list h m l parts" and "PRef a \<in> set parts"
    and "image_part_url h a url" and wf: "well_formed_data_url url media_type payload"
  shows "translated_part h' a media_type payload"
proof (rule translate_messages_follow
    [where P = "\<lambda>h. image_part_url h a url"
       and Q = "\<lambda>h. translated_part h a media_type payload", OF _ _ _ _ assms(1-5)])
  show "\<forall>h c h1. rewrite_content h c = (None, h1) \<longrightarrow> c \<noteq> PRef a \<longrightarrow>
      image_part_url h a url \<longrightarrow> image_part_url h1 a url"
    using rewrite_content_keeps_url by blast
  show "\<forall>h h1. rewrite_content h (PRef a) = (None, h1) \<longrightarrow> image_part_url h a url \<longrightarrow>
      translated_part h1 a media_type payload"
    using rewrite_content_translates wf by blast
  show "\<forall>h c h1. rewrite_content h c = (None, h1) \<longrightarrow>
      translated_part h a media_type payload \<longrightarrow> translated_part h1 a media_type payload"
    using rewrite_content_translated by blast
  show "\<forall>h ext. image_part_url h a url \<longrightarrow> image_part_url (h @ ext) a url"
    using image_part_url_append by blast
qed

lemma translate_messages_no_comma:
  assumes m: "PRef m \<in> set (tl ms)" and cl: "content_list h m l parts"
    and a: "PRef a \<in> set parts"
    and p: "image_part_url h a url" and nc: "CHR '','' \<notin> set url"
  shows "\<exists>e h''. translate_messages h ms = (Inl e, h'')"
proof (cases "translate_messages h ms")
  case (Pair r h'')
  show ?thesis
  proof (cases r)
    case (Inl e)
    with Pair show ?thesis by simp
  next
    case (Inr sc)
    then obtain system_prompt claude_messages where "sc = (system_prompt, claude_messages)"
      by (cases sc) simp
    with Pair Inr have tr:
      "translate_messages h ms = (Inr (system_prompt, claude_messages), h'')" by simp
    have False
    proof (rule translate_messages_follow
        [where P = "\<lambda>h. image_part_url h a url" and Q = "\<lambda>h. False", OF _ _ _ _ tr m cl a p])
      show "\<forall>h c h1. rewrite_content h c = (None, h1) \<longrightarrow> c \<noteq> PRef a \<longrightarrow>
          image_part_url h a url \<longrightarrow> image_part_url h1 a url"
        using rewrite_content_keeps_url by blast
      show "\<forall>h h1. rewrite_content h (PRef a) = (None, h1) \<longrightarrow> image_part_url h a url \<longrightarrow> False"
        using rewrite_content_no_comma [OF _ nc] by fastforce
      show "\<forall>h c h1. rewrite_content h c = (None, h1) \<longrightarrow> False \<longrightarrow> False"
        by simp
      show "\<forall>h ext. image_part_url h a url \<longrightarrow> image_part_url (h @ ext) a url"
        using image_part_url_append by blast
    qed
    then show ?thesis ..
  qed
qed

section \<open>The exceptions of the translation\<close>

lemma getitem_error: "getitem h v k = Inl e \<Longrightarrow> raised_by_translation e"
  by (auto simp: getitem_def raised_by_translation_def
      split: pyval.splits option.splits pyobj.splits)

lemma rewrite_content_error:
  assumes "rewrite_content h c = (Some e, h')"
  shows "raised_by_translation e"
proof (cases "getitem h c ''type''")
  case (Inl e')
  with assms show ?thesis by (auto simp: rewrite_content_def dest: getitem_error)
next
  case (Inr ty)
  show ?thesis
  proof (cases "ty = PStr ''image_url''")
    case False
    with assms Inr show ?thesis by (simp add: rewrite_content_def)
  next
    case True
    let ?h1 = "setitem h c ''type'' (PStr ''image'')"
    show ?thesis
    proof (cases "and_then (getitem ?h1 c ''image_url'') (\<lambda>iu. getitem ?h1 iu ''url'')")
      case (Inl e')
      then have "raised_by_translation e'"
        by (auto simp: and_then_def split: sum.splits dest: getitem_error)
      with assms Inr True Inl show ?thesis
        by (simp add: rewrite_content_def Let_def)
    next
      case url: (Inr v)
      show ?thesis
      proof (cases v)
        case PNone
        with assms Inr True url show ?thesis
          by (simp add: rewrite_content_def Let_def raised_by_translation_def)
      next
        case (PRef u)
        with assms Inr True url show ?thesis
          by (simp add: rewrite_content_def Let_def raised_by_translation_def)
      next
        case (PStr s)
        with assms Inr True url show ?thesis
          by (auto simp: rewrite_content_def Let_def raised_by_translation_def and_then_def
              heap_alloc_def split: sum.splits dest: item_Inl)
      qed
    qed
  qed
qed

lemma rewrite_contents_error:
  "rewrite_contents h ps = (Some e, h') \<Longrightarrow> raised_by_translation e"
  by (induction ps arbitrary: h)
     (auto split: prod.splits option.splits dest: rewrite_content_error)

lemma rewrite_messages_error:
  "rewrite_messages h cs = (Some e, h') \<Longrightarrow> raised_by_translation e"
  by (induction cs arbitrary: h)
     (auto split: sum.splits prod.splits option.splits
       dest: rewrite_contents_error getitem_error)

lemma copy_messages_error: "copy_messages h ms = Inl e \<Longrightarrow> e = IllTyped"
  by (induction ms arbitrary: h)
     (auto simp: heap_alloc_def split: pyval.splits option.splits pyobj.splits sum.splits)

lemma first_content_error: "first_content h ms = Inl e \<Longrightarrow> raised_by_translation e"
  by (auto simp: first_content_def raised_by_translation_def
      split: list.splits pyval.splits option.splits pyobj.splits)

lemma translate_messages_error:
  assumes "translate_messages h ms = (Inl e, h')"
  shows "raised_by_translation e"
  using assms
  by (auto simp: translate_messages_def
      split: sum.splits prod.splits option.splits
      dest: first_content_error rewrite_messages_error
      dest!: copy_messages_error simp: raised_by_translation_def)

lemma handle_exceptions_translation:
  "raised_by_translation e \<Longrightarrow>
     handle_exceptions (Raises e, w) = (Raises e, w\<lparr>stdout := stdout w @ [''An error occurred!'']\<rparr>)"
  by (auto simp: raised_by_translation_def)

lemma translation_fails_bedrock:
  assumes "translate_messages h ms = (Inl e, h')"
  shows "stream_claude_response_aws_bedrock gclient h ms =
           ((Raises e, empty_world\<lparr>stdout := [''An error occurred!'']\<rparr>), h')"
  using translation_fails [OF assms, where gclient = gclient]
    handle_exceptions_translation [OF translate_messages_error [OF assms], of empty_world]
  by (simp add: stream_claude_response_aws_bedrock_def empty_world_def)

section \<open>The copies of the messages\<close>

lemma copy_messages_addresses:
  "copy_messages h ms = Inr (h1, cs) \<Longrightarrow>
     cs = map PRef [length h ..< length h + length ms] \<and> length h1 = length h + length ms"
proof (induction ms arbitrary: h cs)
  case Nil
  then show ?case by simp
next
  case (Cons m ms)
  from Cons.prems obtain am d cs' where
    rest: "copy_messages (h @ [PDict d]) ms = Inr (h1, cs')"
    and cs: "cs = PRef (length h) # cs'"
    by (auto simp: heap_alloc_def split: pyval.splits option.splits pyobj.splits sum.splits)
  from Cons.IH [OF rest] have
    "cs' = map PRef [Suc (length h) ..< Suc (length h) + length ms]"
    "length h1 = Suc (length h) + length ms"
    by simp_all
  moreover have "[length h ..< length h + length (m # ms)]
      = length h # [Suc (length h) ..< Suc (length h) + length ms]"
    by (subst upt_rec) simp
  ultimately show ?case
    using cs by (simp del: upt_Suc)
qed

lemma keeps_fields_refl: "keeps_fields h h"
  by (simp add: keeps_fields_def)

lemma keeps_fields_dict:
  "keeps_fields h h' \<Longrightarrow> heap_lookup h x = Some (PDict d) \<Longrightarrow>
     \<exists>d'. heap_lookup h' x = Some (PDict d')
        \<and> (\<forall>k. k \<noteq> ''type'' \<and> k \<noteq> ''image_url'' \<and> k \<noteq> ''source'' \<longrightarrow>
               map_of d' k = map_of d k)"
  by (simp add: keeps_fields_def)

lemma keeps_fields_trans:
  assumes "keeps_fields h1 h2" and "keeps_fields h2 h3"
  shows "keeps_fields h1 h3"
  unfolding keeps_fields_def
proof (intro allI impI)
  fix x d assume "heap_lookup h1 x = Some (PDict d)"
  from keeps_fields_dict [OF assms(1) this] obtain d2 where
    d2: "heap_lookup h2 x = Some (PDict d2)"
        "\<forall>k. k \<noteq> ''type'' \<and> k \<noteq> ''image_url'' \<and> k \<noteq> ''source'' \<longrightarrow> map_of d2 k = map_of d k"
    by blast
  from keeps_fields_dict [OF assms(2) d2(1)] obtain d3 where
    d3: "heap_lookup h3 x = Some (PDict d3)"
        "\<forall>k. k \<noteq> ''type'' \<and> k \<noteq> ''image_url'' \<and> k \<noteq> ''source'' \<longrightarrow> map_of d3 k = map_of d2 k"
    by blast
  from d2(2) d3(2) have
    "\<forall>k. k \<noteq> ''type'' \<and> k \<noteq> ''image_url'' \<and> k \<noteq> ''source'' \<longrightarrow> map_of d3 k = map_of d k"
    by simp
  with d3(1) show "\<exists>d'. heap_lookup h3 x = Some (PDict d')
      \<and> (\<forall>k. k \<noteq> ''type'' \<and> k \<noteq> ''image_url'' \<and> k \<noteq> ''source'' \<longrightarrow> map_of d' k = map_of d k)"
    by blast
qed

lemma rewrite_step_keeps:
  assumes a: "heap_lookup h a = Some (PDict d)"
  shows "keeps_fields h (h[a := PDict (claude_part (length h) d)] @ [PDict src])"
    (is "keeps_fields h ?h'")
  unfolding keeps_fields_def
proof (intro allI impI)
  fix x dx assume x: "heap_lookup h x = Some (PDict dx)"
  from a have len: "a < length h" by (simp add: heap_lookup_SomeD)
  from x have lt: "x < length h" by (simp add: heap_lookup_SomeD)
  have look: "heap_lookup ?h' x =
      (if x = a then Some (PDict (claude_part (length h) d)) else heap_lookup h x)"
    using lt len by (simp add: heap_lookup_def nth_append)
  show "\<exists>d'. heap_lookup ?h' x = Some (PDict d')
      \<and> (\<forall>k. k \<noteq> ''type'' \<and> k \<noteq> ''image_url'' \<and> k \<noteq> ''source'' \<longrightarrow> map_of d' k = map_of dx k)"
  proof (cases "x = a")
    case True
    with x a have "dx = d" by simp
    with True look show ?thesis by (simp add: map_of_claude_part)
  next
    case False
    with x look show ?thesis by simp
  qed
qed

lemma rewrite_content_keeps:
  "rewrite_content h c = (None, h') \<Longrightarrow> keeps_fields h h'"
  by (auto dest!: rewrite_content_None simp: keeps_fields_refl rewrite_step_keeps)

lemma rewrite_contents_keeps:
  "rewrite_contents h ps = (None, h') \<Longrightarrow> keeps_fields h h'"
proof (induction ps arbitrary: h)
  case Nil
  then show ?case by (simp add: keeps_fields_refl)
next
  case (Cons c ps)
  then obtain h1 where "rewrite_content h c = (None, h1)" "rewrite_contents h1 ps = (None, h')"
    by (auto split: prod.splits option.splits)
  then show ?case
    using Cons.IH rewrite_content_keeps keeps_fields_trans by blast
qed

lemma rewrite_messages_keeps:
  "rewrite_messages h cs = (None, h') \<Longrightarrow> keeps_fields h h'"
proof (induction cs arbitrary: h)
  case Nil
  then show ?case by (simp add: keeps_fields_refl)
next
  case (Cons m cs)
  from Cons.prems obtain h1 where
    "keeps_fields h h1" "rewrite_messages h1 cs = (None, h')"
    by (auto split: sum.splits option.splits prod.splits
        intro: keeps_fields_refl rewrite_contents_keeps)
  then show ?case
    using Cons.IH keeps_fields_trans by blast
qed

lemma translate_messages_copies:
  assumes tr: "translate_messages h ms = (Inr (system_prompt, claude_messages), h')"
    and st: "in_store h (tl ms)"
  shows "list_all2 (copy_of h h') (tl ms) claude_messages"
proof -
  from translate_messages_Inr [OF tr] obtain h1 where
    c: "copy_messages h (tl ms) = Inr (h1, claude_messages)"
    and r: "rewrite_messages h1 claude_messages = (None, h')"
    by blast
  from copy_messages_Inr [OF c] obtain ext where
    ext: "h1 = h @ ext"
    and all: "list_all2 (\<lambda>m c. \<exists>am ac dm. m = PRef am \<and> c = PRef ac \<and> length h \<le> ac
            \<and> heap_lookup h1 am = Some (PDict dm) \<and> heap_lookup h1 ac = Some (PDict dm))
          (tl ms) claude_messages"
    by blast
  from r have k: "keeps_fields h1 h'" by (rule rewrite_messages_keeps)
  show ?thesis
    unfolding list_all2_conv_all_nth
  proof (intro conjI allI impI)
    show "length (tl ms) = length claude_messages"
      using all by (rule list_all2_lengthD)
  next
    fix i assume i: "i < length (tl ms)"
    with all obtain am ac dm where
      m: "tl ms ! i = PRef am" "claude_messages ! i = PRef ac" "length h \<le> ac"
         "heap_lookup h1 am = Some (PDict dm)" "heap_lookup h1 ac = Some (PDict dm)"
      by (auto simp: list_all2_conv_all_nth)
    from st i m(1) have "am < length h"
      by (auto simp: in_store_def list_all_length split: pyval.splits)
    with m(4) ext have hm: "heap_lookup h am = Some (PDict dm)"
      by (simp add: heap_lookup_append)
    from keeps_fields_dict [OF k m(5)] obtain d' where
      "heap_lookup h' ac = Some (PDict d')"
      "\<forall>k. k \<noteq> ''type'' \<and> k \<noteq> ''image_url'' \<and> k \<noteq> ''source'' \<longrightarrow> map_of d' k = map_of dm k"
      by blast
    with m hm show "copy_of h h' (tl ms ! i) (claude_messages ! i)"
      unfolding copy_of_def by blast
  qed
qed

lemma dumps_request_turns:
  assumes "dumps_request h cms sys = Inr body"
  shows "\<exists>js s. body = request_body js s \<and> collect (map (dumps h) cms) = Inr js
           \<and> length js = length cms \<and> dumps h sys = Inr s"
proof -
  from assms obtain js s where
    c: "collect (map (dumps h) cms) = Inr js" and s: "dumps h sys = Inr s"
    and b: "body = request_body js s"
    by (auto simp: dumps_request_def and_then_def split: sum.splits)
  from collect_length [OF c] have "length js = length cms" by simp
  with c s b show ?thesis by blast
qed

lemma translate_dialogue:
  "translate_messages dialogue_heap dialogue_messages =
     (Inr (PStr ''You write HTML.'', [PRef 4, PRef 5, PRef 6]),
      dialogue_heap @
        [PDict [(''role'', PStr ''user''), (''content'', PStr ''A login page'')],
         PDict [(''role'', PStr ''assistant''), (''content'', PStr ''<html></html>'')],
         PDict [(''role'', PStr ''user''), (''content'', PStr ''Add a title'')]])"
  by (simp add: translate_messages_def first_content_def dialogue_heap_def dialogue_messages_def
      heap_lookup_def heap_alloc_def getitem_def as_list_def)

lemma dumps_dialogue_request:
  "dumps_request
     (dialogue_heap @
        [PDict [(''role'', PStr ''user''), (''content'', PStr ''A login page'')],
         PDict [(''role'', PStr ''assistant''), (''content'', PStr ''<html></html>'')],
         PDict [(''role'', PStr ''user''), (''content'', PStr ''Add a title'')]])
     [PRef 4, PRef 5, PRef 6] (PStr ''You write HTML.'') =
   Inr (request_body
          [JObj [(''role'', JStr ''user''), (''content'', JStr ''A login page'')],
           JObj [(''role'', JStr ''assistant''), (''content'', JStr ''<html></html>'')],
           JObj [(''role'', JStr ''user''), (''content'', JStr ''Add a title'')]]
          (JStr ''You write HTML.''))"
  by (simp add: dumps_request_def dumps_def dialogue_heap_def heap_lookup_def and_then_def)

lemma dialogue_in_store: "in_store dialogue_heap (tl dialogue_messages)"
  by (simp add: in_store_def dialogue_heap_def dialogue_messages_def)

section \<open>The example translations\<close>

lemma translate_image_messages:
  "translate_messages image_heap image_messages =
     (Inr (PStr ''You write HTML.'', [PRef 6]),
      [PDict [(''role'', PStr ''system''), (''content'', PStr ''You write HTML.'')],
       PDict [(''role'', PStr ''user''), (''content'', PRef 2)],
       PList [PRef 3, PRef 5],
       PDict [(''type'', PStr ''image''), (''source'', PRef 7)],
       PDict [(''url'', PStr ''data:image/png;base64,AAAA''), (''detail'', PStr ''high'')],
       PDict [(''type'', PStr ''text''), (''text'', PStr ''Build this'')],
       PDict [(''role'', PStr ''user''), (''content'', PRef 2)],
       PDict [(''type'', PStr ''base64''), (''media_type'', PStr ''image/png''),
              (''data'', PStr ''AAAA'')]])"
  by (simp add: translate_messages_def first_content_def image_heap_def image_messages_def
      heap_lookup_def heap_alloc_def getitem_def setitem_def delitem_def as_list_def
      rewrite_content_def and_then_def item_def Let_def)

lemma translate_no_comma:
  "translate_messages no_comma_heap image_messages =
     (Inl IndexError,
      [PDict [(''role'', PStr ''system''), (''content'', PStr ''You write HTML.'')],
       PDict [(''role'', PStr ''user''), (''content'', PRef 2)],
       PList [PRef 3, PRef 5],
       PDict [(''type'', PStr ''image''), (''image_url'', PRef 4)],
       PDict [(''url'', PStr ''data:image/png;base64''), (''detail'', PStr ''high'')],
       PDict [(''type'', PStr ''text''), (''text'', PStr ''Build this'')],
       PDict [(''role'', PStr ''user''), (''content'', PRef 2)]])"
  by (simp add: translate_messages_def first_content_def no_comma_heap_def image_messages_def
      heap_lookup_def heap_alloc_def getitem_def setitem_def delitem_def as_list_def
      rewrite_content_def and_then_def item_def Let_def)

lemma image_heap_facts:
  "PRef 1 \<in> set (tl image_messages)"
  "content_list image_heap 1 2 [PRef 3, PRef 5]"
  "PRef 3 \<in> set [PRef 3, PRef 5]"
  "image_part image_heap 3"
  "image_part_url image_heap 3 ''data:image/png;base64,AAAA''"
  "well_formed_data_url ''data:image/png;base64,AAAA'' ''image/png'' ''AAAA''"
  by (simp_all add: image_messages_def content_list_def image_heap_def heap_lookup_def
      image_part_def image_part_url_def well_formed_data_url_def)

lemma no_comma_heap_facts:
  "content_list no_comma_heap 1 2 [PRef 3, PRef 5]"
  "image_part_url no_comma_heap 3 ''data:image/png;base64''"
  "CHR '','' \<notin> set ''data:image/png;base64''"
  by (simp_all add: content_list_def no_comma_heap_def heap_lookup_def image_part_url_def)

lemma request_body_fields:
  "\<exists>kvs. request_body js s = JObj kvs
        \<and> map_of kvs ''system'' = Some s \<and> map_of kvs ''messages'' = Some (JArr js)
        \<and> length (filter (\<lambda>kv. fst kv = ''system'') kvs) = 1"
  by (simp add: request_body_def)

section \<open>The two passes, whatever the outcome\<close>

lemma native_pass_sent:
  "sent (snd (snd (native_pass env client sp it model n (v, w))))
     = sent w @ [native_params model sp (messages_to_send it (messages v))]"
  by (simp add: native_pass_def Let_def stream_texts_eq write_pass_files_def
      split: sum.splits option.splits)

lemma native_pass_Some:
  "native_pass env client sp it model n (v, w) = (Some e, v', w') \<Longrightarrow> messages v' = messages v"
  by (auto simp: native_pass_def Let_def stream_texts_eq split: sum.splits option.splits)

lemma native_run_vars:
  assumes "native_passes env client sp it model (Suc 0)
             (\<lparr>messages = msgs, full_stream = [], response = None\<rparr>, empty_world) = (eo, v, w)"
  shows "fst (snd (stream_claude_response_native env client sp msgs it model)) = v
       \<and> sent (snd (snd (stream_claude_response_native env client sp msgs it model))) = sent w"
  using assms
  by (cases eo) (simp_all add: stream_claude_response_native_def Let_def
      split: option.splits sum.splits)

lemma native_run_shape:
  "(sent (snd (snd (stream_claude_response_native env client sp msgs it model)))
        = [native_params model sp (messages_to_send it msgs)]
      \<and> messages (fst (snd (stream_claude_response_native env client sp msgs it model))) = msgs)
   \<or> (\<exists>t1. native_pass_text client 1 (native_params model sp (messages_to_send it msgs)) = Inr t1
         \<and> sent (snd (snd (stream_claude_response_native env client sp msgs it model)))
             = [native_params model sp (messages_to_send it msgs),
                native_params model sp (messages_to_send it (msgs @ next_pass_turns t1))]
         \<and> (messages (fst (snd (stream_claude_response_native env client sp msgs it model)))
               = msgs @ next_pass_turns t1
            \<or> (\<exists>t2. native_pass_text client 2
                        (native_params model sp (messages_to_send it (msgs @ next_pass_turns t1)))
                        = Inr t2
                  \<and> messages (fst (snd (stream_claude_response_native env client sp msgs it model)))
                      = msgs @ next_pass_turns t1 @ next_pass_turns t2)))"
proof -
  let ?st0 = "(\<lparr>messages = msgs, full_stream = [], response = None\<rparr>, empty_world)
               :: final_message loop_vars \<times> native_params world"
  let ?R = "stream_claude_response_native env client sp msgs it model"
  let ?p1 = "native_params model sp (messages_to_send it msgs)"
  have two: "(2::nat) = Suc (Suc 0)" by simp
  obtain e1 v1 w1 where p1: "native_pass env client sp it model (Suc (Suc 0)) ?st0 = (e1, v1, w1)"
    by (metis prod_cases3)
  from native_pass_sent [of env client sp it model "Suc (Suc 0)" "fst ?st0" "snd ?st0"] p1
  have s1: "sent w1 = [?p1]"
    by (simp add: empty_world_def)
  show ?thesis
  proof (cases e1)
    case (Some e)
    with p1 have "native_passes env client sp it model (Suc 0) ?st0 = (Some e, v1, w1)"
      by (simp add: native_passes_twice)
    from native_run_vars [OF this] have "fst (snd ?R) = v1" "sent (snd (snd ?R)) = sent w1"
      by simp_all
    moreover from p1 Some have "messages v1 = msgs"
      by (auto dest: native_pass_Some)
    ultimately show ?thesis using s1 by simp
  next
    case None
    from native_pass_None [OF p1 [unfolded None]] obtain s1' r1 t1 where
      a: "client (Suc 0) ?p1 = Inr s1'" "get_final_message s1' = Inr r1" "first_text r1 = Inr t1"
         "messages v1 = msgs @ next_pass_turns t1"
      by auto
    then have t1: "native_pass_text client 1 ?p1 = Inr t1"
      by (simp add: native_pass_text_def and_then_def)
    let ?p2 = "native_params model sp (messages_to_send it (msgs @ next_pass_turns t1))"
    obtain e2 v2 w2 where
      p2: "native_pass env client sp it model (Suc (Suc (Suc 0))) (v1, w1) = (e2, v2, w2)"
      by (metis prod_cases3)
    from native_pass_sent [of env client sp it model "Suc (Suc (Suc 0))" v1 w1] p2 s1 a(4)
    have s2: "sent w2 = [?p1, ?p2]"
      by simp
    from p1 None p2 have "native_passes env client sp it model (Suc 0) ?st0 = (e2, v2, w2)"
      by (simp add: native_passes_twice)
    from native_run_vars [OF this] have R: "fst (snd ?R) = v2" "sent (snd (snd ?R)) = sent w2"
      by simp_all
    show ?thesis
    proof (cases e2)
      case (Some e)
      with p2 have "messages v2 = messages v1"
        by (auto dest: native_pass_Some)
      with a(4) t1 s2 R show ?thesis by auto
    next
      case None
      from native_pass_None [OF p2 [unfolded None]] a(4) obtain s2' r2 t2 where
        b: "client (Suc (Suc 0)) ?p2 = Inr s2'" "get_final_message s2' = Inr r2"
           "first_text r2 = Inr t2" "messages v2 = messages v1 @ next_pass_turns t2"
        by auto
      then have "native_pass_text client 2 ?p2 = Inr t2"
        by (simp add: native_pass_text_def and_then_def two)
      with b(4) a(4) t1 s2 R show ?thesis by auto
    qed
  qed
qed

lemma consume_pass_events_sent:
  "sent (snd (snd (snd (consume_pass_events evs (rt, fs, w))))) = sent w"
proof (induction evs arbitrary: rt fs w)
  case Nil
  then show ?case by simp
next
  case (Cons ev evs)
  show ?case
    by (simp add: Cons.IH split: sum.splits option.splits json.splits)
qed

lemma gateway_pass_sent:
  "sent (snd (snd (gateway_pass env client sp it n (v, w))))
     = sent w @ [invoke_params (request_body (messages_to_send it (messages v)) (JStr sp))]"
proof (cases "client (n - 1)
    (invoke_params (request_body (messages_to_send it (messages v)) (JStr sp)))")
  case (Inl e)
  then show ?thesis by (simp add: gateway_pass_def Let_def)
next
  case (Inr r)
  let ?w1 = "w\<lparr>stdout := stdout w @ pprint_prompt env (messages_to_send it (messages v)),
      sent := sent w @
        [invoke_params (request_body (messages_to_send it (messages v)) (JStr sp))]\<rparr>"
  obtain eo rt fs w2 where
    c: "consume_pass_events (response_events r) ([], full_stream v, ?w1) = (eo, rt, fs, w2)"
    by (metis prod_cases4)
  from consume_pass_events_sent [of "response_events r" "[]" "full_stream v" ?w1] c
  have "sent w2 = sent ?w1" by simp
  with Inr c show ?thesis
    by (cases eo) (simp_all add: gateway_pass_def Let_def response_events_def
        split: option.splits)
qed

lemma gateway_pass_Some:
  "gateway_pass env client sp it n (v, w) = (Some e, v', w') \<Longrightarrow> messages v' = messages v"
  by (auto simp: gateway_pass_def Let_def split: sum.splits option.splits prod.splits)

lemma gateway_run_vars:
  assumes "gateway_passes env client sp it (Suc 0)
             (\<lparr>messages = msgs, full_stream = [], response = None\<rparr>, empty_world) = (eo, v, w)"
  shows "snd (stream_claude_response_native_aws_bedrock env client sp msgs it) = v
       \<and> sent (snd (fst (stream_claude_response_native_aws_bedrock env client sp msgs it)))
           = sent w"
proof -
  have "snd (gateway_try env client sp msgs it) = v
      \<and> sent (snd (fst (gateway_try env client sp msgs it))) = sent w"
    using assms
    by (cases eo) (simp_all add: gateway_try_def
        split: option.splits bedrock_response.splits)
  moreover obtain r w0 v0 where g: "gateway_try env client sp msgs it = ((r, w0), v0)"
    by (cases "gateway_try env client sp msgs it") auto
  ultimately show ?thesis
    using sent_handle_exceptions [of "(r, w0)"]
    by (simp add: stream_claude_response_native_aws_bedrock_def)
qed

lemma gateway_run_shape:
  "(sent (snd (fst (stream_claude_response_native_aws_bedrock env client sp msgs it)))
        = [invoke_params (request_body (messages_to_send it msgs) (JStr sp))]
      \<and> messages (snd (stream_claude_response_native_aws_bedrock env client sp msgs it)) = msgs)
   \<or> (\<exists>t1. gateway_pass_text client 1
               (invoke_params (request_body (messages_to_send it msgs) (JStr sp))) = Inr t1
         \<and> sent (snd (fst (stream_claude_response_native_aws_bedrock env client sp msgs it)))
             = [invoke_params (request_body (messages_to_send it msgs) (JStr sp)),
                invoke_params
                  (request_body (messages_to_send it (msgs @ next_pass_turns t1)) (JStr sp))]
         \<and> (messages (snd (stream_claude_response_native_aws_bedrock env client sp msgs it))
               = msgs @ next_pass_turns t1
            \<or> (\<exists>t2. gateway_pass_text client 2
                        (invoke_params
                           (request_body (messages_to_send it (msgs @ next_pass_turns t1))
                              (JStr sp))) = Inr t2
                  \<and> messages (snd (stream_claude_response_native_aws_bedrock env client sp msgs it))
                      = msgs @ next_pass_turns t1 @ next_pass_turns t2)))"
proof -
  let ?st0 = "(\<lparr>messages = msgs, full_stream = [], response = None\<rparr>, empty_world)
               :: bedrock_response loop_vars \<times> invoke_params world"
  let ?R = "stream_claude_response_native_aws_bedrock env client sp msgs it"
  let ?p1 = "invoke_params (request_body (messages_to_send it msgs) (JStr sp))"
  have two: "(2::nat) = Suc (Suc 0)" by simp
  obtain e1 v1 w1 where p1: "gateway_pass env client sp it (Suc (Suc 0)) ?st0 = (e1, v1, w1)"
    by (metis prod_cases3)
  from gateway_pass_sent [of env client sp it "Suc (Suc 0)" "fst ?st0" "snd ?st0"] p1
  have s1: "sent w1 = [?p1]"
    by (simp add: empty_world_def)
  show ?thesis
  proof (cases e1)
    case (Some e)
    with p1 have "gateway_passes env client sp it (Suc 0) ?st0 = (Some e, v1, w1)"
      by (simp add: gateway_passes_twice)
    from gateway_run_vars [OF this] have "snd ?R = v1" "sent (snd (fst ?R)) = sent w1"
      by simp_all
    moreover from p1 Some have "messages v1 = msgs"
      by (auto dest: gateway_pass_Some)
    ultimately show ?thesis using s1 by simp
  next
    case None
    from gateway_pass_None [OF p1 [unfolded None]] obtain r1 where
      a: "client (Suc 0) ?p1 = Inr r1"
         "messages v1 = msgs @ next_pass_turns (concat (delta_texts (response_events r1)))"
      by auto
    let ?t1 = "concat (delta_texts (response_events r1))"
    from a have t1: "gateway_pass_text client 1 ?p1 = Inr ?t1"
      by (simp add: gateway_pass_text_def and_then_def)
    let ?p2 = "invoke_params
      (request_body (messages_to_send it (msgs @ next_pass_turns ?t1)) (JStr sp))"
    obtain e2 v2 w2 where
      p2: "gateway_pass env client sp it (Suc (Suc (Suc 0))) (v1, w1) = (e2, v2, w2)"
      by (metis prod_cases3)
    from gateway_pass_sent [of env client sp it "Suc (Suc (Suc 0))" v1 w1] p2 s1 a(2)
    have s2: "sent w2 = [?p1, ?p2]"
      by simp
    from p1 None p2 have "gateway_passes env client sp it (Suc 0) ?st0 = (e2, v2, w2)"
      by (simp add: gateway_passes_twice)
    from gateway_run_vars [OF this] have R: "snd ?R = v2" "sent (snd (fst ?R)) = sent w2"
      by simp_all
    show ?thesis
    proof (cases e2)
      case (Some e)
      with p2 have "messages v2 = messages v1"
        by (auto dest: gateway_pass_Some)
      with a(2) t1 s2 R show ?thesis by auto
    next
      case None
      from gateway_pass_None [OF p2 [unfolded None]] a(2) obtain r2 where
        b: "client (Suc (Suc 0)) ?p2 = Inr r2"
           "messages v2 = messages v1 @ next_pass_turns (concat (delta_texts (response_events r2)))"
        by auto
      then have "gateway_pass_text client 2 ?p2
          = Inr (concat (delta_texts (response_events r2)))"
        by (simp add: gateway_pass_text_def and_then_def two)
      with b(2) a(2) t1 s2 R show ?thesis by auto
    qed
  qed
qed

lemma prefix_turn_appended:
  "turn ''assistant'' prefix \<in> set (next_pass_turns t) \<longleftrightarrow> t = []"
  by (auto simp: next_pass_turns_def turn_def)

lemma silent_gateway_run:
  "fst (fst (stream_claude_response_native_aws_bedrock env_off silent_gateway_client sp msgs it))
     = Returns []
   \<and> messages (snd (stream_claude_response_native_aws_bedrock env_off silent_gateway_client sp
        msgs it)) = msgs @ next_pass_turns [] @ next_pass_turns []"
  by (simp add: stream_claude_response_native_aws_bedrock_def gateway_try_def
      gateway_passes_twice gateway_pass_def Let_def
      silent_gateway_client_def env_off_def event_text_other)

lemma silent_native_run:
  "fst (stream_claude_response_native env_off silent_native_client sp msgs it model)
     = Returns []
   \<and> messages (fst (snd (stream_claude_response_native env_off silent_native_client sp
        msgs it model))) = msgs @ next_pass_turns [] @ next_pass_turns []"
  by (simp add: stream_claude_response_native_def native_passes_twice native_pass_def Let_def
      silent_native_client_def env_off_def write_pass_files_def first_text_def)

lemma native_A_then_error_run:
  "fst (stream_claude_response_native env_off native_client_A_then_error sp msgs it model)
     = Raises (TransportError ''overloaded'')
   \<and> messages (fst (snd (stream_claude_response_native env_off native_client_A_then_error sp
        msgs it model))) = msgs @ next_pass_turns ''A''
   \<and> sent (snd (snd (stream_claude_response_native env_off native_client_A_then_error sp
        msgs it model)))
       = [native_params model sp (messages_to_send it msgs),
          native_params model sp (messages_to_send it (msgs @ next_pass_turns ''A''))]"
  by (simp add: stream_claude_response_native_def native_passes_twice native_pass_def Let_def
      native_client_A_then_error_def text_message_def env_off_def write_pass_files_def
      first_text_def stream_texts_eq empty_world_def)

lemma gateway_A_then_error_run:
  "fst (fst (stream_claude_response_native_aws_bedrock env_off gateway_client_A_then_error sp
        msgs it)) = Raises (TransportError ''overloaded'')
   \<and> messages (snd (stream_claude_response_native_aws_bedrock env_off
        gateway_client_A_then_error sp msgs it)) = msgs @ next_pass_turns ''A''
   \<and> sent (snd (fst (stream_claude_response_native_aws_bedrock env_off
        gateway_client_A_then_error sp msgs it)))
       = [invoke_params (request_body (messages_to_send it msgs) (JStr sp)),
          invoke_params
            (request_body (messages_to_send it (msgs @ next_pass_turns ''A'')) (JStr sp))]"
  by (simp add: stream_claude_response_native_aws_bedrock_def gateway_try_def
      gateway_passes_twice gateway_pass_def Let_def
      gateway_client_A_then_error_def env_off_def event_text_delta empty_world_def)

section \<open>Model-name conversion\<close>

lemma Llm_of_value_value: "Llm_of_value (llm_value m) = Inr m"
  by (cases m) (simp_all add: Llm_of_value_def Llm_members_def)

lemma Llm_of_value_unknown:
  assumes "s \<notin> llm_value ` set Llm_members"
  shows "Llm_of_value s = Inl ValueError"
proof -
  have "find (\<lambda>m. llm_value m = s) Llm_members = None"
    using assms by (auto simp: find_None_iff)
  then show ?thesis by (simp add: Llm_of_value_def)
qed

text \<open>
  Claim C7. \<^verbatim>\<open>convert_frontend_str_to_llm\<close> maps the legacy short name \<^verbatim>\<open>gpt_4_vision\<close> to
  the GPT-4 vision member (value \<^verbatim>\<open>gpt-4-vision-preview\<close>) and \<^verbatim>\<open>claude_3_sonnet\<close> to the
  Claude 3 Sonnet member (value \<^verbatim>\<open>claude-3-sonnet-20240229\<close>); every string that is neither
  a legacy name nor the value of an enum member raises \<^verbatim>\<open>ValueError\<close> (the spec's
  InvalidModel) and is never passed through. The function is pure: it receives no
  transport, so it fails before any request can be made.
\<close>

theorem convert_frontend_str_to_llm_closed:
  "convert_frontend_str_to_llm ''gpt_4_vision'' = Inr GPT_4_VISION
   \<and> llm_value GPT_4_VISION = ''gpt-4-vision-preview''
   \<and> convert_frontend_str_to_llm ''claude_3_sonnet'' = Inr CLAUDE_3_SONNET
   \<and> llm_value CLAUDE_3_SONNET = ''claude-3-sonnet-20240229''
   \<and> (\<forall>s. s \<notin> recognised_names \<longrightarrow> convert_frontend_str_to_llm s = Inl ValueError)
   \<and> (\<forall>s m. convert_frontend_str_to_llm s = Inr m \<longrightarrow> s \<in> recognised_names)"
proof -
  have unknown: "convert_frontend_str_to_llm s = Inl ValueError"
    if "s \<notin> recognised_names" for s
    using that Llm_of_value_unknown [of s]
    by (simp add: convert_frontend_str_to_llm_def recognised_names_def)
  have known: "s \<in> recognised_names" if "convert_frontend_str_to_llm s = Inr m" for s m
  proof (rule ccontr)
    assume "s \<notin> recognised_names"
    then have "convert_frontend_str_to_llm s = Inl ValueError" by (rule unknown)
    with that show False by simp
  qed
  show ?thesis
    using unknown known by (simp add: convert_frontend_str_to_llm_def)
qed

theorem convert_frontend_str_to_llm_closed_witness:
  "''gpt-5'' \<notin> recognised_names
   \<and> convert_frontend_str_to_llm ''gpt-5'' = Inl ValueError
   \<and> convert_frontend_str_to_llm ''claude-3-opus-20240229'' = Inr CLAUDE_3_OPUS
   \<and> ''claude-3-opus-20240229'' \<in> recognised_names"
proof -
  have a: "''gpt-5'' \<notin> recognised_names"
    by (simp add: recognised_names_def Llm_members_def)
  have b: "convert_frontend_str_to_llm ''claude-3-opus-20240229'' = Inr CLAUDE_3_OPUS"
    by (simp add: convert_frontend_str_to_llm_def Llm_of_value_def Llm_members_def)
  show ?thesis
    using a b convert_frontend_str_to_llm_closed by blast
qed

section \<open>Properties of the multi-pass flow and of the exception handlers\<close>

text \<open>
  Claim C2. The value returned after the loop is to be the full response text of the
  second pass: with a client that answers \<^verbatim>\<open>A\<close> on pass 1 and \<^verbatim>\<open>B\<close> on pass 2 the call
  returns \<^verbatim>\<open>B\<close>. \<^verbatim>\<open>stream_claude_response_native\<close> returns
  \<^verbatim>\<open>response.content[0].text\<close> of the last pass and gives \<^verbatim>\<open>B\<close>;
  \<^verbatim>\<open>stream_claude_response_native_aws_bedrock\<close> returns \<^verbatim>\<open>full_stream\<close>, the debugging
  accumulator of both passes, and gives \<^verbatim>\<open>AB\<close>.
\<close>

theorem multi_pass_returns_AB:
  "fst (stream_claude_response_native env_off native_client_AB ''sys'' [turn ''user'' ''hi'']
          False CLAUDE_3_OPUS) = Returns ''B''
   \<and> fst (fst (stream_claude_response_native_aws_bedrock env_off gateway_client_AB ''sys''
          [turn ''user'' ''hi''] False)) = Returns ''AB''"
  by (simp add: native_AB_run gateway_AB_run)

text \<open>
  Claim C4. A client error during a managed-gateway call is to be logged and raised
  again. Both managed-gateway functions catch \<^verbatim>\<open>ClientError\<close>, print the message and fall
  off the end of the function: the caller gets \<^verbatim>\<open>None\<close> and no exception. Any other
  exception is printed and raised again, as the last equation shows.
\<close>

theorem client_error_swallowed:
  "fst (stream_claude_response_aws_bedrock (\<lambda>params. Inl (ClientError ''Access denied''))
          text_heap text_messages)
     = (ReturnsNone,
        \<lparr>sink = [], stdout = [''A client error occurred: Access denied''], files = [],
         sent = [invoke_params
                   (request_body
                      [JObj [(''role'', JStr ''user''), (''content'', JStr ''A login page'')]]
                      (JStr ''You write HTML.''))]\<rparr>)
   \<and> fst (stream_claude_response_native_aws_bedrock env_off
          (\<lambda>k params. Inl (ClientError ''Too many requests'')) ''sys'' [turn ''user'' ''hi''] False)
     = (ReturnsNone,
        \<lparr>sink = [], stdout = [''A client error occurred: Too many requests''], files = [],
         sent = [invoke_params (request_body [turn ''user'' ''hi''] (JStr ''sys''))]\<rparr>)
   \<and> fst (fst (stream_claude_response_aws_bedrock (\<lambda>params. Inl (TransportError ''timeout''))
          text_heap text_messages)) = Raises (TransportError ''timeout'')"
  by (simp add: stream_claude_response_aws_bedrock_def bedrock_try_def translate_text_messages
      dumps_text_request empty_world_def
      stream_claude_response_native_aws_bedrock_def gateway_try_refused
      env_off_def messages_to_send_def)




text \<open>
  Claim C8, as stated: with \<^verbatim>\<open>include_thinking\<close> set, the assistant turn that holds only
  the \<^verbatim>\<open><thinking>\<close> prefix goes into the outgoing request and the caller's message list
  never contains such an entry. The turn appended to the caller's list after a pass is
  \<^verbatim>\<open>str(prefix) + response_text\<close>, lines 282 and 389, which is the prefix-only entry when
  the text of the pass is empty: with a managed-gateway body that has no content delta,
  or a final message whose first block is the empty text, the caller's list ends up
  with two such entries, though it had none.
\<close>

theorem no_bare_prefix_entry_counterexample:
  "fst (fst (stream_claude_response_native_aws_bedrock env_off silent_gateway_client ''sys''
          [turn ''user'' ''hi''] True)) = Returns []
   \<and> messages (snd (stream_claude_response_native_aws_bedrock env_off silent_gateway_client
          ''sys'' [turn ''user'' ''hi''] True))
       = [turn ''user'' ''hi'',
          turn ''assistant'' ''<thinking>'', turn ''user'' improvement_request,
          turn ''assistant'' ''<thinking>'', turn ''user'' improvement_request]
   \<and> fst (stream_claude_response_native env_off silent_native_client ''sys''
          [turn ''user'' ''hi''] True CLAUDE_3_OPUS) = Returns []
   \<and> messages (fst (snd (stream_claude_response_native env_off silent_native_client ''sys''
          [turn ''user'' ''hi''] True CLAUDE_3_OPUS)))
       = [turn ''user'' ''hi'',
          turn ''assistant'' ''<thinking>'', turn ''user'' improvement_request,
          turn ''assistant'' ''<thinking>'', turn ''user'' improvement_request]
   \<and> turn ''assistant'' prefix = turn ''assistant'' ''<thinking>''
   \<and> turn ''assistant'' prefix \<notin> set [turn ''user'' ''hi'']"
  by (simp add: silent_gateway_run silent_native_run next_pass_turns_def prefix_def turn_def)

text \<open>
  Claim C8, amended. With \<^verbatim>\<open>include_thinking\<close> set, the message list of every request
  sent is the caller's list as it is at that pass followed by the assistant turn that
  holds only the \<^verbatim>\<open><thinking>\<close> prefix; \<^verbatim>\<open>messages + [...]\<close> builds that list and leaves the
  caller's list alone. Whatever the outcome of the call, the caller's list afterwards
  is the original list followed by \<open>next_pass_turns\<close> of the text of each pass that was
  completed: of none when the first pass raises, of pass 1 when the second raises, of
  both otherwise, and of both when the call returns. For a client whose answers do not
  depend on the request, the outcome and the caller's list are the same with the toggle
  on and off. The assistant turn that \<open>next_pass_turns\<close> appends is the prefix-only turn
  exactly when the text of the pass is empty.
\<close>

theorem prefix_turn_in_requests_only:
  "((map sp_messages (sent (snd (snd (stream_claude_response_native env client sp msgs True
          model)))) = [msgs @ [turn ''assistant'' prefix]]
      \<and> messages (fst (snd (stream_claude_response_native env client sp msgs True model)))
          = msgs)
    \<or> (\<exists>t1. native_pass_text client 1
                (native_params model sp (msgs @ [turn ''assistant'' prefix])) = Inr t1
          \<and> map sp_messages (sent (snd (snd (stream_claude_response_native env client sp msgs
                True model))))
              = [msgs @ [turn ''assistant'' prefix],
                 (msgs @ next_pass_turns t1) @ [turn ''assistant'' prefix]]
          \<and> (messages (fst (snd (stream_claude_response_native env client sp msgs True model)))
                = msgs @ next_pass_turns t1
             \<or> (\<exists>t2. native_pass_text client 2
                         (native_params model sp
                            ((msgs @ next_pass_turns t1) @ [turn ''assistant'' prefix])) = Inr t2
                   \<and> messages (fst (snd (stream_claude_response_native env client sp msgs True
                         model))) = msgs @ next_pass_turns t1 @ next_pass_turns t2))))
   \<and> ((map ip_body (sent (snd (fst (stream_claude_response_native_aws_bedrock env gclient sp
          msgs True)))) = [request_body (msgs @ [turn ''assistant'' prefix]) (JStr sp)]
      \<and> messages (snd (stream_claude_response_native_aws_bedrock env gclient sp msgs True))
          = msgs)
    \<or> (\<exists>t1. gateway_pass_text gclient 1
                (invoke_params (request_body (msgs @ [turn ''assistant'' prefix]) (JStr sp)))
                = Inr t1
          \<and> map ip_body (sent (snd (fst (stream_claude_response_native_aws_bedrock env gclient
                sp msgs True))))
              = [request_body (msgs @ [turn ''assistant'' prefix]) (JStr sp),
                 request_body ((msgs @ next_pass_turns t1) @ [turn ''assistant'' prefix])
                   (JStr sp)]
          \<and> (messages (snd (stream_claude_response_native_aws_bedrock env gclient sp msgs True))
                = msgs @ next_pass_turns t1
             \<or> (\<exists>t2. gateway_pass_text gclient 2
                         (invoke_params
                            (request_body
                               ((msgs @ next_pass_turns t1) @ [turn ''assistant'' prefix])
                               (JStr sp))) = Inr t2
                   \<and> messages (snd (stream_claude_response_native_aws_bedrock env gclient sp
                         msgs True)) = msgs @ next_pass_turns t1 @ next_pass_turns t2))))
   \<and> (stream_claude_response_native env client sp msgs True model = (Returns t, v, w) \<longrightarrow>
      (\<exists>t1 t2.
          native_pass_text client 1
            (native_params model sp (msgs @ [turn ''assistant'' prefix])) = Inr t1
        \<and> native_pass_text client 2
            (native_params model sp
               ((msgs @ next_pass_turns t1) @ [turn ''assistant'' prefix])) = Inr t2
        \<and> map sp_messages (sent w) =
            [msgs @ [turn ''assistant'' prefix],
             (msgs @ next_pass_turns t1) @ [turn ''assistant'' prefix]]
        \<and> messages v = msgs @ next_pass_turns t1 @ next_pass_turns t2))
   \<and> (stream_claude_response_native_aws_bedrock env gclient sp msgs True = ((Returns t', w'), v') \<longrightarrow>
      (\<exists>t1 t2.
          gateway_pass_text gclient 1
            (invoke_params (request_body (msgs @ [turn ''assistant'' prefix]) (JStr sp)))
            = Inr t1
        \<and> gateway_pass_text gclient 2
            (invoke_params
               (request_body ((msgs @ next_pass_turns t1) @ [turn ''assistant'' prefix])
                  (JStr sp))) = Inr t2
        \<and> map ip_body (sent w') =
            [request_body (msgs @ [turn ''assistant'' prefix]) (JStr sp),
             request_body ((msgs @ next_pass_turns t1) @ [turn ''assistant'' prefix]) (JStr sp)]
        \<and> messages v' = msgs @ next_pass_turns t1 @ next_pass_turns t2))
   \<and> (turn ''assistant'' prefix \<in> set (next_pass_turns t0) \<longleftrightarrow> t0 = [])
   \<and> ((\<forall>k p p'. client k p = client k p') \<longrightarrow>
        fst (stream_claude_response_native env client sp msgs True model)
          = fst (stream_claude_response_native env client sp msgs False model)
      \<and> messages (fst (snd (stream_claude_response_native env client sp msgs True model)))
          = messages (fst (snd (stream_claude_response_native env client sp msgs False model))))
   \<and> ((\<forall>k p p'. gclient k p = gclient k p') \<longrightarrow>
        fst (fst (stream_claude_response_native_aws_bedrock env gclient sp msgs True))
          = fst (fst (stream_claude_response_native_aws_bedrock env gclient sp msgs False))
      \<and> messages (snd (stream_claude_response_native_aws_bedrock env gclient sp msgs True))
          = messages (snd (stream_claude_response_native_aws_bedrock env gclient sp msgs False)))"
proof (intro conjI impI)
  show "(map sp_messages (sent (snd (snd (stream_claude_response_native env client sp msgs True
          model)))) = [msgs @ [turn ''assistant'' prefix]]
      \<and> messages (fst (snd (stream_claude_response_native env client sp msgs True model)))
          = msgs)
    \<or> (\<exists>t1. native_pass_text client 1
                (native_params model sp (msgs @ [turn ''assistant'' prefix])) = Inr t1
          \<and> map sp_messages (sent (snd (snd (stream_claude_response_native env client sp msgs
                True model))))
              = [msgs @ [turn ''assistant'' prefix],
                 (msgs @ next_pass_turns t1) @ [turn ''assistant'' prefix]]
          \<and> (messages (fst (snd (stream_claude_response_native env client sp msgs True model)))
                = msgs @ next_pass_turns t1
             \<or> (\<exists>t2. native_pass_text client 2
                         (native_params model sp
                            ((msgs @ next_pass_turns t1) @ [turn ''assistant'' prefix])) = Inr t2
                   \<and> messages (fst (snd (stream_claude_response_native env client sp msgs True
                         model))) = msgs @ next_pass_turns t1 @ next_pass_turns t2)))"
    using native_run_shape [of env client sp msgs True model]
    by (elim disjE exE conjE) (simp_all add: messages_to_send_def native_params_def)
next
  show "(map ip_body (sent (snd (fst (stream_claude_response_native_aws_bedrock env gclient sp
          msgs True)))) = [request_body (msgs @ [turn ''assistant'' prefix]) (JStr sp)]
      \<and> messages (snd (stream_claude_response_native_aws_bedrock env gclient sp msgs True))
          = msgs)
    \<or> (\<exists>t1. gateway_pass_text gclient 1
                (invoke_params (request_body (msgs @ [turn ''assistant'' prefix]) (JStr sp)))
                = Inr t1
          \<and> map ip_body (sent (snd (fst (stream_claude_response_native_aws_bedrock env gclient
                sp msgs True))))
              = [request_body (msgs @ [turn ''assistant'' prefix]) (JStr sp),
                 request_body ((msgs @ next_pass_turns t1) @ [turn ''assistant'' prefix])
                   (JStr sp)]
          \<and> (messages (snd (stream_claude_response_native_aws_bedrock env gclient sp msgs True))
                = msgs @ next_pass_turns t1
             \<or> (\<exists>t2. gateway_pass_text gclient 2
                         (invoke_params
                            (request_body
                               ((msgs @ next_pass_turns t1) @ [turn ''assistant'' prefix])
                               (JStr sp))) = Inr t2
                   \<and> messages (snd (stream_claude_response_native_aws_bedrock env gclient sp
                         msgs True)) = msgs @ next_pass_turns t1 @ next_pass_turns t2)))"
    using gateway_run_shape [of env gclient sp msgs True]
    by (elim disjE exE conjE) (simp_all add: messages_to_send_def invoke_params_def)
next
  assume "stream_claude_response_native env client sp msgs True model = (Returns t, v, w)"
  from native_run_Returns [OF this] show
    "\<exists>t1 t2.
          native_pass_text client 1
            (native_params model sp (msgs @ [turn ''assistant'' prefix])) = Inr t1
        \<and> native_pass_text client 2
            (native_params model sp
               ((msgs @ next_pass_turns t1) @ [turn ''assistant'' prefix])) = Inr t2
        \<and> map sp_messages (sent w) =
            [msgs @ [turn ''assistant'' prefix],
             (msgs @ next_pass_turns t1) @ [turn ''assistant'' prefix]]
        \<and> messages v = msgs @ next_pass_turns t1 @ next_pass_turns t2"
    by (auto simp: native_params_def messages_to_send_def)
next
  assume "stream_claude_response_native_aws_bedrock env gclient sp msgs True = ((Returns t', w'), v')"
  from gateway_run_Returns [OF this] show
    "\<exists>t1 t2.
          gateway_pass_text gclient 1
            (invoke_params (request_body (msgs @ [turn ''assistant'' prefix]) (JStr sp)))
            = Inr t1
        \<and> gateway_pass_text gclient 2
            (invoke_params
               (request_body ((msgs @ next_pass_turns t1) @ [turn ''assistant'' prefix])
                  (JStr sp))) = Inr t2
        \<and> map ip_body (sent w') =
            [request_body (msgs @ [turn ''assistant'' prefix]) (JStr sp),
             request_body ((msgs @ next_pass_turns t1) @ [turn ''assistant'' prefix]) (JStr sp)]
        \<and> messages v' = msgs @ next_pass_turns t1 @ next_pass_turns t2"
    by (auto simp: invoke_params_def messages_to_send_def)
next
  show "turn ''assistant'' prefix \<in> set (next_pass_turns t0) \<longleftrightarrow> t0 = []"
    by (rule prefix_turn_appended)
next
  assume a: "\<forall>k p p'. client k p = client k p'"
  from native_toggle [OF a] show
    "fst (stream_claude_response_native env client sp msgs True model)
          = fst (stream_claude_response_native env client sp msgs False model)"
    by blast
  from native_toggle [OF a, of env sp msgs model] show
    "messages (fst (snd (stream_claude_response_native env client sp msgs True model)))
          = messages (fst (snd (stream_claude_response_native env client sp msgs False model)))"
    by simp
next
  assume a: "\<forall>k p p'. gclient k p = gclient k p'"
  from gateway_toggle [OF a] show
    "fst (fst (stream_claude_response_native_aws_bedrock env gclient sp msgs True))
          = fst (fst (stream_claude_response_native_aws_bedrock env gclient sp msgs False))"
    by blast
  from gateway_toggle [OF a, of env sp msgs] show
    "messages (snd (stream_claude_response_native_aws_bedrock env gclient sp msgs True))
          = messages (snd (stream_claude_response_native_aws_bedrock env gclient sp msgs False))"
    by simp
qed

theorem prefix_turn_in_requests_only_witness:
  "(\<forall>k p p'. gateway_client_AB k p = gateway_client_AB k p')
   \<and> fst (fst (stream_claude_response_native_aws_bedrock env_off gateway_client_AB ''sys''
          [turn ''user'' ''hi''] True)) = Returns ''AB''
   \<and> map ip_body (sent (snd (fst (stream_claude_response_native_aws_bedrock env_off
          gateway_client_AB ''sys'' [turn ''user'' ''hi''] True))))
       = [request_body [turn ''user'' ''hi'', turn ''assistant'' ''<thinking>''] (JStr ''sys''),
          request_body [turn ''user'' ''hi'', turn ''assistant'' ''<thinking>A'',
                        turn ''user'' improvement_request, turn ''assistant'' ''<thinking>'']
            (JStr ''sys'')]
   \<and> messages (snd (stream_claude_response_native_aws_bedrock env_off gateway_client_AB
          ''sys'' [turn ''user'' ''hi''] True))
       = messages (snd (stream_claude_response_native_aws_bedrock env_off gateway_client_AB
          ''sys'' [turn ''user'' ''hi''] False))
   \<and> messages (snd (stream_claude_response_native_aws_bedrock env_off gateway_client_AB
          ''sys'' [turn ''user'' ''hi''] False))
       = [turn ''user'' ''hi'',
          turn ''assistant'' ''<thinking>A'', turn ''user'' improvement_request,
          turn ''assistant'' ''<thinking>B'', turn ''user'' improvement_request]
   \<and> (\<forall>k p p'. native_client_AB k p = native_client_AB k p')
   \<and> fst (stream_claude_response_native env_off native_client_AB ''sys'' [turn ''user'' ''hi'']
          True CLAUDE_3_OPUS) = Returns ''B''
   \<and> map sp_messages (sent (snd (snd (stream_claude_response_native env_off native_client_AB
          ''sys'' [turn ''user'' ''hi''] True CLAUDE_3_OPUS))))
       = [[turn ''user'' ''hi'', turn ''assistant'' ''<thinking>''],
          [turn ''user'' ''hi'', turn ''assistant'' ''<thinking>A'',
           turn ''user'' improvement_request, turn ''assistant'' ''<thinking>'']]
   \<and> messages (fst (snd (stream_claude_response_native env_off native_client_AB ''sys''
          [turn ''user'' ''hi''] True CLAUDE_3_OPUS)))
       = messages (fst (snd (stream_claude_response_native env_off native_client_AB ''sys''
          [turn ''user'' ''hi''] False CLAUDE_3_OPUS)))
   \<and> messages (fst (snd (stream_claude_response_native env_off native_client_AB ''sys''
          [turn ''user'' ''hi''] False CLAUDE_3_OPUS)))
       = [turn ''user'' ''hi'',
          turn ''assistant'' ''<thinking>A'', turn ''user'' improvement_request,
          turn ''assistant'' ''<thinking>B'', turn ''user'' improvement_request]
   \<and> fst (fst (stream_claude_response_native_aws_bedrock env_off gateway_client_A_then_error
          ''sys'' [turn ''user'' ''hi''] True)) = Raises (TransportError ''overloaded'')
   \<and> map ip_body (sent (snd (fst (stream_claude_response_native_aws_bedrock env_off
          gateway_client_A_then_error ''sys'' [turn ''user'' ''hi''] True))))
       = [request_body [turn ''user'' ''hi'', turn ''assistant'' ''<thinking>''] (JStr ''sys''),
          request_body [turn ''user'' ''hi'', turn ''assistant'' ''<thinking>A'',
                        turn ''user'' improvement_request, turn ''assistant'' ''<thinking>'']
            (JStr ''sys'')]
   \<and> messages (snd (stream_claude_response_native_aws_bedrock env_off
          gateway_client_A_then_error ''sys'' [turn ''user'' ''hi''] True))
       = [turn ''user'' ''hi'',
          turn ''assistant'' ''<thinking>A'', turn ''user'' improvement_request]
   \<and> turn ''assistant'' prefix \<in> set (next_pass_turns [])"
proof -
  let ?G = "\<lambda>it. stream_claude_response_native_aws_bedrock env_off gateway_client_AB ''sys''
          [turn ''user'' ''hi''] it"
  let ?N = "\<lambda>it. stream_claude_response_native env_off native_client_AB ''sys''
          [turn ''user'' ''hi''] it CLAUDE_3_OPUS"
  let ?E = "stream_claude_response_native_aws_bedrock env_off gateway_client_A_then_error ''sys''
          [turn ''user'' ''hi''] True"
  note inst = prefix_turn_in_requests_only
    [where env = env_off and client = native_client_AB and gclient = gateway_client_AB
       and sp = "''sys''" and msgs = "[turn ''user'' ''hi'']" and model = CLAUDE_3_OPUS
       and ?t0.0 = "[]"]
  have gindep: "\<forall>k p p'. gateway_client_AB k p = gateway_client_AB k p'"
    by (simp add: gateway_client_AB_def)
  have nindep: "\<forall>k p p'. native_client_AB k p = native_client_AB k p'"
    by (simp add: native_client_AB_def)
  have gout: "fst (fst (?G True)) = Returns ''AB''"
    by (simp add: gateway_AB_run)
  then have grun: "?G True = ((Returns ''AB'', snd (fst (?G True))), snd (?G True))"
    by (metis prod.collapse)
  from inst [THEN conjunct2, THEN conjunct2, THEN conjunct2, THEN conjunct1, rule_format,
      OF grun]
  obtain t1 t2 where
    gt1: "gateway_pass_text gateway_client_AB 1
        (invoke_params (request_body ([turn ''user'' ''hi''] @ [turn ''assistant'' prefix])
           (JStr ''sys''))) = Inr t1"
    and gsent: "map ip_body (sent (snd (fst (?G True)))) =
       [request_body ([turn ''user'' ''hi''] @ [turn ''assistant'' prefix]) (JStr ''sys''),
        request_body (([turn ''user'' ''hi''] @ next_pass_turns t1) @ [turn ''assistant'' prefix])
          (JStr ''sys'')]"
    by (elim exE conjE)
  from gt1 have gA: "t1 = ''A''"
    by (simp add: gateway_pass_text_AB)
  from inst [THEN conjunct2, THEN conjunct2, THEN conjunct2, THEN conjunct2, THEN conjunct2,
      THEN conjunct2, THEN mp, OF gindep]
  have gsame: "messages (snd (?G True)) = messages (snd (?G False))"
    by blast
  have nout: "fst (?N True) = Returns ''B''"
    by (simp add: native_AB_run)
  then have nrun: "?N True = (Returns ''B'', fst (snd (?N True)), snd (snd (?N True)))"
    by (metis prod.collapse)
  from inst [THEN conjunct2, THEN conjunct2, THEN conjunct1, rule_format, OF nrun]
  obtain u1 u2 where
    nt1: "native_pass_text native_client_AB 1
        (native_params CLAUDE_3_OPUS ''sys''
           ([turn ''user'' ''hi''] @ [turn ''assistant'' prefix])) = Inr u1"
    and nsent: "map sp_messages (sent (snd (snd (?N True)))) =
       [[turn ''user'' ''hi''] @ [turn ''assistant'' prefix],
        ([turn ''user'' ''hi''] @ next_pass_turns u1) @ [turn ''assistant'' prefix]]"
    by (elim exE conjE)
  from nt1 have nA: "u1 = ''A''"
    by (simp add: native_pass_text_AB)
  from inst [THEN conjunct2, THEN conjunct2, THEN conjunct2, THEN conjunct2, THEN conjunct2,
      THEN conjunct1, THEN mp, OF nindep]
  have nsame: "messages (fst (snd (?N True))) = messages (fst (snd (?N False)))"
    by blast
  from inst [THEN conjunct2, THEN conjunct2, THEN conjunct2, THEN conjunct2, THEN conjunct1]
  have bare: "turn ''assistant'' prefix \<in> set (next_pass_turns [])"
    by simp
  have err: "fst (fst ?E) = Raises (TransportError ''overloaded'')"
    "map ip_body (sent (snd (fst ?E)))
       = [request_body [turn ''user'' ''hi'', turn ''assistant'' ''<thinking>''] (JStr ''sys''),
          request_body [turn ''user'' ''hi'', turn ''assistant'' ''<thinking>A'',
                        turn ''user'' improvement_request, turn ''assistant'' ''<thinking>'']
            (JStr ''sys'')]"
    "messages (snd ?E)
       = [turn ''user'' ''hi'',
          turn ''assistant'' ''<thinking>A'', turn ''user'' improvement_request]"
    by (simp_all add: gateway_A_then_error_run messages_to_send_def next_pass_turns_def
        prefix_def invoke_params_def)
  show ?thesis
    using gindep gout gsent gA gsame nindep nout nsent nA nsame bare err
    by (simp add: gateway_AB_run native_AB_run next_pass_turns_def prefix_def)
qed

section \<open>Properties of the single streaming call\<close>

text \<open>
  Claim C1, as stated: in each of the three provider variants the text returned by a
  streaming call is the concatenation of the increments given to the sink. The
  native-SDK call returns \<^verbatim>\<open>response.content[0].text\<close> of the final message of the client
  library and never looks at the increments: for a final message of two text blocks,
  the sink has received \<^verbatim>\<open>Hello\<close> and \<^verbatim>\<open> world\<close> and the call returns \<^verbatim>\<open>Hello\<close>.
\<close>

theorem returned_text_is_concatenation_counterexample:
  "fst (fst (stream_claude_response two_block_client text_heap text_messages)) = Returns ''Hello''
   \<and> sink (snd (fst (stream_claude_response two_block_client text_heap text_messages)))
       = [JStr ''Hello'', JStr '' world'']
   \<and> concat [''Hello'', '' world''] \<noteq> ''Hello''"
  by (simp add: two_block_run)

text \<open>
  Claim C1, amended. A direct-API call and a managed-gateway call that return a text
  return the concatenation, in order, of the increments given to the sink, which are
  all strings. A native-SDK call that returns a text has given the sink the increments
  of the client's text stream, and returns the text of the first content block of the
  client's final message.
\<close>

theorem returned_text_and_increments:
  "(stream_openai_response client msgs model = (Returns t, w) \<longrightarrow>
      (\<exists>incs. sink w = map JStr incs \<and> t = concat incs))
   \<and> (stream_claude_response_aws_bedrock gclient h ms = ((Returns t', w'), h') \<longrightarrow>
      (\<exists>incs. sink w' = map JStr incs \<and> t' = concat incs))
   \<and> (stream_claude_response cclient h ms = ((Returns t'', w''), h'') \<longrightarrow>
      (\<exists>params stream r.
          sent w'' = [params] \<and> cclient params = Inr stream
        \<and> sink w'' = map JStr (items (text_stream stream))
        \<and> get_final_message stream = Inr r \<and> first_text r = Inr t''))"
proof (intro conjI impI)
  assume "stream_openai_response client msgs model = (Returns t, w)"
  from openai_Returns [OF this] show "\<exists>incs. sink w = map JStr incs \<and> t = concat incs"
    by blast
next
  assume "stream_claude_response_aws_bedrock gclient h ms = ((Returns t', w'), h')"
  from bedrock_Returns [OF this] show "\<exists>incs. sink w' = map JStr incs \<and> t' = concat incs"
    by blast
next
  assume "stream_claude_response cclient h ms = ((Returns t'', w''), h'')"
  from claude_Returns [OF this] show
    "\<exists>params stream r.
          sent w'' = [params] \<and> cclient params = Inr stream
        \<and> sink w'' = map JStr (items (text_stream stream))
        \<and> get_final_message stream = Inr r \<and> first_text r = Inr t''"
    by blast
qed

theorem returned_text_and_increments_witness:
  "stream_openai_response chunks_client text_messages GPT_4_VISION
     = (Returns ''<html>'',
        \<lparr>sink = [JStr ''<html>'', JStr [], JStr []], stdout = [], files = [],
         sent = [openai_params text_messages GPT_4_VISION]\<rparr>)
   \<and> (\<exists>incs. [JStr ''<html>'', JStr [], JStr []] = map JStr incs \<and> ''<html>'' = concat incs)"
proof -
  have run: "stream_openai_response chunks_client text_messages GPT_4_VISION
     = (Returns ''<html>'',
        \<lparr>sink = [JStr ''<html>'', JStr [], JStr []], stdout = [], files = [],
         sent = [openai_params text_messages GPT_4_VISION]\<rparr>)"
    by (rule chunks_run)
  from returned_text_and_increments [THEN conjunct1, rule_format, OF run]
  show ?thesis using run by simp
qed

text \<open>
  Claim C9, as stated: in every streaming call the sink is called once for each
  text-bearing event of the provider's event sequence. A direct-API stream whose
  second chunk has no choices makes \<^verbatim>\<open>chunk.choices[0]\<close> raise \<^verbatim>\<open>IndexError\<close>: the call ends
  there, and of the two chunks that bear a text, \<^verbatim>\<open>a\<close> and \<^verbatim>\<open>b\<close>, only the first has reached
  the sink.
\<close>

theorem sink_called_for_every_text_event_counterexample:
  "stream_openai_response no_choice_client text_messages GPT_4_VISION
     = (Raises IndexError,
        \<lparr>sink = [JStr ''a''], stdout = [], files = [],
         sent = [openai_params text_messages GPT_4_VISION]\<rparr>)
   \<and> no_choice_client (openai_params text_messages GPT_4_VISION)
       = Inr \<lparr>items = [ChatCompletionChunk [Choice (Some ''a'')],
                       ChatCompletionChunk [],
                       ChatCompletionChunk [Choice (Some ''b'')]],
              failure = None\<rparr>
   \<and> map chunk_text
        (filter text_bearing [ChatCompletionChunk [Choice (Some ''a'')],
                              ChatCompletionChunk [],
                              ChatCompletionChunk [Choice (Some ''b'')]]) = [''a'', ''b'']"
  by (simp add: no_choice_run no_choice_client_def text_bearing_def chunk_text_def
      chunk_content_def)

text \<open>
  Claim C9, amended. In every streaming call, whether it returns or raises, the sink
  has been called exactly once, in order, for each text-bearing event that the loop
  got to, and for nothing else. Direct API: once for every chunk before the first one
  that bears no text, with \<^verbatim>\<open>chunk.choices[0].delta.content or ""\<close>, so a chunk with no
  content or with the empty string gives a call with the empty string; a call that
  returns has got to every chunk. Managed gateway: once for every event with a
  \<^verbatim>\<open>delta.text\<close> among the events up to the first on which the loop raises; such an event
  is of type \<^verbatim>\<open>content_block_delta\<close>, so an event of another type gives no call; a call
  that returns has got to every event. Native SDK: once for every increment of the
  text stream. A call that sends no request, or whose request the client refuses,
  calls the sink not at all.
\<close>

theorem sink_called_once_per_handled_text_event:
  "sink (snd (stream_openai_response client msgs model)) =
     (case client (openai_params msgs model) of
        Inl e \<Rightarrow> []
      | Inr stream \<Rightarrow>
          map (\<lambda>ch. JStr (chunk_text ch)) (takeWhile text_bearing (items stream)))
   \<and> (stream_openai_response client msgs model = (Returns t, w) \<longrightarrow>
        (\<exists>stream.
            client (openai_params msgs model) = Inr stream
          \<and> takeWhile text_bearing (items stream) = items stream
          \<and> sink w = map (\<lambda>ch. JStr (chunk_text ch)) (items stream)
          \<and> length (sink w) = length (items stream)))
   \<and> text_bearing (ChatCompletionChunk (Choice None # cs))
   \<and> chunk_text (ChatCompletionChunk (Choice None # cs)) = []
   \<and> text_bearing (ChatCompletionChunk (Choice (Some []) # cs))
   \<and> chunk_text (ChatCompletionChunk (Choice (Some []) # cs)) = []
   \<and> sink (snd (fst (stream_claude_response_aws_bedrock gclient h ms))) =
       (case translate_messages h ms of
          (Inl e, h') \<Rightarrow> []
        | (Inr (system_prompt, claude_messages), h') \<Rightarrow>
            (case dumps_request h' claude_messages system_prompt of
               Inl e \<Rightarrow> []
             | Inr body \<Rightarrow>
                 (case gclient (invoke_params body) of
                    Inl e \<Rightarrow> []
                  | Inr r \<Rightarrow>
                      map delta_value (filter text_event (handled (response_events r))))))
   \<and> filter text_event evs = filter text_event (filter content_delta evs)
   \<and> (stream_claude_response_aws_bedrock gclient h ms = ((Returns t', w'), h') \<longrightarrow>
        (\<exists>params r.
            sent w' = [params] \<and> gclient params = Inr r
          \<and> handled (response_events r) = response_events r
          \<and> sink w' = map JStr (delta_texts (response_events r))
          \<and> length (sink w') = length (filter content_delta (response_events r))))
   \<and> sink (snd (fst (stream_claude_response cclient h ms))) =
       (case translate_messages h ms of
          (Inl e, h') \<Rightarrow> []
        | (Inr (system_prompt, claude_messages), h') \<Rightarrow>
            (case cclient (claude_params system_prompt claude_messages h') of
               Inl e \<Rightarrow> []
             | Inr stream \<Rightarrow> map JStr (items (text_stream stream))))"
proof (intro conjI impI)
  show "sink (snd (stream_openai_response client msgs model)) =
     (case client (openai_params msgs model) of
        Inl e \<Rightarrow> []
      | Inr stream \<Rightarrow>
          map (\<lambda>ch. JStr (chunk_text ch)) (takeWhile text_bearing (items stream)))"
    by (rule openai_sink)
next
  assume r: "stream_openai_response client msgs model = (Returns t, w)"
  then obtain stream where s: "client (openai_params msgs model) = Inr stream"
    and c: "fst (consume_chunks (items stream) ([], [])) = None"
    by (auto simp: stream_openai_response_def Let_def
        split: sum.splits prod.splits option.splits)
  from c have "list_all text_bearing (items stream)"
    by (simp add: consume_chunks_outcome)
  then have all: "takeWhile text_bearing (items stream) = items stream"
    by (simp add: list_all_iff)
  from openai_sink [of client msgs model] r s all
  have "sink w = map (\<lambda>ch. JStr (chunk_text ch)) (items stream)"
    by simp
  with s all show "\<exists>stream.
            client (openai_params msgs model) = Inr stream
          \<and> takeWhile text_bearing (items stream) = items stream
          \<and> sink w = map (\<lambda>ch. JStr (chunk_text ch)) (items stream)
          \<and> length (sink w) = length (items stream)"
    by simp
next
  show "text_bearing (ChatCompletionChunk (Choice None # cs))"
    by (simp add: text_bearing_def chunk_content_def)
next
  show "chunk_text (ChatCompletionChunk (Choice None # cs)) = []"
    by (simp add: chunk_text_def chunk_content_def)
next
  show "text_bearing (ChatCompletionChunk (Choice (Some []) # cs))"
    by (simp add: text_bearing_def chunk_content_def)
next
  show "chunk_text (ChatCompletionChunk (Choice (Some []) # cs)) = []"
    by (simp add: chunk_text_def chunk_content_def)
next
  show "sink (snd (fst (stream_claude_response_aws_bedrock gclient h ms))) =
       (case translate_messages h ms of
          (Inl e, h') \<Rightarrow> []
        | (Inr (system_prompt, claude_messages), h') \<Rightarrow>
            (case dumps_request h' claude_messages system_prompt of
               Inl e \<Rightarrow> []
             | Inr body \<Rightarrow>
                 (case gclient (invoke_params body) of
                    Inl e \<Rightarrow> []
                  | Inr r \<Rightarrow>
                      map delta_value (filter text_event (handled (response_events r))))))"
    by (rule bedrock_sink)
next
  show "filter text_event evs = filter text_event (filter content_delta evs)"
    by (rule text_event_content_delta)
next
  assume r: "stream_claude_response_aws_bedrock gclient h ms = ((Returns t', w'), h')"
  from bedrock_Returns [OF r] obtain system_prompt claude_messages body r1 where
    a: "translate_messages h ms = (Inr (system_prompt, claude_messages), h')"
       "dumps_request h' claude_messages system_prompt = Inr body"
       "sent w' = [invoke_params body]" "gclient (invoke_params body) = Inr r1"
       "sink w' = map JStr (delta_texts (response_events r1))"
       "length (sink w') = length (filter content_delta (response_events r1))"
    by blast
  from r have tr: "bedrock_try gclient h ms = ((Returns t', w'), h')"
    by (auto simp: stream_claude_response_aws_bedrock_def handle_exceptions_Returns_iff
        split: prod.splits)
  have "handled (response_events r1) = response_events r1"
  proof (cases "get_body r1")
    case None
    then show ?thesis by (simp add: response_events_def)
  next
    case (Some stream)
    with tr a obtain fm sk where "consume_events (items stream) ([], []) = (None, fm, sk)"
      by (auto simp: bedrock_try_def Let_def split: prod.splits option.splits)
    from consume_events_handled [OF this] Some show ?thesis
      by (simp add: response_events_def)
  qed
  with a show "\<exists>params r.
            sent w' = [params] \<and> gclient params = Inr r
          \<and> handled (response_events r) = response_events r
          \<and> sink w' = map JStr (delta_texts (response_events r))
          \<and> length (sink w') = length (filter content_delta (response_events r))"
    by blast
next
  show "sink (snd (fst (stream_claude_response cclient h ms))) =
       (case translate_messages h ms of
          (Inl e, h') \<Rightarrow> []
        | (Inr (system_prompt, claude_messages), h') \<Rightarrow>
            (case cclient (claude_params system_prompt claude_messages h') of
               Inl e \<Rightarrow> []
             | Inr stream \<Rightarrow> map JStr (items (text_stream stream))))"
    by (rule claude_sink)
qed

theorem sink_called_once_per_handled_text_event_witness:
  "sink (snd (stream_openai_response chunks_client text_messages GPT_4_VISION))
     = [JStr ''<html>'', JStr [], JStr []]
   \<and> fst (stream_openai_response chunks_client text_messages GPT_4_VISION) = Returns ''<html>''
   \<and> sink (snd (stream_openai_response no_choice_client text_messages GPT_4_VISION))
       = [JStr ''a'']
   \<and> fst (stream_openai_response no_choice_client text_messages GPT_4_VISION)
       = Raises IndexError
   \<and> sink (snd (fst (stream_claude_response_aws_bedrock deltas_client text_heap text_messages)))
       = [JStr ''<ht'', JStr ''ml>'']
   \<and> fst (fst (stream_claude_response_aws_bedrock deltas_client text_heap text_messages))
       = Returns ''<html>''
   \<and> sink (snd (fst (stream_claude_response_aws_bedrock no_delta_client text_heap text_messages)))
       = [JStr ''<ht'']
   \<and> fst (fst (stream_claude_response_aws_bedrock no_delta_client text_heap text_messages))
       = Raises (KeyError ''delta'')
   \<and> sink (snd (fst (stream_claude_response two_block_client text_heap text_messages)))
       = [JStr ''Hello'', JStr '' world'']
   \<and> (\<exists>stream. chunks_client (openai_params text_messages GPT_4_VISION) = Inr stream
          \<and> length (items stream) = 3
          \<and> takeWhile text_bearing (items stream) = items stream)
   \<and> (\<exists>r. deltas_client
             (invoke_params
                (request_body
                   [JObj [(''role'', JStr ''user''), (''content'', JStr ''A login page'')]]
                   (JStr ''You write HTML.''))) = Inr r
          \<and> length (response_events r) = 5
          \<and> length (filter content_delta (response_events r)) = 2
          \<and> handled (response_events r) = response_events r)"
proof -
  note direct = sink_called_once_per_handled_text_event [THEN conjunct1]
  note direct_returns = sink_called_once_per_handled_text_event
    [THEN conjunct2, THEN conjunct1, rule_format]
  note gateway_returns = sink_called_once_per_handled_text_event
    [THEN conjunct2, THEN conjunct2, THEN conjunct2, THEN conjunct2, THEN conjunct2,
     THEN conjunct2, THEN conjunct2, THEN conjunct2, THEN conjunct1, rule_format]
  note gateway = sink_called_once_per_handled_text_event
    [THEN conjunct2, THEN conjunct2, THEN conjunct2, THEN conjunct2, THEN conjunct2,
     THEN conjunct2, THEN conjunct1]
  note native = sink_called_once_per_handled_text_event
    [THEN conjunct2, THEN conjunct2, THEN conjunct2, THEN conjunct2, THEN conjunct2,
     THEN conjunct2, THEN conjunct2, THEN conjunct2, THEN conjunct2]
  have 1: "sink (snd (stream_openai_response chunks_client text_messages GPT_4_VISION))
     = [JStr ''<html>'', JStr [], JStr []]"
    using direct [of chunks_client text_messages GPT_4_VISION]
    by (simp add: chunks_client_def text_bearing_def chunk_text_def chunk_content_def)
  have 2: "sink (snd (stream_openai_response no_choice_client text_messages GPT_4_VISION))
       = [JStr ''a'']"
    using direct [of no_choice_client text_messages GPT_4_VISION]
    by (simp add: no_choice_client_def text_bearing_def chunk_text_def chunk_content_def)
  have 3: "sink (snd (fst (stream_claude_response_aws_bedrock deltas_client text_heap
        text_messages))) = [JStr ''<ht'', JStr ''ml>'']"
    using gateway [of deltas_client text_heap text_messages]
    by (simp add: translate_text_messages dumps_text_request deltas_client_def
        response_events_def raises_on_def text_event_def delta_value_def
        event_text_delta event_text_other event_text_no_chunk)
  have 4: "sink (snd (fst (stream_claude_response_aws_bedrock no_delta_client text_heap
        text_messages))) = [JStr ''<ht'']"
    using gateway [of no_delta_client text_heap text_messages]
    by (simp add: translate_text_messages dumps_text_request no_delta_client_def
        response_events_def raises_on_def text_event_def delta_value_def
        event_text_delta event_text_no_delta)
  have 5: "sink (snd (fst (stream_claude_response two_block_client text_heap text_messages)))
       = [JStr ''Hello'', JStr '' world'']"
    using native [of two_block_client text_heap text_messages]
    by (simp add: translate_text_messages two_block_client_def)
  have crun: "stream_openai_response chunks_client text_messages GPT_4_VISION
     = (Returns ''<html>'',
        \<lparr>sink = [JStr ''<html>'', JStr [], JStr []], stdout = [], files = [],
         sent = [openai_params text_messages GPT_4_VISION]\<rparr>)"
    by (rule chunks_run)
  from direct_returns [OF crun] obtain stream where
    "chunks_client (openai_params text_messages GPT_4_VISION) = Inr stream"
    "takeWhile text_bearing (items stream) = items stream"
    "length [JStr ''<html>'', JStr [], JStr []] = length (items stream)"
    by auto
  then have 6: "\<exists>stream. chunks_client (openai_params text_messages GPT_4_VISION) = Inr stream
          \<and> length (items stream) = 3
          \<and> takeWhile text_bearing (items stream) = items stream"
    by auto
  let ?run = "stream_claude_response_aws_bedrock deltas_client text_heap text_messages"
  let ?w = "\<lparr>sink = [JStr ''<ht'', JStr ''ml>''], stdout = [], files = [],
         sent = [invoke_params
                   (request_body
                      [JObj [(''role'', JStr ''user''), (''content'', JStr ''A login page'')]]
                      (JStr ''You write HTML.''))]\<rparr>"
  have drun: "?run = ((Returns ''<html>'', ?w), snd ?run)"
    using deltas_run by (metis prod.collapse)
  from gateway_returns [OF drun] obtain params r where
    a: "sent ?w = [params]" "deltas_client params = Inr r"
       "handled (response_events r) = response_events r"
       "length (sink ?w) = length (filter content_delta (response_events r))"
    by blast
  have "length (response_events r) = 5"
    using a(2) by (auto simp: deltas_client_def response_events_def)
  with a have 7: "\<exists>r. deltas_client
             (invoke_params
                (request_body
                   [JObj [(''role'', JStr ''user''), (''content'', JStr ''A login page'')]]
                   (JStr ''You write HTML.''))) = Inr r
          \<and> length (response_events r) = 5
          \<and> length (filter content_delta (response_events r)) = 2
          \<and> handled (response_events r) = response_events r"
    by auto
  show ?thesis
    using 1 2 3 4 5 6 7 by (simp add: chunks_run no_choice_run deltas_run no_delta_run)
qed

section \<open>Properties of the message translation\<close>

text \<open>
  Claim C5. When the translation of a message list \<open>ms\<close> of the native-SDK and
  managed-gateway adapters produces a request, the list has at least one message, the
  system prompt is the content of the first message (\<^verbatim>\<open>messages[0].get("content")\<close>), and
  there are \<open>length ms - 1\<close> translated turns. The turns are the copies of the messages
  after the first, one for each and in their order: they are the dictionaries made
  during the call, at the addresses that follow the caller's store, and the turn at
  position \<open>i\<close> has in the store sent with the request the role, the content and every
  other field of the message at position \<open>i + 1\<close>, but for the fields that the rewriting
  of an image part assigns. So the first message is read for the system prompt and is
  not copied into a turn. The native-SDK request has the system prompt as its \<^verbatim>\<open>system\<close>
  argument and the turns as its \<^verbatim>\<open>messages\<close>; the JSON body of the managed-gateway request
  has exactly one \<^verbatim>\<open>system\<close> field, the encoded system prompt, and its \<^verbatim>\<open>messages\<close> array
  holds the encoded turns, \<open>length ms - 1\<close> of them.
\<close>

theorem system_prompt_and_copied_turns:
  "translate_messages h ms = (Inr (system_prompt, claude_messages), h') \<longrightarrow>
     1 \<le> length ms
     \<and> first_content h ms = Inr system_prompt
     \<and> length claude_messages = length ms - 1
     \<and> claude_messages = map PRef [length h ..< length h + (length ms - 1)]
     \<and> hd ms \<notin> set claude_messages
     \<and> (in_store h (tl ms) \<longrightarrow> list_all2 (copy_of h h') (tl ms) claude_messages)
     \<and> (\<exists>params. sent (snd (fst (stream_claude_response client h ms))) = [params]
            \<and> sp_system params = system_prompt
            \<and> sp_messages params = (claude_messages, h'))
     \<and> (\<forall>body. dumps_request h' claude_messages system_prompt = Inr body \<longrightarrow>
            sent (snd (fst (stream_claude_response_aws_bedrock gclient h ms)))
              = [invoke_params body]
            \<and> (\<exists>js s kvs. body = JObj kvs
                  \<and> dumps h' system_prompt = Inr s
                  \<and> collect (map (dumps h') claude_messages) = Inr js
                  \<and> map_of kvs ''system'' = Some s
                  \<and> length (filter (\<lambda>kv. fst kv = ''system'') kvs) = 1
                  \<and> map_of kvs ''messages'' = Some (JArr js)
                  \<and> length js = length ms - 1))"
proof
  assume tr: "translate_messages h ms = (Inr (system_prompt, claude_messages), h')"
  from translate_messages_turns [OF tr] have
    t: "ms \<noteq> []" "length claude_messages = length ms - 1" "hd ms \<notin> set claude_messages"
    by blast+
  from t(1) have n: "1 \<le> length ms" by (cases ms) simp_all
  from translate_messages_Inr [OF tr] obtain h1 where
    f: "first_content h ms = Inr system_prompt"
    and c: "copy_messages h (tl ms) = Inr (h1, claude_messages)"
    by blast
  from copy_messages_addresses [OF c]
  have addr: "claude_messages = map PRef [length h ..< length h + (length ms - 1)]"
    by simp
  have copies: "in_store h (tl ms) \<longrightarrow> list_all2 (copy_of h h') (tl ms) claude_messages"
    using translate_messages_copies [OF tr] by blast
  have native: "\<exists>params. sent (snd (fst (stream_claude_response client h ms))) = [params]
            \<and> sp_system params = system_prompt
            \<and> sp_messages params = (claude_messages, h')"
    using claude_sent [OF tr, of client] by (simp add: claude_params_def)
  have gateway: "sent (snd (fst (stream_claude_response_aws_bedrock gclient h ms)))
              = [invoke_params body]
            \<and> (\<exists>js s kvs. body = JObj kvs
                  \<and> dumps h' system_prompt = Inr s
                  \<and> collect (map (dumps h') claude_messages) = Inr js
                  \<and> map_of kvs ''system'' = Some s
                  \<and> length (filter (\<lambda>kv. fst kv = ''system'') kvs) = 1
                  \<and> map_of kvs ''messages'' = Some (JArr js)
                  \<and> length js = length ms - 1)"
    if d: "dumps_request h' claude_messages system_prompt = Inr body" for body
  proof -
    from dumps_request_turns [OF d] obtain js s where
      b: "body = request_body js s" "collect (map (dumps h') claude_messages) = Inr js"
         "length js = length claude_messages" "dumps h' system_prompt = Inr s"
      by blast
    from request_body_fields [of js s] obtain kvs where
      k: "request_body js s = JObj kvs" "map_of kvs ''system'' = Some s"
         "map_of kvs ''messages'' = Some (JArr js)"
         "length (filter (\<lambda>kv. fst kv = ''system'') kvs) = 1"
      by blast
    from bedrock_sent [OF tr d] b k t(2) show ?thesis by auto
  qed
  from n f t addr copies native gateway show
    "1 \<le> length ms
     \<and> first_content h ms = Inr system_prompt
     \<and> length claude_messages = length ms - 1
     \<and> claude_messages = map PRef [length h ..< length h + (length ms - 1)]
     \<and> hd ms \<notin> set claude_messages
     \<and> (in_store h (tl ms) \<longrightarrow> list_all2 (copy_of h h') (tl ms) claude_messages)
     \<and> (\<exists>params. sent (snd (fst (stream_claude_response client h ms))) = [params]
            \<and> sp_system params = system_prompt
            \<and> sp_messages params = (claude_messages, h'))
     \<and> (\<forall>body. dumps_request h' claude_messages system_prompt = Inr body \<longrightarrow>
            sent (snd (fst (stream_claude_response_aws_bedrock gclient h ms)))
              = [invoke_params body]
            \<and> (\<exists>js s kvs. body = JObj kvs
                  \<and> dumps h' system_prompt = Inr s
                  \<and> collect (map (dumps h') claude_messages) = Inr js
                  \<and> map_of kvs ''system'' = Some s
                  \<and> length (filter (\<lambda>kv. fst kv = ''system'') kvs) = 1
                  \<and> map_of kvs ''messages'' = Some (JArr js)
                  \<and> length js = length ms - 1))"
    by blast
qed

theorem system_prompt_and_copied_turns_witness:
  "translate_messages dialogue_heap dialogue_messages =
     (Inr (PStr ''You write HTML.'', [PRef 4, PRef 5, PRef 6]),
      dialogue_heap @
        [PDict [(''role'', PStr ''user''), (''content'', PStr ''A login page'')],
         PDict [(''role'', PStr ''assistant''), (''content'', PStr ''<html></html>'')],
         PDict [(''role'', PStr ''user''), (''content'', PStr ''Add a title'')]])
   \<and> length dialogue_messages = 4
   \<and> in_store dialogue_heap (tl dialogue_messages)
   \<and> first_content dialogue_heap dialogue_messages = Inr (PStr ''You write HTML.'')
   \<and> [PRef 4, PRef 5, PRef 6]
       = map PRef [length dialogue_heap ..< length dialogue_heap + (length dialogue_messages - 1)]
   \<and> list_all2 (copy_of dialogue_heap (snd (translate_messages dialogue_heap dialogue_messages)))
        (tl dialogue_messages) [PRef 4, PRef 5, PRef 6]
   \<and> sent (snd (fst (stream_claude_response two_block_client dialogue_heap dialogue_messages)))
       = [claude_params (PStr ''You write HTML.'') [PRef 4, PRef 5, PRef 6]
            (snd (translate_messages dialogue_heap dialogue_messages))]
   \<and> sent (snd (fst (stream_claude_response_aws_bedrock deltas_client dialogue_heap
          dialogue_messages)))
       = [invoke_params
            (request_body
               [JObj [(''role'', JStr ''user''), (''content'', JStr ''A login page'')],
                JObj [(''role'', JStr ''assistant''), (''content'', JStr ''<html></html>'')],
                JObj [(''role'', JStr ''user''), (''content'', JStr ''Add a title'')]]
               (JStr ''You write HTML.''))]"
proof -
  note inst = system_prompt_and_copied_turns
    [where client = two_block_client and gclient = deltas_client, THEN mp,
     OF translate_dialogue]
  from inst have 1: "first_content dialogue_heap dialogue_messages = Inr (PStr ''You write HTML.'')"
    and 2: "[PRef 4, PRef 5, PRef 6]
       = map PRef [length dialogue_heap ..< length dialogue_heap + (length dialogue_messages - 1)]"
    by blast+
  from inst dialogue_in_store
  have 3: "list_all2 (copy_of dialogue_heap
        (dialogue_heap @
          [PDict [(''role'', PStr ''user''), (''content'', PStr ''A login page'')],
           PDict [(''role'', PStr ''assistant''), (''content'', PStr ''<html></html>'')],
           PDict [(''role'', PStr ''user''), (''content'', PStr ''Add a title'')]]))
        (tl dialogue_messages) [PRef 4, PRef 5, PRef 6]"
    by blast
  have 4: "sent (snd (fst (stream_claude_response two_block_client dialogue_heap
        dialogue_messages)))
       = [claude_params (PStr ''You write HTML.'') [PRef 4, PRef 5, PRef 6]
            (snd (translate_messages dialogue_heap dialogue_messages))]"
    using claude_sent [OF translate_dialogue, of two_block_client]
    by (simp add: translate_dialogue)
  from inst dumps_dialogue_request
  have 5: "sent (snd (fst (stream_claude_response_aws_bedrock deltas_client dialogue_heap
          dialogue_messages)))
       = [invoke_params
            (request_body
               [JObj [(''role'', JStr ''user''), (''content'', JStr ''A login page'')],
                JObj [(''role'', JStr ''assistant''), (''content'', JStr ''<html></html>'')],
                JObj [(''role'', JStr ''user''), (''content'', JStr ''Add a title'')]]
               (JStr ''You write HTML.''))]"
    by blast
  show ?thesis
    using 1 2 3 4 5 translate_dialogue dialogue_in_store
    by (simp add: dialogue_messages_def)
qed

text \<open>
  Claim C6. For an image part whose data URL is well formed,
  \<^verbatim>\<open>data:<media-type>;base64,<payload>\<close>, the translation of the part gives it a source
  whose \<^verbatim>\<open>media_type\<close> is the media type and whose \<^verbatim>\<open>data\<close> is the text after the comma, and
  so does a translation of a message list that reaches the part and succeeds. For a
  data URL with no comma, \<^verbatim>\<open>image_data_url.split(",")[1]\<close> (or the media type's
  \<^verbatim>\<open>split(":")[1]\<close> before it) raises \<^verbatim>\<open>IndexError\<close>, the spec's MalformedInput; a message
  list that holds such a part is not translated: both adapters raise the exception of
  the translation, and no request has been handed to a client.
\<close>

theorem data_url_translation:
  "(image_part_url h a url \<and> well_formed_data_url url media_type payload \<longrightarrow>
      (\<exists>h1. rewrite_content h (PRef a) = (None, h1) \<and> translated_part h1 a media_type payload))
   \<and> (translate_messages h ms = (Inr (system_prompt, claude_messages), h')
        \<and> PRef m \<in> set (tl ms) \<and> content_list h m l parts \<and> PRef a \<in> set parts
        \<and> image_part_url h a url \<and> well_formed_data_url url media_type payload \<longrightarrow>
      translated_part h' a media_type payload)
   \<and> (image_part_url h a url \<and> CHR '','' \<notin> set url \<longrightarrow>
      fst (rewrite_content h (PRef a)) = Some IndexError)
   \<and> (PRef m \<in> set (tl ms) \<and> content_list h m l parts \<and> PRef a \<in> set parts
        \<and> image_part_url h a url \<and> CHR '','' \<notin> set url \<longrightarrow>
      (\<exists>e h''. translate_messages h ms = (Inl e, h'')
          \<and> stream_claude_response client h ms = ((Raises e, empty_world), h'')
          \<and> stream_claude_response_aws_bedrock gclient h ms =
               ((Raises e, empty_world\<lparr>stdout := [''An error occurred!'']\<rparr>), h'')))"
proof (intro conjI impI)
  assume a: "image_part_url h a url \<and> well_formed_data_url url media_type payload"
  then obtain d where
    r: "rewrite_content h (PRef a) =
          (None, h[a := PDict (claude_part (length h) d)] @ [source_dict media_type payload])"
    using rewrite_content_well_formed by blast
  from rewrite_content_translates [OF r] a
  have "translated_part (h[a := PDict (claude_part (length h) d)]
          @ [source_dict media_type payload]) a media_type payload"
    by blast
  with r show "\<exists>h1. rewrite_content h (PRef a) = (None, h1)
      \<and> translated_part h1 a media_type payload"
    by blast
next
  assume "translate_messages h ms = (Inr (system_prompt, claude_messages), h')
        \<and> PRef m \<in> set (tl ms) \<and> content_list h m l parts \<and> PRef a \<in> set parts
        \<and> image_part_url h a url \<and> well_formed_data_url url media_type payload"
  then show "translated_part h' a media_type payload"
    using translate_messages_translates by blast
next
  assume "image_part_url h a url \<and> CHR '','' \<notin> set url"
  then show "fst (rewrite_content h (PRef a)) = Some IndexError"
    using rewrite_content_no_comma by blast
next
  assume "PRef m \<in> set (tl ms) \<and> content_list h m l parts \<and> PRef a \<in> set parts
        \<and> image_part_url h a url \<and> CHR '','' \<notin> set url"
  then obtain e h'' where f: "translate_messages h ms = (Inl e, h'')"
    using translate_messages_no_comma by blast
  from translation_fails [OF f] translation_fails_bedrock [OF f]
  have "stream_claude_response client h ms = ((Raises e, empty_world), h'')"
    and "stream_claude_response_aws_bedrock gclient h ms =
               ((Raises e, empty_world\<lparr>stdout := [''An error occurred!'']\<rparr>), h'')"
    by blast+
  with f show "\<exists>e h''. translate_messages h ms = (Inl e, h'')
          \<and> stream_claude_response client h ms = ((Raises e, empty_world), h'')
          \<and> stream_claude_response_aws_bedrock gclient h ms =
               ((Raises e, empty_world\<lparr>stdout := [''An error occurred!'']\<rparr>), h'')"
    by blast
qed

theorem data_url_translation_witness:
  "image_part_url image_heap 3 ''data:image/png;base64,AAAA''
   \<and> well_formed_data_url ''data:image/png;base64,AAAA'' ''image/png'' ''AAAA''
   \<and> translated_part (snd (translate_messages image_heap image_messages)) 3 ''image/png'' ''AAAA''
   \<and> heap_lookup (snd (translate_messages image_heap image_messages)) 7
       = Some (PDict [(''type'', PStr ''base64''), (''media_type'', PStr ''image/png''),
                      (''data'', PStr ''AAAA'')])
   \<and> image_part_url no_comma_heap 3 ''data:image/png;base64''
   \<and> CHR '','' \<notin> set ''data:image/png;base64''
   \<and> fst (stream_claude_response two_block_client no_comma_heap image_messages)
       = (Raises IndexError, empty_world)
   \<and> fst (stream_claude_response_aws_bedrock deltas_client no_comma_heap image_messages)
       = (Raises IndexError, empty_world\<lparr>stdout := [''An error occurred!'']\<rparr>)"
proof -
  let ?h' = "snd (translate_messages image_heap image_messages)"
  have tr: "translate_messages image_heap image_messages
      = (Inr (PStr ''You write HTML.'', [PRef 6]), ?h')"
    by (simp add: translate_image_messages)
  note inst = data_url_translation
    [where h = image_heap and ms = image_messages and a = 3 and m = 1 and l = 2
       and parts = "[PRef 3, PRef 5]" and url = "''data:image/png;base64,AAAA''"
       and media_type = "''image/png''" and payload = "''AAAA''" and h' = ?h'
       and system_prompt = "PStr ''You write HTML.''" and claude_messages = "[PRef 6]",
     THEN conjunct2, THEN conjunct1, THEN mp]
  have 1: "translated_part ?h' 3 ''image/png'' ''AAAA''"
    using inst tr image_heap_facts by blast
  have 2: "heap_lookup (snd (translate_messages image_heap image_messages)) 7
       = Some (PDict [(''type'', PStr ''base64''), (''media_type'', PStr ''image/png''),
                      (''data'', PStr ''AAAA'')])"
    by (simp add: translate_image_messages heap_lookup_def)
  note bad = data_url_translation
    [where h = no_comma_heap and ms = image_messages and a = 3 and m = 1 and l = 2
       and parts = "[PRef 3, PRef 5]" and url = "''data:image/png;base64''"
       and client = two_block_client and gclient = deltas_client,
     THEN conjunct2, THEN conjunct2, THEN conjunct2, THEN mp]
  from bad image_heap_facts(1,3) no_comma_heap_facts obtain e h'' where
    f: "translate_messages no_comma_heap image_messages = (Inl e, h'')"
       "stream_claude_response two_block_client no_comma_heap image_messages
          = ((Raises e, empty_world), h'')"
       "stream_claude_response_aws_bedrock deltas_client no_comma_heap image_messages =
               ((Raises e, empty_world\<lparr>stdout := [''An error occurred!'']\<rparr>), h'')"
    by blast
  from f(1) translate_no_comma have "e = IndexError" by simp
  with f 1 2 image_heap_facts no_comma_heap_facts show ?thesis by simp
qed

text \<open>
  Claim C10. The translation works on the caller's objects. \<^verbatim>\<open>dict(message)\<close> copies a
  message dictionary but not the content list it refers to, so the copy and the
  caller's message share the list and its parts. When the translation succeeds, every
  image part (type \<^verbatim>\<open>image_url\<close>) in the content list of a message after the first has
  been rewritten in place: in the store after the call the caller's message still has
  the same content list with the same elements, and the part has the type \<^verbatim>\<open>image\<close>, no
  \<^verbatim>\<open>image_url\<close> and a \<^verbatim>\<open>source\<close>. The store that both adapters leave is the one the
  translation leaves.
\<close>

theorem translation_rewrites_caller_parts:
  "snd (stream_claude_response client h ms) = snd (translate_messages h ms)
   \<and> snd (stream_claude_response_aws_bedrock gclient h ms) = snd (translate_messages h ms)
   \<and> (translate_messages h ms = (Inr (system_prompt, claude_messages), h')
        \<and> PRef m \<in> set (tl ms) \<and> content_list h m l parts \<and> PRef a \<in> set parts
        \<and> image_part h a \<longrightarrow>
      rewritten_part h' a
      \<and> content_list h' m l parts
      \<and> heap_lookup h' a \<noteq> heap_lookup h a
      \<and> (\<exists>c. PRef c \<in> set claude_messages \<and> length h \<le> c \<and> content_list h' c l parts))"
proof (intro conjI impI)
  show "snd (stream_claude_response client h ms) = snd (translate_messages h ms)"
    by (rule claude_store)
next
  show "snd (stream_claude_response_aws_bedrock gclient h ms) = snd (translate_messages h ms)"
    by (rule bedrock_store)
next
  assume a: "translate_messages h ms = (Inr (system_prompt, claude_messages), h')
        \<and> PRef m \<in> set (tl ms) \<and> content_list h m l parts \<and> PRef a \<in> set parts
        \<and> image_part h a"
  then have r: "rewritten_part h' a \<and> content_list h' m l parts
       \<and> (\<exists>c. PRef c \<in> set claude_messages \<and> length h \<le> c \<and> content_list h' c l parts)"
    using translate_messages_rewrites by blast
  from a r have "heap_lookup h' a \<noteq> heap_lookup h a"
    by (auto simp: image_part_def rewritten_part_def)
  with r show "rewritten_part h' a" "content_list h' m l parts"
    "heap_lookup h' a \<noteq> heap_lookup h a"
    "\<exists>c. PRef c \<in> set claude_messages \<and> length h \<le> c \<and> content_list h' c l parts"
    by blast+
qed

theorem translation_rewrites_caller_parts_witness:
  "content_list image_heap 1 2 [PRef 3, PRef 5]
   \<and> heap_lookup image_heap 3
       = Some (PDict [(''type'', PStr ''image_url''), (''image_url'', PRef 4)])
   \<and> content_list (snd (stream_claude_response two_block_client image_heap image_messages))
        1 2 [PRef 3, PRef 5]
   \<and> rewritten_part (snd (stream_claude_response two_block_client image_heap image_messages)) 3
   \<and> heap_lookup (snd (stream_claude_response two_block_client image_heap image_messages)) 3
       = Some (PDict [(''type'', PStr ''image''), (''source'', PRef 7)])"
proof -
  let ?h' = "snd (translate_messages image_heap image_messages)"
  have tr: "translate_messages image_heap image_messages
      = (Inr (PStr ''You write HTML.'', [PRef 6]), ?h')"
    by (simp add: translate_image_messages)
  note inst = translation_rewrites_caller_parts
    [where h = image_heap and ms = image_messages and a = 3 and m = 1 and l = 2
       and parts = "[PRef 3, PRef 5]" and client = two_block_client and h' = ?h'
       and system_prompt = "PStr ''You write HTML.''" and claude_messages = "[PRef 6]"]
  from inst have store:
    "snd (stream_claude_response two_block_client image_heap image_messages) = ?h'"
    by blast
  from inst [THEN conjunct2, THEN conjunct2, THEN mp] tr image_heap_facts
  have "rewritten_part ?h' 3 \<and> content_list ?h' 1 2 [PRef 3, PRef 5]"
    by blast
  moreover have "heap_lookup ?h' 3 = Some (PDict [(''type'', PStr ''image''), (''source'', PRef 7)])"
    by (simp add: translate_image_messages heap_lookup_def)
  moreover have "heap_lookup image_heap 3
       = Some (PDict [(''type'', PStr ''image_url''), (''image_url'', PRef 4)])"
    by (simp add: image_heap_def heap_lookup_def)
  ultimately show ?thesis
    using store image_heap_facts(2) by simp
qed
end
